(* ===== verification/Prelude.thy ===== *)
theory Prelude
  imports Main "HOL-Library.Word" "HOL-Library.Multiset"
begin

text \<open>
  Shared vocabulary of the development: the fixed-width integer types of the C++ code, the error
  codes carried by \<open>std::expected\<close>, the conversions between bytes and characters, the integer
  casts, the collections of facts the component theories add to, and the generic lemmas on lists,
  words and casts that they share.

  Signed C++ integers are words as well; where the code compares or converts them as signed values
  the definitions say so (\<open>sint\<close>, \<open><s\<close>, \<open>scast\<close>). \<open>size_t\<close> is 64 bits wide;
  sizes and positions are natural numbers, and the places where the code converts a signed value to
  \<open>size_t\<close> or subtracts sizes go through 64-bit words, so that a wrap-around is visible.
\<close>

unbundle bit_operations_syntax

section \<open>Integer types\<close>

type_synonym uint8_t = "8 word"
type_synonym int8_t = "8 word"
type_synonym int16_t = "16 word"
type_synonym int32_t = "32 word"
type_synonym uint32_t = "32 word"
type_synonym int64_t = "64 word"
type_synonym uint64_t = "64 word"
type_synonym size_t = nat
type_synonym bytes = "uint8_t list"

section \<open>Errors\<close>

text \<open>
  The \<open>std::errc\<close> values the code puts into a \<open>std::expected\<close>. The constructor
  \<open>undefined_behavior\<close> is not a value of the enumeration: it marks an execution that
  dereferences a \<open>std::expected\<close> which holds no value. The last three are exceptions that no
  caller catches: \<open>std::vector::reserve\<close> throws \<open>length_error\<close> when the requested size is
  beyond its maximum, \<open>std::stoll\<close> throws \<open>invalid_argument\<close> and \<open>out_of_range\<close>.
\<close>

datatype errc =
    message_size
  | protocol_not_supported
  | function_not_supported
  | undefined_behavior
  | length_error
  | invalid_argument
  | out_of_range

type_synonym 'a expected = "errc + 'a"

section \<open>Facts the component theories collect\<close>

named_theorems reads_intros \<open>what a parser reads from an encoding\<close>
named_theorems tame_intros \<open>parsers that keep the reader within its buffer\<close>
named_theorems emits_intros \<open>what a writer action appends to the buffer\<close>

section \<open>Bytes, characters and casts\<close>

text \<open>\<open>reinterpret_cast<const char*>\<close> on a byte range, and back.\<close>

definition chars_of_bytes :: "bytes \<Rightarrow> string" where
  "chars_of_bytes bs = map (\<lambda>b. char_of (unat b)) bs"

definition bytes_of_chars :: "string \<Rightarrow> bytes" where
  "bytes_of_chars cs = map (\<lambda>c. word_of_nat (of_char c)) cs"

lemma length_chars_of_bytes [simp]: "length (chars_of_bytes bs) = length bs"
  by (simp add: chars_of_bytes_def)

lemma length_bytes_of_chars [simp]: "length (bytes_of_chars cs) = length cs"
  by (simp add: bytes_of_chars_def)

lemma bytes_of_chars_eq_Nil [simp]: "bytes_of_chars cs = [] \<longleftrightarrow> cs = []"
  by (simp add: bytes_of_chars_def)

lemma chars_of_bytes_of_chars [simp]: "chars_of_bytes (bytes_of_chars cs) = cs"
proof -
  have "char_of (unat (word_of_nat (of_char c) :: uint8_t)) = c" for c
    by (simp add: unat_of_nat)
  then show ?thesis by (simp add: chars_of_bytes_def bytes_of_chars_def map_idI)
qed

lemma bytes_of_chars_of_bytes [simp]: "bytes_of_chars (chars_of_bytes bs) = bs"
proof -
  have "word_of_nat (of_char (char_of (unat b))) = b" for b :: uint8_t
    using unsigned_less [of b, where ?'a = nat] by simp
  then show ?thesis by (simp add: chars_of_bytes_def bytes_of_chars_def map_idI)
qed

lemma bytes_of_chars_append [simp]:
  "bytes_of_chars (a @ b) = bytes_of_chars a @ bytes_of_chars b"
  by (simp add: bytes_of_chars_def)

text \<open>\<open>static_cast<size_t>\<close> of a signed integer: sign extension to 64 bits.\<close>

definition size_of_signed :: "'a::len word \<Rightarrow> size_t" where
  "size_of_signed w = unat (scast w :: uint64_t)"

text \<open>Subtraction on \<open>size_t\<close>.\<close>

definition size_minus :: "size_t \<Rightarrow> size_t \<Rightarrow> size_t" where
  "size_minus a b = unat (word_of_nat a - word_of_nat b :: uint64_t)"

lemma size_minus_eq: "b \<le> a \<Longrightarrow> a < 2 ^ 64 \<Longrightarrow> size_minus a b = a - b"
  unfolding size_minus_def
  by (simp add: unat_sub_if' unat_of_nat word_le_nat_alt)

text \<open>\<open>static_cast<uint32_t>\<close> of a size, as used for every length prefix.\<close>

definition u32_of_size :: "size_t \<Rightarrow> uint32_t" where
  "u32_of_size n = word_of_nat n"

lemma unat_u32_of_size: "n < 2 ^ 32 \<Longrightarrow> unat (u32_of_size n) = n"
  by (simp add: u32_of_size_def unat_of_nat)

lemma unat_u32_of_size_Suc: "n < 2 ^ 32 - 1 \<Longrightarrow> unat (u32_of_size n + 1) = n + 1"
  by (simp add: u32_of_size_def unat_of_nat unat_word_ariths)

lemma uint_eq_sint: "0 \<le> sint w \<Longrightarrow> uint w = sint (w :: 'a::len word)"
proof -
  assume "0 \<le> sint w"
  moreover have "sint w < 2 ^ LENGTH('a)"
    using sint_lt [of w] by (rule less_le_trans) (simp add: power_increasing)
  ultimately show ?thesis by (simp add: uint_sint take_bit_int_eq_self)
qed

lemma size_of_signed_nonneg:
  assumes "0 \<le> sint w" and "LENGTH('a) \<le> 64"
  shows "size_of_signed (w :: 'a::len word) = unat w"
proof -
  have "uint w < 2 ^ LENGTH('a)" by simp
  also have "(2::int) ^ LENGTH('a) \<le> 2 ^ 64"
    using assms(2) by (rule power_increasing) simp
  finally have *: "take_bit 64 (uint w) = uint w"
    by (intro take_bit_int_eq_self) simp_all
  have "scast w = (word_of_int (uint w) :: uint64_t)"
    by (simp only: scast_eq uint_eq_sint [OF assms(1)])
  then have "uint (scast w :: uint64_t) = uint w"
    using * by (simp only: uint_word_of_int_eq) simp
  then show ?thesis by (simp only: size_of_signed_def unat_eq_nat_uint)
qed

lemma size_of_signed_pos:
  "0 <s w \<Longrightarrow> LENGTH('a) \<le> 64 \<Longrightarrow> size_of_signed (w :: 'a::len word) = unat w"
  by (rule size_of_signed_nonneg) (simp_all add: word_sless_alt)

lemma sint_word_of_nat:
  "n < 2 ^ (LENGTH('a) - 1) \<Longrightarrow> sint (word_of_nat n :: 'a::len word) = int n"
proof -
  assume "n < 2 ^ (LENGTH('a) - 1)"
  then have "int n < 2 ^ (LENGTH('a) - 1)" by (metis of_nat_less_iff of_nat_numeral of_nat_power)
  then have "signed_take_bit (LENGTH('a) - 1) (int n) = int n"
    by (intro signed_take_bit_int_eq_self)
      (auto intro: order_trans [of _ 0])
  then show ?thesis by (simp add: signed_of_nat)
qed

lemma size_of_signed_word_of_nat:
  assumes "n < 2 ^ (LENGTH('a) - 1)" and "LENGTH('a) \<le> 64"
  shows "size_of_signed (word_of_nat n :: 'a::len word) = n"
proof -
  have "size_of_signed (word_of_nat n :: 'a word) = unat (word_of_nat n :: 'a word)"
    using assms by (intro size_of_signed_nonneg) (simp_all add: sint_word_of_nat)
  also have "\<dots> = n"
    using assms(1) uint_eq_sint [of "word_of_nat n :: 'a word"]
    by (simp add: unat_eq_nat_uint sint_word_of_nat)
  finally show ?thesis .
qed

lemma sless_word_of_nat:
  "n < 2 ^ (LENGTH('a) - 1) \<Longrightarrow> 0 <s (word_of_nat n :: 'a::len word) \<longleftrightarrow> 0 < n"
  by (simp add: word_sless_alt sint_word_of_nat)

section \<open>Lists\<close>

text \<open>
  \<open>update_first p f xs\<close> applies \<open>f\<close> to the first element satisfying \<open>p\<close>: a
  \<open>for\<close> loop that assigns and breaks.
\<close>

fun update_first :: "('a \<Rightarrow> bool) \<Rightarrow> ('a \<Rightarrow> 'a) \<Rightarrow> 'a list \<Rightarrow> 'a list" where
  "update_first p f [] = []"
| "update_first p f (x # xs) = (if p x then f x # xs else x # update_first p f xs)"

lemma length_update_first [simp]: "length (update_first p f xs) = length xs"
  by (induction xs) auto

lemma update_first_eq_Nil [simp]: "update_first p f xs = [] \<longleftrightarrow> xs = []"
  by (cases xs) auto

lemma map_update_first: "(\<And>x. g (f x) = g x) \<Longrightarrow> map g (update_first p f xs) = map g xs"
  by (induction xs) auto

lemma update_first_none: "(\<And>x. x \<in> set xs \<Longrightarrow> \<not> p x) \<Longrightarrow> update_first p f xs = xs"
  by (induction xs) auto

lemma set_update_first: "x \<in> set (update_first p f xs) \<Longrightarrow> x \<in> set xs \<or> (\<exists>y\<in>set xs. p y \<and> x = f y)"
  by (induction xs) (auto split: if_splits)

text \<open>When equal keys mean equal elements, the arrangement in ascending order is unique.\<close>

lemma sorted_arrangement_unique:
  assumes "\<And>x. x \<in> set xs \<Longrightarrow> f (key x) = x" and "mset ys = mset xs" and "sorted (map key ys)"
  shows "ys = sort_key key xs"
proof -
  have set: "set ys = set xs" using assms(2) by (metis set_mset_mset)
  have "map key ys = sort (map key xs)"
    using assms(2,3) by (metis mset_map properties_for_sort)
  also have "\<dots> = map key (sort_key key xs)"
    by (rule properties_for_sort) simp_all
  finally have "map f (map key ys) = map f (map key (sort_key key xs))" by simp
  moreover have "map f (map key zs) = zs" if "set zs = set xs" for zs
    unfolding map_map using assms(1) that by (intro map_idI) simp
  ultimately show ?thesis using set by (metis set_sort)
qed

lemma take_append_exact [simp]: "take (length xs) (xs @ ys) = xs"
  by simp

end
