(* ===== verification/Socket.thy ===== *)
theory Socket
  imports Prelude
begin

text \<open>
  The two loops of \<open>src/src/net/socket.cpp\<close> over a non-blocking stream socket. The kernel's side
  of a socket is explicit: the bytes that have arrived and were not read, whether the peer has shut
  down its side, and the bytes handed over to the peer. How many bytes one system call transfers,
  and whether it fails, is decided by the environment, one answer per call; a call that succeeds
  transfers at least one byte, as a stream socket does.

  However the kernel cuts the stream into calls, \<open>recv_all\<close> takes the next bytes in order and
  \<open>send_all\<close> hands over the next bytes in order.
\<close>

section \<open>The kernel's side\<close>

record sock =
  sk_in :: bytes
  sk_eof :: bool
  sk_out :: bytes
  sk_room :: nat

text \<open>One answer per call: how many bytes it would transfer, or the error number of a failure other
  than \<open>EAGAIN\<close>.\<close>

datatype io_answer = Transfer nat | Fails int

type_synonym io_answers = "nat \<Rightarrow> io_answer"

text \<open>The outcomes of a system call: bytes or a count, \<open>EAGAIN\<close>, or another error.\<close>

datatype 'a io = Done 'a | WouldBlock | Error int

definition chunk :: "nat \<Rightarrow> nat \<Rightarrow> nat" where
  "chunk k n = max 1 (min k n)"

definition sys_read :: "io_answer \<Rightarrow> nat \<Rightarrow> sock \<Rightarrow> (bytes \<times> sock) io" where
  "sys_read a n sk =
     (case a of
        Fails e \<Rightarrow> Error e
      | Transfer k \<Rightarrow>
          if sk_in sk = [] then (if sk_eof sk then Done ([], sk) else WouldBlock)
          else (let m = chunk k n in Done (take m (sk_in sk), sk\<lparr>sk_in := drop m (sk_in sk)\<rparr>)))"

definition sys_send :: "io_answer \<Rightarrow> bytes \<Rightarrow> sock \<Rightarrow> (nat \<times> sock) io" where
  "sys_send a data sk =
     (case a of
        Fails e \<Rightarrow> Error e
      | Transfer k \<Rightarrow>
          if sk_room sk = 0 then WouldBlock
          else (let m = min (chunk k (length data)) (sk_room sk) in
                Done (m, sk\<lparr>sk_out := sk_out sk @ take m data, sk_room := sk_room sk - m\<rparr>)))"

lemma chunk_pos [simp]: "0 < chunk k n"
  by (simp add: chunk_def)

lemma chunk_eq_0 [simp]: "chunk k n \<noteq> 0"
  by (simp add: chunk_def)

lemma chunk_le: "0 < n \<Longrightarrow> chunk k n \<le> n"
  by (simp add: chunk_def)

section \<open>Receiving\<close>

text \<open>The outcome of a loop: an error number, or what was transferred.\<close>

type_synonym 'a io_result = "int + 'a"

text \<open>\<open>recv_all\<close>, entered with the bytes received so far; \<open>i\<close> numbers the calls.\<close>

function recv_loop :: "io_answers \<Rightarrow> nat \<Rightarrow> nat \<Rightarrow> bytes \<Rightarrow> sock \<Rightarrow> bytes io_result \<times> sock" where
  "recv_loop an i want received sk =
     (if length received < want then
        (case sys_read (an i) (want - length received) sk of
           Error e \<Rightarrow> (Inl e, sk)
         | WouldBlock \<Rightarrow> (Inr received, sk)
         | Done (bs, sk') \<Rightarrow>
             if bs = [] then (Inr received, sk')
             else recv_loop an (Suc i) want (received @ bs) sk')
      else (Inr received, sk))"
  by pat_completeness auto
termination
  by (relation "measure (\<lambda>(_, _, want, received, _). want - length received)")
    (auto simp: diff_less_mono2 length_greater_0_conv [symmetric] simp del: length_greater_0_conv)

declare recv_loop.simps [simp del]

definition recv_all :: "io_answers \<Rightarrow> nat \<Rightarrow> sock \<Rightarrow> bytes io_result \<times> sock" where
  "recv_all an want sk = recv_loop an 0 want [] sk"

section \<open>Sending\<close>

function send_loop :: "io_answers \<Rightarrow> nat \<Rightarrow> bytes \<Rightarrow> nat \<Rightarrow> sock \<Rightarrow> nat io_result \<times> sock" where
  "send_loop an i data sent sk =
     (if sent < length data then
        (case sys_send (an i) (drop sent data) sk of
           Error e \<Rightarrow> (Inl e, sk)
         | WouldBlock \<Rightarrow> (Inr sent, sk)
         | Done (n, sk') \<Rightarrow> send_loop an (Suc i) data (sent + n) sk')
      else (Inr sent, sk))"
  by pat_completeness auto
termination
  by (relation "measure (\<lambda>(_, _, data, sent, _). length data - sent)")
    (auto simp: sys_send_def Let_def intro!: diff_less_mono2 split: io_answer.splits if_splits)

declare send_loop.simps [simp del]

definition send_all :: "io_answers \<Rightarrow> bytes \<Rightarrow> sock \<Rightarrow> nat io_result \<times> sock" where
  "send_all an data sk = send_loop an 0 data 0 sk"

section \<open>What the loops transfer\<close>

text \<open>
  The outcome of a loop that does not fail depends only on what the kernel holds, not on how it
  cuts the stream into calls: everything that has arrived, up to the wanted size.
\<close>

lemma recv_loop_result:
  assumes "recv_loop an i want received sk = (Inr bs, sk')" and "length received \<le> want"
  shows "bs = received @ take (want - length received) (sk_in sk) \<and>
    sk' = sk\<lparr>sk_in := drop (want - length received) (sk_in sk)\<rparr>"
  using assms
proof (induction an i want received sk rule: recv_loop.induct)
  case (1 an i want received sk)
  show ?case
  proof (cases "length received < want \<and> sk_in sk \<noteq> [] \<and> (\<exists>k. an i = Transfer k)")
    case True
    then obtain k where an: "an i = Transfer k" by blast
    define n where "n = want - length received"
    define m where "m = chunk k n"
    have m: "0 < m" "m \<le> n" using True by (simp_all add: m_def n_def chunk_le)
    let ?bs = "take m (sk_in sk)" and ?sk = "sk\<lparr>sk_in := drop m (sk_in sk)\<rparr>"
    have read: "sys_read (an i) (want - length received) sk = Done (?bs, ?sk)"
      using True an by (simp add: sys_read_def Let_def m_def n_def)
    have nn: "?bs \<noteq> []" using True m by auto
    with 1(2) True read have "recv_loop an (Suc i) want (received @ ?bs) ?sk = (Inr bs, sk')"
      by (subst (asm) recv_loop.simps) (simp del: take_eq_Nil)
    moreover have "length (received @ ?bs) \<le> want" using True m by (simp add: n_def)
    ultimately have "bs = (received @ ?bs) @ take (want - length (received @ ?bs)) (sk_in ?sk) \<and>
        sk' = ?sk\<lparr>sk_in := drop (want - length (received @ ?bs)) (sk_in ?sk)\<rparr>"
      using 1(1) [OF _ read refl nn] True by blast
    moreover have "?bs @ take (want - length (received @ ?bs)) (drop m (sk_in sk)) = take n (sk_in sk) \<and>
        drop (want - length (received @ ?bs)) (drop m (sk_in sk)) = drop n (sk_in sk)"
    proof (cases "m \<le> length (sk_in sk)")
      case True
      then have "want - length (received @ ?bs) = n - m" by (simp add: n_def)
      then show ?thesis using m take_add [of m "n - m" "sk_in sk"] by simp
    qed (use m in simp)
    ultimately show ?thesis by (simp add: n_def)
  next
    case False
    with 1(2,3) show ?thesis
      by (subst (asm) recv_loop.simps) (auto simp: sys_read_def Let_def split: io_answer.splits if_splits)
  qed
qed

lemma recv_all_result:
  assumes "recv_all an want sk = (Inr bs, sk')"
  shows "bs = take want (sk_in sk)" and "sk' = sk\<lparr>sk_in := drop want (sk_in sk)\<rparr>"
  using recv_loop_result [of an 0 want "[]" sk bs sk'] assms by (simp_all add: recv_all_def)

lemma recv_all_ok:
  assumes "\<And>i. \<exists>k. an i = Transfer k"
  shows "recv_all an want sk = (Inr (take want (sk_in sk)), sk\<lparr>sk_in := drop want (sk_in sk)\<rparr>)"
proof -
  have "\<exists>bs sk'. recv_loop an i want received sk = (Inr bs, sk')" for i received sk
    using assms
  proof (induction an i want received sk rule: recv_loop.induct)
    case (1 an i want received sk)
    obtain k where "an i = Transfer k" using 1(2) by blast
    with 1 show ?case
      by (subst recv_loop.simps) (auto simp: sys_read_def Let_def split: io.splits if_splits)
  qed
  then obtain bs sk' where "recv_all an want sk = (Inr bs, sk')" unfolding recv_all_def by blast
  then show ?thesis using recv_all_result by blast
qed

text \<open>Receiving never touches the outgoing side, whether it fails or not.\<close>

lemma recv_all_out:
  "sk_out (snd (recv_all an want sk)) = sk_out sk \<and> sk_room (snd (recv_all an want sk)) = sk_room sk"
proof -
  have "sk_out (snd (recv_loop an i want received sk)) = sk_out sk \<and>
      sk_room (snd (recv_loop an i want received sk)) = sk_room sk" for i received sk
  proof (induction an i want received sk rule: recv_loop.induct)
    case (1 an i want received sk)
    show ?case
    proof (cases "sys_read (an i) (want - length received) sk")
      case (Done p)
      then have "sk_out (snd p) = sk_out sk \<and> sk_room (snd p) = sk_room sk"
        by (auto simp: sys_read_def Let_def split: io_answer.splits if_splits)
      with 1 Done show ?thesis unfolding recv_loop.simps [of an i want received sk] by (cases p) simp
    qed (simp_all add: recv_loop.simps [of an i want received sk])
  qed
  then show ?thesis by (simp add: recv_all_def)
qed

lemma send_loop_result:
  assumes "send_loop an i data sent sk = (Inr n, sk')" and "sent \<le> length data"
  shows "n = sent + min (length data - sent) (sk_room sk) \<and>
    sk' = sk\<lparr>sk_out := sk_out sk @ take (n - sent) (drop sent data), sk_room := sk_room sk - (n - sent)\<rparr>"
  using assms
proof (induction an i data sent sk rule: send_loop.induct)
  case (1 an i data sent sk)
  show ?case
  proof (cases "sent < length data \<and> sk_room sk \<noteq> 0 \<and> (\<exists>k. an i = Transfer k)")
    case True
    then obtain k where an: "an i = Transfer k" by blast
    define m where "m = min (chunk k (length data - sent)) (sk_room sk)"
    let ?sk = "sk\<lparr>sk_out := sk_out sk @ take m (drop sent data), sk_room := sk_room sk - m\<rparr>"
    have m: "0 < m" "m \<le> length data - sent" "m \<le> sk_room sk"
      using True chunk_le [of "length data - sent" k] by (simp_all add: m_def)
    have send: "sys_send (an i) (drop sent data) sk = Done (m, ?sk)"
      using True an by (simp add: sys_send_def m_def Let_def)
    with 1(2) True have "send_loop an (Suc i) data (sent + m) ?sk = (Inr n, sk')"
      by (subst (asm) send_loop.simps) simp
    moreover have "sent + m \<le> length data" using m True by simp
    ultimately have n: "n = sent + m + min (length data - (sent + m)) (sk_room sk - m)"
      and sk': "sk' = ?sk\<lparr>sk_out := sk_out ?sk @ take (n - (sent + m)) (drop (sent + m) data),
        sk_room := sk_room sk - m - (n - (sent + m))\<rparr>"
      using 1(1) [OF _ send refl] True by simp_all
    have "n = sent + min (length data - sent) (sk_room sk)" using n m by linarith
    moreover have "take m (drop sent data) @ take (n - (sent + m)) (drop (sent + m) data) =
        take (n - sent) (drop sent data)"
      using n take_add [of m "n - (sent + m)" "drop sent data"] by (simp add: add.commute)
    moreover have "sk_room sk - m - (n - (sent + m)) = sk_room sk - (n - sent)" using n by linarith
    ultimately show ?thesis using sk' by simp
  next
    case False
    with 1(2,3) show ?thesis
      by (subst (asm) send_loop.simps) (auto simp: sys_send_def Let_def split: io_answer.splits if_splits)
  qed
qed

lemma send_all_result:
  assumes "send_all an data sk = (Inr n, sk')"
  shows "n = min (length data) (sk_room sk)"
    and "sk' = sk\<lparr>sk_out := sk_out sk @ take n data, sk_room := sk_room sk - n\<rparr>"
  using send_loop_result [of an 0 data 0 sk n sk'] assms by (simp_all add: send_all_def)

lemma send_all_ok:
  assumes "\<And>i. \<exists>k. an i = Transfer k"
  shows "\<exists>n sk'. send_all an data sk = (Inr n, sk')"
proof -
  have "\<exists>n sk'. send_loop an i data sent sk = (Inr n, sk')" for i sent sk
    using assms
  proof (induction an i data sent sk rule: send_loop.induct)
    case (1 an i data sent sk)
    obtain k where "an i = Transfer k" using 1(2) by blast
    with 1 show ?case
      by (subst send_loop.simps) (auto simp: sys_send_def Let_def split: io.splits if_splits)
  qed
  then show ?thesis by (simp add: send_all_def)
qed

end
