(* ===== verification/Interfaces.thy ===== *)
theory Interfaces
  imports Prelude
begin

text \<open>
  The contracts that several components share, as locales. A component that keeps a table (the
  committed offsets and the member assignments of a group, the groups of the coordinator, the
  partitions of a broker) interprets \<open>keyed_store\<close> on its own operations; a component that passes
  messages interprets \<open>fifo\<close>; one that keeps a log interprets \<open>append_log\<close>. The lemmas about
  sequences of operations are proved here once.
\<close>

section \<open>Tables\<close>

text \<open>
  \<open>put e k v s\<close> stores \<open>v\<close> under \<open>k\<close>; \<open>e\<close> is whatever else the operation reads, such
  as the time.
\<close>

locale keyed_store =
  fixes put :: "'e \<Rightarrow> 'k \<Rightarrow> 'v \<Rightarrow> 's \<Rightarrow> 's"
    and get :: "'s \<Rightarrow> 'k \<Rightarrow> 'v"
  assumes get_put: "get (put e k v s) k' = (if k' = k then v else get s k')"
begin

definition put_all :: "('e \<times> 'k \<times> 'v) list \<Rightarrow> 's \<Rightarrow> 's" where
  "put_all ops s = fold (\<lambda>(e, k, v). put e k v) ops s"

lemma put_all_simps [simp]:
  "put_all [] s = s"
  "put_all ((e, k, v) # ops) s = put_all ops (put e k v s)"
  by (simp_all add: put_all_def)

lemma get_put_all:
  "get (put_all ops s) k = (case map_of (rev (map snd ops)) k of Some v \<Rightarrow> v | None \<Rightarrow> get s k)"
  by (induction ops arbitrary: s) (auto simp: get_put map_add_def split: option.splits)

lemma get_put_all_distinct:
  assumes "distinct (map (fst \<circ> snd) ops)" and "(e, k, v) \<in> set ops"
  shows "get (put_all ops s) k = v"
proof -
  have "map_of (rev (map snd ops)) k = Some v"
    using assms by (intro map_of_is_SomeI) (force simp: rev_map [symmetric] comp_def)+
  then show ?thesis by (simp add: get_put_all)
qed

lemma get_put_all_other:
  "k \<notin> (fst \<circ> snd) ` set ops \<Longrightarrow> get (put_all ops s) k = get s k"
  by (induction ops arbitrary: s) (auto simp: get_put)

text \<open>Writes to different keys commute, as far as a reader can tell.\<close>

lemma put_commutes:
  "k \<noteq> l \<Longrightarrow> get (put e k v (put f l u s)) = get (put f l u (put e k v s))"
  by (rule ext) (simp add: get_put)

end

section \<open>Queues\<close>

text \<open>
  \<open>push\<close> appends, \<open>try_pop\<close> takes the oldest element or reports that there is none, and
  \<open>held\<close> is the sequence of elements inside, oldest first.
\<close>

locale fifo =
  fixes push :: "'a \<Rightarrow> 'q \<Rightarrow> 'q"
    and try_pop :: "'q \<Rightarrow> ('a \<times> 'q) option"
    and held :: "'q \<Rightarrow> 'a list"
  assumes push_held: "held (push x q) = held q @ [x]"
    and pop_none: "try_pop q = None \<Longrightarrow> held q = []"
    and pop_some: "try_pop q = Some (x, q') \<Longrightarrow> held q = x # held q'"
begin

text \<open>An interleaving of pushes (\<open>Some x\<close>) and pops (\<open>None\<close>): what is popped, in order.\<close>

fun run :: "'a option list \<Rightarrow> 'q \<Rightarrow> 'a list \<times> 'q" where
  "run [] q = ([], q)"
| "run (Some x # ops) q = run ops (push x q)"
| "run (None # ops) q =
     (case try_pop q of
        None \<Rightarrow> run ops q
      | Some (x, q') \<Rightarrow> let (out, q'') = run ops q' in (x # out, q''))"

text \<open>Nothing is lost, duplicated or reordered under any interleaving.\<close>

lemma run_order:
  "fst (run ops q) @ held (snd (run ops q)) = held q @ List.map_filter id ops"
proof (induction ops q rule: run.induct)
  case (3 ops q)
  show ?case
  proof (cases "try_pop q")
    case None
    with 3(1) show ?thesis by (simp add: map_filter_simps)
  next
    case (Some xq)
    obtain x q' where xq: "xq = (x, q')" by fastforce
    obtain out q'' where r: "run ops q' = (out, q'')" by fastforce
    from 3(2) [OF Some xq [symmetric]] r pop_some [of q x q'] Some xq show ?thesis
      by (simp add: map_filter_simps)
  qed
qed (simp_all add: push_held map_filter_simps)

text \<open>
  The loop \<open>while (try_pop(x)) { ... }\<close> runs \<open>length (held q)\<close> times when nobody pushes
  meanwhile, and sees the elements in order.
\<close>

fun drain :: "nat \<Rightarrow> 'q \<Rightarrow> 'a list option" where
  "drain 0 q = (case try_pop q of None \<Rightarrow> Some [] | Some _ \<Rightarrow> None)"
| "drain (Suc n) q =
     (case try_pop q of None \<Rightarrow> Some [] | Some (x, q') \<Rightarrow> map_option (Cons x) (drain n q'))"

lemma drain_held: "length (held q) \<le> n \<Longrightarrow> drain n q = Some (held q)"
proof (induction n arbitrary: q)
  case 0
  then show ?case by (auto dest: pop_none pop_some split: option.splits)
next
  case (Suc n)
  show ?case
  proof (cases "try_pop q")
    case None
    then show ?thesis by (simp add: pop_none)
  next
    case (Some xq)
    then obtain x q' where "try_pop q = Some (x, q')" by (cases xq) auto
    with Suc show ?thesis by (simp add: pop_some)
  qed
qed

end

section \<open>Append-only logs\<close>

text \<open>
  \<open>append a b s\<close> adds the batch \<open>b\<close>, with \<open>a\<close> whatever the environment contributes, provided
  \<open>can a b s\<close>; \<open>contents\<close> is what a reader sees and \<open>position\<close> the offset of the next record.
\<close>

locale append_log =
  fixes append :: "'a \<Rightarrow> 'b list \<Rightarrow> 's \<Rightarrow> 's"
    and contents :: "'s \<Rightarrow> 'b list"
    and position :: "'s \<Rightarrow> int"
    and records :: "'b list \<Rightarrow> int"
    and good :: "'s \<Rightarrow> bool"
    and can :: "'a \<Rightarrow> 'b list \<Rightarrow> 's \<Rightarrow> bool"
  assumes append_good: "good s \<Longrightarrow> can a b s \<Longrightarrow> good (append a b s)"
    and append_contents: "good s \<Longrightarrow> can a b s \<Longrightarrow> contents (append a b s) = contents s @ b"
    and append_position: "good s \<Longrightarrow> can a b s \<Longrightarrow> position (append a b s) = position s + records b"
begin

fun append_all :: "('a \<times> 'b list) list \<Rightarrow> 's \<Rightarrow> 's" where
  "append_all [] s = s"
| "append_all ((a, b) # ops) s = append_all ops (append a b s)"

fun can_all :: "('a \<times> 'b list) list \<Rightarrow> 's \<Rightarrow> bool" where
  "can_all [] s = True"
| "can_all ((a, b) # ops) s = (can a b s \<and> can_all ops (append a b s))"

lemma can_all_append [simp]: "can_all (ops @ ops') s \<longleftrightarrow> can_all ops s \<and> can_all ops' (append_all ops s)"
  by (induction ops arbitrary: s) auto

lemma append_all_log:
  assumes "good s" and "can_all ops s"
  shows "good (append_all ops s)"
    and "contents (append_all ops s) = contents s @ concat (map snd ops)"
    and "position (append_all ops s) = position s + (\<Sum>op\<leftarrow>ops. records (snd op))"
proof -
  have "good (append_all ops s) \<and> contents (append_all ops s) = contents s @ concat (map snd ops) \<and>
      position (append_all ops s) = position s + (\<Sum>op\<leftarrow>ops. records (snd op))"
    using assms
  proof (induction ops arbitrary: s)
    case (Cons op ops)
    obtain a b where op: "op = (a, b)" by fastforce
    then have "can a b s" "can_all ops (append a b s)" using Cons.prems(2) by simp_all
    with Cons.IH [of "append a b s"] Cons.prems(1) op show ?case
      by (simp add: append_good append_contents append_position)
  qed simp
  then show "good (append_all ops s)"
    and "contents (append_all ops s) = contents s @ concat (map snd ops)"
    and "position (append_all ops s) = position s + (\<Sum>op\<leftarrow>ops. records (snd op))"
    by blast+
qed

end

end
