(* ===== verification/Protocol.thy ===== *)
theory Protocol
  imports Prelude
begin

text \<open>
  The message types of \<open>src/src/protocol/request.hpp\<close> and \<open>response.hpp\<close>, one record per
  struct with the source's fields in the source's order (a short prefix keeps the field names of
  different structs apart), the two variants \<open>Request\<close> and \<open>Response\<close>, and the table of
  supported interfaces of \<open>api_registry.hpp\<close>.
\<close>

section \<open>Requests\<close>

type_synonym uuid = bytes

record RequestHeader =
  api_key :: int16_t
  api_version :: int16_t
  correlation_id :: int32_t

record ApiVersionsRequest =
  av_header :: RequestHeader

record DescribeTopicPartitionsRequest =
  dtp_header :: RequestHeader
  dtp_topic_names :: "string list"

record FetchPartitionRequest =
  fp_partition_index :: int32_t
  fp_fetch_offset :: int64_t
  fp_max_bytes :: int32_t

record FetchTopicRequest =
  ft_topic_id :: uuid
  ft_partitions :: "FetchPartitionRequest list"

record FetchRequest =
  fetch_header :: RequestHeader
  fetch_topics :: "FetchTopicRequest list"
  fetch_max_bytes :: int32_t

record ProducePartitionRequest =
  pp_partition_index :: int32_t
  pp_records :: bytes

record ProduceTopicRequest =
  pt_topic_name :: string
  pt_partitions :: "ProducePartitionRequest list"

record ProduceRequest =
  produce_header :: RequestHeader
  produce_topics :: "ProduceTopicRequest list"

record MetadataRequest =
  md_header :: RequestHeader
  md_topics :: "string list"
  md_allow_auto_topic_creation :: bool

record ListOffsetsPartitionRequest =
  lop_partition_index :: int32_t
  lop_timestamp :: int64_t

record ListOffsetsTopicRequest =
  lot_topic_name :: string
  lot_partitions :: "ListOffsetsPartitionRequest list"

record ListOffsetsRequest =
  lo_header :: RequestHeader
  lo_replica_id :: int32_t
  lo_isolation_level :: int8_t
  lo_topics :: "ListOffsetsTopicRequest list"

record FindCoordinatorRequest =
  fc_header :: RequestHeader
  fc_coordinator_key :: string
  fc_key_type :: int8_t

record OffsetCommitPartitionRequest =
  ocp_partition_index :: int32_t
  ocp_committed_offset :: int64_t

record OffsetCommitTopicRequest =
  oct_topic_name :: string
  oct_partitions :: "OffsetCommitPartitionRequest list"

record OffsetCommitRequest =
  oc_header :: RequestHeader
  oc_group_id :: string
  oc_member_id :: string
  oc_generation_id :: int32_t
  oc_topics :: "OffsetCommitTopicRequest list"

record OffsetFetchTopicRequest =
  oft_topic_name :: string
  oft_partition_indexes :: "int32_t list"

record OffsetFetchRequest =
  of_header :: RequestHeader
  of_group_id :: string
  of_topics :: "OffsetFetchTopicRequest list"

record JoinGroupProtocol =
  jgp_name :: string
  jgp_metadata :: bytes

record JoinGroupRequest =
  jg_header :: RequestHeader
  jg_group_id :: string
  jg_session_timeout_ms :: int32_t
  jg_member_id :: string
  jg_protocol_type :: string
  jg_protocols :: "JoinGroupProtocol list"

record SyncGroupAssignment =
  sga_member_id :: string
  sga_assignment :: bytes

record SyncGroupRequest =
  sg_header :: RequestHeader
  sg_group_id :: string
  sg_generation_id :: int32_t
  sg_member_id :: string
  sg_assignments :: "SyncGroupAssignment list"

record HeartbeatRequest =
  hb_header :: RequestHeader
  hb_group_id :: string
  hb_generation_id :: int32_t
  hb_member_id :: string
  hb_group_instance_id :: string

record LeaveGroupRequest =
  lg_header :: RequestHeader
  lg_group_id :: string
  lg_member_id :: string

datatype Request =
    ApiVersions ApiVersionsRequest
  | DescribeTopicPartitions DescribeTopicPartitionsRequest
  | Fetch FetchRequest
  | FindCoordinator FindCoordinatorRequest
  | Heartbeat HeartbeatRequest
  | JoinGroup JoinGroupRequest
  | LeaveGroup LeaveGroupRequest
  | ListOffsets ListOffsetsRequest
  | Metadata MetadataRequest
  | OffsetCommit OffsetCommitRequest
  | OffsetFetch OffsetFetchRequest
  | Produce ProduceRequest
  | SyncGroup SyncGroupRequest

section \<open>Responses\<close>

record ApiVersionEntry =
  ave_api_key :: int16_t
  ave_min_version :: int16_t
  ave_max_version :: int16_t

record ApiVersionsResponse =
  avr_correlation_id :: int32_t
  avr_error_code :: int16_t
  avr_api_keys :: "ApiVersionEntry list"
  avr_throttle_time_ms :: int32_t

record PartitionMetadata =
  pm_error_code :: int16_t
  pm_partition_index :: int32_t
  pm_leader_id :: int32_t
  pm_leader_epoch :: int32_t
  pm_replica_nodes :: "int32_t list"
  pm_isr_nodes :: "int32_t list"
  pm_eligible_leader_replicas :: "int32_t list"
  pm_last_known_elr :: "int32_t list"
  pm_offline_replicas :: "int32_t list"

record TopicMetadata =
  tm_error_code :: int16_t
  tm_topic_name :: string
  tm_topic_id :: uuid
  tm_is_internal :: bool
  tm_authorized_operations :: int32_t
  tm_partitions :: "PartitionMetadata list"

record DescribeTopicPartitionsResponse =
  dtr_correlation_id :: int32_t
  dtr_throttle_time_ms :: int32_t
  dtr_topics :: "TopicMetadata list"

record FetchPartitionResponse =
  fpr_partition_index :: int32_t
  fpr_error_code :: int16_t
  fpr_records :: bytes
  fpr_splice_fd :: int32_t
  fpr_splice_offset :: size_t
  fpr_splice_len :: size_t

record FetchTopicResponse =
  ftr_topic_id :: uuid
  ftr_partitions :: "FetchPartitionResponse list"

record FetchResponse =
  fr_correlation_id :: int32_t
  fr_throttle_time_ms :: int32_t
  fr_error_code :: int16_t
  fr_session_id :: int32_t
  fr_responses :: "FetchTopicResponse list"

record ProducePartitionResponse =
  ppr_partition_index :: int32_t
  ppr_error_code :: int16_t
  ppr_base_offset :: int64_t
  ppr_log_append_time_ms :: int64_t
  ppr_log_start_offset :: int64_t

record ProduceTopicResponse =
  ptr_topic_name :: string
  ptr_partitions :: "ProducePartitionResponse list"

record ProduceResponse =
  pr_correlation_id :: int32_t
  pr_throttle_time_ms :: int32_t
  pr_responses :: "ProduceTopicResponse list"

record MetadataBroker =
  mb_node_id :: int32_t
  mb_host :: string
  mb_port :: int32_t
  mb_rack :: string

record MetadataTopicResponse =
  mtr_error_code :: int16_t
  mtr_topic_name :: string
  mtr_topic_id :: uuid
  mtr_is_internal :: bool
  mtr_partitions :: "PartitionMetadata list"
  mtr_topic_authorized_operations :: int32_t

record MetadataResponse =
  mr_correlation_id :: int32_t
  mr_throttle_time_ms :: int32_t
  mr_brokers :: "MetadataBroker list"
  mr_cluster_id :: string
  mr_controller_id :: int32_t
  mr_topics :: "MetadataTopicResponse list"
  mr_cluster_authorized_operations :: int32_t

record ListOffsetsPartitionResponse =
  lopr_partition_index :: int32_t
  lopr_error_code :: int16_t
  lopr_offset :: int64_t
  lopr_timestamp :: int64_t

record ListOffsetsTopicResponse =
  lotr_topic_name :: string
  lotr_partitions :: "ListOffsetsPartitionResponse list"

record ListOffsetsResponse =
  lor_correlation_id :: int32_t
  lor_throttle_time_ms :: int32_t
  lor_topics :: "ListOffsetsTopicResponse list"

record FindCoordinatorResponse =
  fcr_correlation_id :: int32_t
  fcr_throttle_time_ms :: int32_t
  fcr_error_code :: int16_t
  fcr_error_message :: string
  fcr_node_id :: int32_t
  fcr_host :: string
  fcr_port :: int32_t

record OffsetCommitPartitionResponse =
  ocpr_partition_index :: int32_t
  ocpr_error_code :: int16_t
  ocpr_committed_leader_epoch :: int32_t
  ocpr_committed_metadata :: string

record OffsetCommitTopicResponse =
  octr_topic_name :: string
  octr_partitions :: "OffsetCommitPartitionResponse list"

record OffsetCommitResponse =
  ocr_correlation_id :: int32_t
  ocr_throttle_time_ms :: int32_t
  ocr_topics :: "OffsetCommitTopicResponse list"

record OffsetFetchPartitionResponse =
  ofpr_partition_index :: int32_t
  ofpr_committed_offset :: int64_t
  ofpr_committed_leader_epoch :: int32_t
  ofpr_committed_metadata :: string
  ofpr_error_code :: int16_t

record OffsetFetchTopicResponse =
  oftr_topic_name :: string
  oftr_partitions :: "OffsetFetchPartitionResponse list"

record OffsetFetchResponse =
  ofr_correlation_id :: int32_t
  ofr_throttle_time_ms :: int32_t
  ofr_topics :: "OffsetFetchTopicResponse list"

record JoinGroupMember =
  jgm_member_id :: string
  jgm_metadata :: bytes

record JoinGroupResponse =
  jgr_correlation_id :: int32_t
  jgr_throttle_time_ms :: int32_t
  jgr_error_code :: int16_t
  jgr_generation_id :: int32_t
  jgr_protocol_name :: string
  jgr_leader :: string
  jgr_member_id :: string
  jgr_members :: "JoinGroupMember list"

record SyncGroupResponse =
  sgr_correlation_id :: int32_t
  sgr_throttle_time_ms :: int32_t
  sgr_error_code :: int16_t
  sgr_protocol_type :: string
  sgr_protocol_name :: string
  sgr_assignment :: bytes

record HeartbeatResponse =
  hbr_correlation_id :: int32_t
  hbr_throttle_time_ms :: int32_t
  hbr_error_code :: int16_t

record LeaveGroupResponse =
  lgr_correlation_id :: int32_t
  lgr_throttle_time_ms :: int32_t
  lgr_error_code :: int16_t

datatype Response =
    ApiVersionsR ApiVersionsResponse
  | DescribeTopicPartitionsR DescribeTopicPartitionsResponse
  | FetchR FetchResponse
  | FindCoordinatorR FindCoordinatorResponse
  | HeartbeatR HeartbeatResponse
  | JoinGroupR JoinGroupResponse
  | LeaveGroupR LeaveGroupResponse
  | ListOffsetsR ListOffsetsResponse
  | MetadataR MetadataResponse
  | OffsetCommitR OffsetCommitResponse
  | OffsetFetchR OffsetFetchResponse
  | ProduceR ProduceResponse
  | SyncGroupR SyncGroupResponse

section \<open>The supported interfaces\<close>

definition kSupportedApis :: "ApiVersionEntry list" where
  "kSupportedApis =
     [\<lparr>ave_api_key = 0, ave_min_version = 0, ave_max_version = 11\<rparr>,
      \<lparr>ave_api_key = 1, ave_min_version = 0, ave_max_version = 16\<rparr>,
      \<lparr>ave_api_key = 2, ave_min_version = 0, ave_max_version = 8\<rparr>,
      \<lparr>ave_api_key = 3, ave_min_version = 0, ave_max_version = 12\<rparr>,
      \<lparr>ave_api_key = 8, ave_min_version = 0, ave_max_version = 8\<rparr>,
      \<lparr>ave_api_key = 9, ave_min_version = 0, ave_max_version = 8\<rparr>,
      \<lparr>ave_api_key = 10, ave_min_version = 0, ave_max_version = 4\<rparr>,
      \<lparr>ave_api_key = 11, ave_min_version = 0, ave_max_version = 9\<rparr>,
      \<lparr>ave_api_key = 12, ave_min_version = 0, ave_max_version = 4\<rparr>,
      \<lparr>ave_api_key = 13, ave_min_version = 0, ave_max_version = 5\<rparr>,
      \<lparr>ave_api_key = 14, ave_min_version = 0, ave_max_version = 5\<rparr>,
      \<lparr>ave_api_key = 18, ave_min_version = 0, ave_max_version = 4\<rparr>,
      \<lparr>ave_api_key = 75, ave_min_version = 0, ave_max_version = 0\<rparr>]"

text \<open>The header a request carries, and the correlation id a response answers with.\<close>

fun request_header :: "Request \<Rightarrow> RequestHeader" where
  "request_header (ApiVersions r) = av_header r"
| "request_header (DescribeTopicPartitions r) = dtp_header r"
| "request_header (Fetch r) = fetch_header r"
| "request_header (FindCoordinator r) = fc_header r"
| "request_header (Heartbeat r) = hb_header r"
| "request_header (JoinGroup r) = jg_header r"
| "request_header (LeaveGroup r) = lg_header r"
| "request_header (ListOffsets r) = lo_header r"
| "request_header (Metadata r) = md_header r"
| "request_header (OffsetCommit r) = oc_header r"
| "request_header (OffsetFetch r) = of_header r"
| "request_header (Produce r) = produce_header r"
| "request_header (SyncGroup r) = sg_header r"

fun response_correlation_id :: "Response \<Rightarrow> int32_t" where
  "response_correlation_id (ApiVersionsR r) = avr_correlation_id r"
| "response_correlation_id (DescribeTopicPartitionsR r) = dtr_correlation_id r"
| "response_correlation_id (FetchR r) = fr_correlation_id r"
| "response_correlation_id (FindCoordinatorR r) = fcr_correlation_id r"
| "response_correlation_id (HeartbeatR r) = hbr_correlation_id r"
| "response_correlation_id (JoinGroupR r) = jgr_correlation_id r"
| "response_correlation_id (LeaveGroupR r) = lgr_correlation_id r"
| "response_correlation_id (ListOffsetsR r) = lor_correlation_id r"
| "response_correlation_id (MetadataR r) = mr_correlation_id r"
| "response_correlation_id (OffsetCommitR r) = ocr_correlation_id r"
| "response_correlation_id (OffsetFetchR r) = ofr_correlation_id r"
| "response_correlation_id (ProduceR r) = pr_correlation_id r"
| "response_correlation_id (SyncGroupR r) = sgr_correlation_id r"

end
