(* ===== verification/Text_Format.thy ===== *)
theory Text_Format
  imports Prelude
begin

text \<open>
  The decimal formatting and parsing of integers that the code uses: \<open>std::to_string\<close>,
  \<open>std::format\<close> with \<open>{:020d}\<close>, and \<open>std::stoll\<close>.
\<close>

section \<open>Digits\<close>

definition digit_char :: "nat \<Rightarrow> char" where
  "digit_char d = char_of (48 + d)"

fun digits :: "nat \<Rightarrow> string" where
  "digits n = (if n < 10 then [digit_char n] else digits (n div 10) @ [digit_char (n mod 10)])"

declare digits.simps [simp del]

text \<open>\<open>std::to_string\<close> of a 32-bit integer.\<close>

definition to_string :: "int32_t \<Rightarrow> string" where
  "to_string w = (if w <s 0 then ''-'' @ digits (nat (- sint w)) else digits (nat (sint w)))"

text \<open>The decimal digits of a number determine it.\<close>

definition digits_value :: "string \<Rightarrow> nat" where
  "digits_value s = foldl (\<lambda>v c. v * 10 + (of_char c - 48)) 0 s"

lemma of_digit_char: "d < 10 \<Longrightarrow> (of_char (digit_char d) :: nat) = 48 + d"
  by (simp add: digit_char_def)

lemma digits_value_digits [simp]: "digits_value (digits n) = n"
proof (induction n rule: digits.induct)
  case (1 n)
  show ?case
  proof (cases "n < 10")
    case True
    then show ?thesis by (subst digits.simps) (simp add: digits_value_def of_digit_char)
  next
    case False
    with 1 have "digits_value (digits (n div 10)) = n div 10" by simp
    with False show ?thesis
      by (subst digits.simps) (simp add: digits_value_def of_digit_char)
  qed
qed

lemma digits_inj: "digits m = digits n \<Longrightarrow> m = n"
  by (metis digits_value_digits)

lemma to_string_inj_nonneg:
  "0 \<le> sint v \<Longrightarrow> 0 \<le> sint w \<Longrightarrow> to_string v = to_string w \<Longrightarrow> v = w"
  by (rule signed_word_eqI [where ?'a = int])
    (auto simp: to_string_def word_sless_alt dest!: digits_inj)

lemma digits_not_Nil [simp]: "digits n \<noteq> []"
  by (subst digits.simps) simp

definition is_digit :: "char \<Rightarrow> bool" where
  "is_digit c \<longleftrightarrow> 48 \<le> (of_char c :: nat) \<and> (of_char c :: nat) \<le> 57"

lemma is_digit_digit_char: "d < 10 \<Longrightarrow> is_digit (digit_char d)"
  by (simp add: is_digit_def of_digit_char)

lemma digits_are_digits: "list_all is_digit (digits n)"
proof (induction n rule: digits.induct)
  case (1 n)
  then show ?case by (subst digits.simps) (simp add: is_digit_digit_char)
qed

lemma length_digits: "n < 10 ^ Suc k \<Longrightarrow> length (digits n) \<le> Suc k"
proof (induction k arbitrary: n)
  case 0
  then show ?case by (subst digits.simps) simp
next
  case (Suc k)
  have "n div 10 < 10 ^ Suc k" using Suc.prems by (simp add: less_mult_imp_div_less mult.commute)
  then show ?case using Suc.IH [of "n div 10"] by (subst digits.simps) simp
qed

section \<open>Fixed-width numbers\<close>

definition zero_pad :: "nat \<Rightarrow> string \<Rightarrow> string" where
  "zero_pad w s = replicate (w - length s) (CHR ''0'') @ s"

text \<open>\<open>{:020d}\<close>: the sign counts towards the width.\<close>

definition format_020d :: "int64_t \<Rightarrow> string" where
  "format_020d w =
     (if w <s 0 then ''-'' @ zero_pad 19 (digits (nat (- sint w)))
      else zero_pad 20 (digits (nat (sint w))))"

lemma zero_pad_digits: "list_all is_digit s \<Longrightarrow> list_all is_digit (zero_pad w s)"
  by (auto simp: zero_pad_def list_all_iff is_digit_def)

lemma digits_value_zero_pad: "digits_value (zero_pad w s) = digits_value s"
proof -
  have "foldl (\<lambda>v c. v * 10 + (of_char c - 48)) 0 (replicate k (CHR ''0'')) = (0 :: nat)" for k
    by (induction k) simp_all
  then show ?thesis by (simp add: digits_value_def zero_pad_def)
qed

lemma length_zero_pad: "length s \<le> w \<Longrightarrow> length (zero_pad w s) = w"
  by (simp add: zero_pad_def)

lemma length_format_020d [simp]: "length (format_020d w) = 20"
proof -
  have "sint w < 2 ^ 63" "- (2 ^ 63) \<le> sint w"
    using sint_lt [of w] sint_ge [of w] by simp_all
  then have "nat (sint w) < 10 ^ Suc 18" "nat (- sint w) < 10 ^ Suc 18"
    by (simp_all add: nat_less_iff)
  then show ?thesis
    using length_digits [of "nat (sint w)" 18] length_digits [of "nat (- sint w)" 18]
    by (simp add: format_020d_def length_zero_pad)
qed

section \<open>Parsing\<close>

text \<open>
  \<open>std::stoll\<close>: leading white space, an optional sign, then digits; what follows is ignored. No
  digit at all throws \<open>std::invalid_argument\<close>, a value outside 64 bits \<open>std::out_of_range\<close>.
\<close>

definition is_space :: "char \<Rightarrow> bool" where
  "is_space c \<longleftrightarrow> (of_char c :: nat) = 32 \<or> (9 \<le> (of_char c :: nat) \<and> (of_char c :: nat) \<le> 13)"

definition stoll_digits :: "int \<Rightarrow> string \<Rightarrow> int64_t expected" where
  "stoll_digits sign s =
     (let ds = takeWhile is_digit s; v = sign * int (digits_value ds) in
      if ds = [] then Inl invalid_argument
      else if v < - (2 ^ 63) \<or> 2 ^ 63 \<le> v then Inl out_of_range
      else Inr (word_of_int v))"

definition stoll :: "string \<Rightarrow> int64_t expected" where
  "stoll s =
     (case dropWhile is_space s of
        [] \<Rightarrow> Inl invalid_argument
      | c # cs \<Rightarrow>
          if c = CHR ''-'' then stoll_digits (- 1) cs
          else if c = CHR ''+'' then stoll_digits 1 cs
          else stoll_digits 1 (c # cs))"

lemma stoll_digits_all:
  assumes "list_all is_digit s" and "s \<noteq> []"
  shows "stoll_digits sign s =
    (let v = sign * int (digits_value s) in
     if v < - (2 ^ 63) \<or> 2 ^ 63 \<le> v then Inl out_of_range else Inr (word_of_int v))"
proof -
  have "takeWhile is_digit s = s" using assms(1) by (simp add: list_all_iff)
  then show ?thesis using assms(2) by (simp only: stoll_digits_def Let_def if_False)
qed

text \<open>What \<open>{:020d}\<close> prints, \<open>std::stoll\<close> reads back.\<close>

lemma stoll_format_020d: "stoll (format_020d w) = Inr w"
proof -
  have range: "sint w < 2 ^ 63" "- (2 ^ 63) \<le> sint w"
    using sint_lt [of w] sint_ge [of w] by simp_all
  have pad: "list_all is_digit (zero_pad k (digits n))" "zero_pad k (digits n) \<noteq> []" for k n
    by (simp_all add: zero_pad_digits digits_are_digits) (simp add: zero_pad_def)
  show ?thesis
  proof (cases "w <s 0")
    case True
    then have "int (nat (- sint w)) = - sint w" by (simp add: word_sless_alt)
    then have "stoll_digits (- 1) (zero_pad 19 (digits (nat (- sint w)))) = Inr w"
      using range by (simp add: stoll_digits_all [OF pad] digits_value_zero_pad Let_def)
    with True show ?thesis by (simp add: stoll_def format_020d_def is_space_def)
  next
    case False
    then have "int (nat (sint w)) = sint w" by (simp add: word_sless_alt)
    then have d: "stoll_digits 1 (zero_pad 20 (digits (nat (sint w)))) = Inr w"
      using range by (simp add: stoll_digits_all [OF pad] digits_value_zero_pad Let_def)
    obtain c cs where c: "zero_pad 20 (digits (nat (sint w))) = c # cs" "is_digit c"
      using pad [of 20 "nat (sint w)"] by (cases "zero_pad 20 (digits (nat (sint w)))") simp_all
    then have "\<not> is_space c" "c \<noteq> CHR ''-''" "c \<noteq> CHR ''+''"
      by (auto simp: is_digit_def is_space_def)
    with False d c show ?thesis by (simp add: stoll_def format_020d_def)
  qed
qed

end
