(* ===== verification/Group_Coordinator.thy ===== *)
theory Group_Coordinator
  imports Interfaces Protocol Text_Format
begin

text \<open>
  The consumer-group coordinator of \<open>src/src/broker/group_coordinator.hpp\<close> and \<open>.cpp\<close>: the
  group state machine, its members and the committed offsets. Every handler holds the mutex from
  its first statement to its return, so a handler is one atomic function from the coordinator to
  the coordinator and a response.

  The clock \<open>std::chrono::steady_clock\<close> is a parameter: a handler takes the time it reads, in
  nanoseconds. \<open>handle_sync_group\<close> may read the clock several times and takes a function from
  the index of the assignment to the time. Generations and member numbers are 32-bit words; their
  increments wrap.
\<close>

section \<open>State\<close>

datatype GroupState = Empty | AwaitingSync | Stable | Dead

record MemberInfo =
  mi_member_id :: string
  mi_protocol_metadata :: bytes
  mi_assignment :: bytes
  mi_last_heartbeat :: int

record GroupMetadata =
  gm_state :: GroupState
  gm_generation :: int32_t
  gm_session_timeout_ms :: int32_t
  gm_members :: "MemberInfo list"
  gm_committed_offsets :: "string \<rightharpoonup> (int32_t \<rightharpoonup> int64_t)"

record GroupCoordinator =
  gc_groups :: "string \<rightharpoonup> GroupMetadata"
  gc_next_member_id :: int32_t

definition new_group :: GroupMetadata where
  "new_group = \<lparr>gm_state = Empty, gm_generation = 0, gm_session_timeout_ms = 30000,
                gm_members = [], gm_committed_offsets = (\<lambda>_. None)\<rparr>"

definition new_coordinator :: GroupCoordinator where
  "new_coordinator = \<lparr>gc_groups = (\<lambda>_. None), gc_next_member_id = 0\<rparr>"

text \<open>\<open>groups_[id]\<close> creates the group when it is missing.\<close>

definition group_at :: "GroupCoordinator \<Rightarrow> string \<Rightarrow> GroupMetadata" where
  "group_at c gid = (case gc_groups c gid of Some g \<Rightarrow> g | None \<Rightarrow> new_group)"

definition put_group :: "string \<Rightarrow> GroupMetadata \<Rightarrow> GroupCoordinator \<Rightarrow> GroupCoordinator" where
  "put_group gid g c = c\<lparr>gc_groups := (gc_groups c)(gid \<mapsto> g)\<rparr>"

section \<open>The handlers\<close>

definition handle_find_coordinator :: "FindCoordinatorRequest \<Rightarrow> FindCoordinatorResponse" where
  "handle_find_coordinator r =
     \<lparr>fcr_correlation_id = correlation_id (fc_header r), fcr_throttle_time_ms = 0,
      fcr_error_code = 0, fcr_error_message = [], fcr_node_id = 1, fcr_host = ''localhost'',
      fcr_port = 9092\<rparr>"

definition is_member :: "string \<Rightarrow> MemberInfo \<Rightarrow> bool" where
  "is_member mid m \<longleftrightarrow> mi_member_id m = mid"

text \<open>A heartbeat updates the first member with the given id.\<close>

definition touch :: "int \<Rightarrow> string \<Rightarrow> MemberInfo list \<Rightarrow> MemberInfo list" where
  "touch now mid ms = update_first (is_member mid) (\<lambda>m. m\<lparr>mi_last_heartbeat := now\<rparr>) ms"

definition join_members ::
    "int \<Rightarrow> string \<Rightarrow> JoinGroupProtocol list \<Rightarrow> MemberInfo list \<Rightarrow> MemberInfo list" where
  "join_members now member protocols ms =
     (if list_ex (is_member member) ms then touch now member ms
      else ms @ [\<lparr>mi_member_id = member,
                   mi_protocol_metadata =
                     (case protocols of [] \<Rightarrow> [] | p # _ \<Rightarrow> jgp_metadata p),
                   mi_assignment = [], mi_last_heartbeat = now\<rparr>])"

definition join_generation :: "GroupMetadata \<Rightarrow> int32_t" where
  "join_generation g =
     (if gm_generation g = 0 then 1
      else if gm_state g = Stable then gm_generation g + 1 else gm_generation g)"

definition handle_join_group ::
    "int \<Rightarrow> JoinGroupRequest \<Rightarrow> GroupCoordinator \<Rightarrow> GroupCoordinator \<times> JoinGroupResponse" where
  "handle_join_group now r c =
     (let c1 = (if jg_member_id r = [] then c\<lparr>gc_next_member_id := gc_next_member_id c + 1\<rparr> else c);
          member = (if jg_member_id r = [] then ''member-'' @ to_string (gc_next_member_id c1)
                    else jg_member_id r);
          g = group_at c1 (jg_group_id r);
          ms = join_members now member (jg_protocols r) (gm_members g);
          g' = g\<lparr>gm_members := ms, gm_session_timeout_ms := jg_session_timeout_ms r,
                 gm_generation := join_generation g, gm_state := AwaitingSync\<rparr>
      in (put_group (jg_group_id r) g' c1,
          \<lparr>jgr_correlation_id = correlation_id (jg_header r), jgr_throttle_time_ms = 0,
           jgr_error_code = 0, jgr_generation_id = gm_generation g',
           jgr_protocol_name = (case jg_protocols r of [] \<Rightarrow> [] | p # _ \<Rightarrow> jgp_name p),
           jgr_leader = mi_member_id (ms ! 0), jgr_member_id = member,
           jgr_members = map (\<lambda>m. \<lparr>jgm_member_id = mi_member_id m,
                                    jgm_metadata = mi_protocol_metadata m\<rparr>) ms\<rparr>))"

text \<open>One round of the loop over the assignments of a SyncGroup request.\<close>

definition assign_member :: "int \<Rightarrow> string \<Rightarrow> bytes \<Rightarrow> MemberInfo list \<Rightarrow> MemberInfo list" where
  "assign_member now mid asg ms =
     (if list_ex (is_member mid) ms
      then update_first (is_member mid) (\<lambda>m. m\<lparr>mi_assignment := asg\<rparr>) ms
      else ms @ [\<lparr>mi_member_id = mid, mi_protocol_metadata = [], mi_assignment = asg,
                   mi_last_heartbeat = now\<rparr>])"

fun assign_members ::
    "(nat \<Rightarrow> int) \<Rightarrow> nat \<Rightarrow> SyncGroupAssignment list \<Rightarrow> MemberInfo list \<Rightarrow> MemberInfo list" where
  "assign_members clock k [] ms = ms"
| "assign_members clock k (a # as) ms =
     assign_members clock (Suc k) as (assign_member (clock k) (sga_member_id a) (sga_assignment a) ms)"

text \<open>The assignment of the first member with the given id.\<close>

definition assignment_of :: "MemberInfo list \<Rightarrow> string \<Rightarrow> bytes" where
  "assignment_of ms mid =
     (case List.find (is_member mid) ms of Some m \<Rightarrow> mi_assignment m | None \<Rightarrow> [])"

definition sync_response :: "SyncGroupRequest \<Rightarrow> int16_t \<Rightarrow> bytes \<Rightarrow> SyncGroupResponse" where
  "sync_response r err asg =
     \<lparr>sgr_correlation_id = correlation_id (sg_header r), sgr_throttle_time_ms = 0,
      sgr_error_code = err, sgr_protocol_type = [], sgr_protocol_name = [], sgr_assignment = asg\<rparr>"

definition handle_sync_group ::
    "(nat \<Rightarrow> int) \<Rightarrow> SyncGroupRequest \<Rightarrow> GroupCoordinator \<Rightarrow> GroupCoordinator \<times> SyncGroupResponse" where
  "handle_sync_group clock r c =
     (case gc_groups c (sg_group_id r) of
        None \<Rightarrow> (c, sync_response r 82 [])
      | Some g \<Rightarrow>
          if gm_generation g \<noteq> sg_generation_id r then (c, sync_response r 82 [])
          else if sg_assignments r \<noteq> [] then
            (let ms = assign_members clock 0 (sg_assignments r) (gm_members g);
                 g' = g\<lparr>gm_members := ms, gm_state := Stable\<rparr>
             in (put_group (sg_group_id r) g' c, sync_response r 0 (assignment_of ms (sg_member_id r))))
          else (c, sync_response r 0 (assignment_of (gm_members g) (sg_member_id r))))"

text \<open>A member is dropped when its last heartbeat is further away than the session timeout.\<close>

definition expired :: "int \<Rightarrow> int32_t \<Rightarrow> MemberInfo \<Rightarrow> bool" where
  "expired now timeout_ms m \<longleftrightarrow> now - mi_last_heartbeat m > sint timeout_ms * 1000000"

definition heartbeat_group :: "int \<Rightarrow> string \<Rightarrow> GroupMetadata \<Rightarrow> GroupMetadata" where
  "heartbeat_group now mid g =
     (let ms = touch now mid (gm_members g);
          ms' = filter (\<lambda>m. \<not> expired now (gm_session_timeout_ms g) m) ms;
          g1 = g\<lparr>gm_members := ms'\<rparr>
      in if ms' = [] then g1\<lparr>gm_state := Empty\<rparr>
         else if length ms' < length ms
         then g1\<lparr>gm_state := AwaitingSync, gm_generation := gm_generation g + 1\<rparr>
         else g1)"

definition handle_heartbeat ::
    "int \<Rightarrow> HeartbeatRequest \<Rightarrow> GroupCoordinator \<Rightarrow> GroupCoordinator \<times> HeartbeatResponse" where
  "handle_heartbeat now r c =
     (let resp = (\<lambda>err. \<lparr>hbr_correlation_id = correlation_id (hb_header r),
                          hbr_throttle_time_ms = 0, hbr_error_code = err\<rparr>)
      in case gc_groups c (hb_group_id r) of
           None \<Rightarrow> (c, resp 82)
         | Some g \<Rightarrow>
             if gm_generation g \<noteq> hb_generation_id r then (c, resp 82)
             else if gm_state g \<noteq> Stable then (c, resp 82)
             else (put_group (hb_group_id r) (heartbeat_group now (hb_member_id r) g) c, resp 0))"

definition leave_group :: "string \<Rightarrow> GroupMetadata \<Rightarrow> int16_t \<times> GroupMetadata" where
  "leave_group mid g =
     (let ms = filter (\<lambda>m. \<not> is_member mid m) (gm_members g);
          g1 = g\<lparr>gm_members := ms\<rparr>
      in if length ms < length (gm_members g)
         then (0, if ms = [] then g1\<lparr>gm_state := Empty\<rparr>
                  else g1\<lparr>gm_state := AwaitingSync, gm_generation := gm_generation g + 1\<rparr>)
         else (25, g1))"

definition handle_leave_group ::
    "LeaveGroupRequest \<Rightarrow> GroupCoordinator \<Rightarrow> GroupCoordinator \<times> LeaveGroupResponse" where
  "handle_leave_group r c =
     (let resp = (\<lambda>err. \<lparr>lgr_correlation_id = correlation_id (lg_header r),
                          lgr_throttle_time_ms = 0, lgr_error_code = err\<rparr>)
      in case gc_groups c (lg_group_id r) of
           None \<Rightarrow> (c, resp 25)
         | Some g \<Rightarrow> (let (err, g') = leave_group (lg_member_id r) g
                      in (put_group (lg_group_id r) g' c, resp err)))"

text \<open>\<open>committed_offsets[topic][partition] = offset\<close> creates the inner table when it is missing.\<close>

type_synonym offset_table = "string \<rightharpoonup> (int32_t \<rightharpoonup> int64_t)"

definition commit_offset :: "string \<Rightarrow> int32_t \<Rightarrow> int64_t \<Rightarrow> offset_table \<Rightarrow> offset_table" where
  "commit_offset topic part off t =
     t(topic \<mapsto> (case t topic of Some ps \<Rightarrow> ps | None \<Rightarrow> (\<lambda>_. None))(part \<mapsto> off))"

definition committed_offset :: "offset_table \<Rightarrow> string \<Rightarrow> int32_t \<Rightarrow> int64_t" where
  "committed_offset t topic part =
     (case t topic of
        None \<Rightarrow> - 1
      | Some ps \<Rightarrow> (case ps part of None \<Rightarrow> - 1 | Some off \<Rightarrow> off))"

definition commit_topic :: "OffsetCommitTopicRequest \<Rightarrow> offset_table \<Rightarrow> offset_table" where
  "commit_topic tr t =
     fold (\<lambda>p. commit_offset (oct_topic_name tr) (ocp_partition_index p) (ocp_committed_offset p))
       (oct_partitions tr) t"

definition handle_offset_commit ::
    "OffsetCommitRequest \<Rightarrow> GroupCoordinator \<Rightarrow> GroupCoordinator \<times> OffsetCommitResponse" where
  "handle_offset_commit r c =
     (let g = group_at c (oc_group_id r);
          g' = g\<lparr>gm_committed_offsets := fold commit_topic (oc_topics r) (gm_committed_offsets g)\<rparr>
      in (put_group (oc_group_id r) g' c,
          \<lparr>ocr_correlation_id = correlation_id (oc_header r), ocr_throttle_time_ms = 0,
           ocr_topics = map (\<lambda>tr.
             \<lparr>octr_topic_name = oct_topic_name tr,
              octr_partitions = map (\<lambda>p.
                \<lparr>ocpr_partition_index = ocp_partition_index p, ocpr_error_code = 0,
                 ocpr_committed_leader_epoch = - 1, ocpr_committed_metadata = []\<rparr>)
                (oct_partitions tr)\<rparr>) (oc_topics r)\<rparr>))"

definition handle_offset_fetch ::
    "OffsetFetchRequest \<Rightarrow> GroupCoordinator \<Rightarrow> GroupCoordinator \<times> OffsetFetchResponse" where
  "handle_offset_fetch r c =
     (let g = group_at c (of_group_id r)
      in (put_group (of_group_id r) g c,
          \<lparr>ofr_correlation_id = correlation_id (of_header r), ofr_throttle_time_ms = 0,
           ofr_topics = map (\<lambda>tr.
             \<lparr>oftr_topic_name = oft_topic_name tr,
              oftr_partitions = map (\<lambda>part.
                \<lparr>ofpr_partition_index = part,
                 ofpr_committed_offset =
                   committed_offset (gm_committed_offsets g) (oft_topic_name tr) part,
                 ofpr_committed_leader_epoch = - 1, ofpr_committed_metadata = [],
                 ofpr_error_code = 0\<rparr>)
                (oft_partition_indexes tr)\<rparr>) (of_topics r)\<rparr>))"

section \<open>The tables of the coordinator\<close>

text \<open>
  Three tables of the coordinator obey the contract of a keyed store: the committed offsets of a
  group, the assignments of its members, and the groups themselves.
\<close>

definition commit_at :: "unit \<Rightarrow> string \<times> int32_t \<Rightarrow> int64_t \<Rightarrow> offset_table \<Rightarrow> offset_table" where
  "commit_at u k off t = commit_offset (fst k) (snd k) off t"

definition offset_at :: "offset_table \<Rightarrow> string \<times> int32_t \<Rightarrow> int64_t" where
  "offset_at t k = committed_offset t (fst k) (snd k)"

interpretation offsets: keyed_store commit_at offset_at
  by unfold_locales
    (auto simp: commit_at_def offset_at_def commit_offset_def committed_offset_def prod_eq_iff
      split: option.splits)

interpretation groups: keyed_store "\<lambda>u :: unit. put_group" group_at
  by unfold_locales (simp add: put_group_def group_at_def)

lemma find_update_first:
  "List.find (is_member k) (update_first (is_member mid) (\<lambda>m. m\<lparr>mi_assignment := v\<rparr>) ms) =
     map_option (\<lambda>m. if k = mid then m\<lparr>mi_assignment := v\<rparr> else m) (List.find (is_member k) ms)"
  by (induction ms) (auto simp: is_member_def option.map_ident)

lemma find_append: "List.find p (xs @ ys) = (case List.find p xs of None \<Rightarrow> List.find p ys | r \<Rightarrow> r)"
  by (induction xs) auto

lemma list_ex_find: "list_ex p xs \<longleftrightarrow> List.find p xs \<noteq> None"
  by (induction xs) auto

interpretation assignments: keyed_store assign_member assignment_of
proof unfold_locales
  fix now mid asg ms k
  show "assignment_of (assign_member now mid asg ms) k = (if k = mid then asg else assignment_of ms k)"
  proof (cases "list_ex (is_member mid) ms")
    case True
    then show ?thesis
      by (auto simp: assignment_of_def assign_member_def find_update_first list_ex_find
          split: option.splits)
  next
    case False
    then show ?thesis
      by (auto simp: assignment_of_def assign_member_def find_append list_ex_find is_member_def
          split: option.splits)
  qed
qed

lemma assign_members_put_all:
  "assign_members clock k as ms =
     assignments.put_all (map (\<lambda>(i, a). (clock i, sga_member_id a, sga_assignment a))
       (enumerate k as)) ms"
  by (induction as arbitrary: k ms) simp_all

lemma commit_offset_commit_at: "commit_offset topic part = commit_at () (topic, part)"
  by (simp add: commit_at_def fun_eq_iff)

lemma commit_topics_put_all:
  "fold commit_topic trs t =
     offsets.put_all (concat (map (\<lambda>tr. map (\<lambda>p.
       ((), (oct_topic_name tr, ocp_partition_index p), ocp_committed_offset p))
       (oct_partitions tr)) trs)) t"
proof (induction trs arbitrary: t)
  case (Cons tr trs)
  have "commit_topic tr t = offsets.put_all (map (\<lambda>p.
       ((), (oct_topic_name tr, ocp_partition_index p), ocp_committed_offset p)) (oct_partitions tr)) t"
    by (simp add: commit_topic_def offsets.put_all_def fold_map comp_def commit_offset_commit_at)
  with Cons show ?case by (simp add: offsets.put_all_def)
qed simp

section \<open>The invariant\<close>

text \<open>
  A group is \<open>Empty\<close> exactly when it has no members, no two members share an id, and the state
  \<open>Dead\<close> is never entered.
\<close>

definition group_ok :: "GroupMetadata \<Rightarrow> bool" where
  "group_ok g \<longleftrightarrow>
     (gm_state g = Empty \<longleftrightarrow> gm_members g = []) \<and> gm_state g \<noteq> Dead \<and>
     distinct (map mi_member_id (gm_members g))"

definition coordinator_ok :: "GroupCoordinator \<Rightarrow> bool" where
  "coordinator_ok c \<longleftrightarrow> (\<forall>gid g. gc_groups c gid = Some g \<longrightarrow> group_ok g)"

lemma group_ok_new [simp]: "group_ok new_group"
  by (simp add: group_ok_def new_group_def)

lemma coordinator_ok_new [simp]: "coordinator_ok new_coordinator"
  by (simp add: coordinator_ok_def new_coordinator_def)

lemma coordinator_ok_put [intro]: "coordinator_ok c \<Longrightarrow> group_ok g \<Longrightarrow> coordinator_ok (put_group gid g c)"
  by (auto simp: coordinator_ok_def put_group_def)

lemma coordinator_okD: "coordinator_ok c \<Longrightarrow> gc_groups c gid = Some g \<Longrightarrow> group_ok g"
  by (auto simp: coordinator_ok_def)

lemma coordinator_ok_at: "coordinator_ok c \<Longrightarrow> group_ok (group_at c gid)"
  by (auto simp: group_at_def dest: coordinator_okD split: option.splits)

lemma coordinator_ok_next [simp]: "coordinator_ok (c\<lparr>gc_next_member_id := n\<rparr>) = coordinator_ok c"
  by (simp add: coordinator_ok_def)

lemma gm_members_at_next [simp]: "group_at (c\<lparr>gc_next_member_id := n\<rparr>) gid = group_at c gid"
  by (simp add: group_at_def)

text \<open>What the list operations do to the ids of the members.\<close>

lemma ids_touch [simp]: "map mi_member_id (touch now mid ms) = map mi_member_id ms"
  by (simp add: touch_def map_update_first)

lemma touch_eq_Nil [simp]: "touch now mid ms = [] \<longleftrightarrow> ms = []"
  by (simp add: touch_def)

lemma list_ex_is_member: "list_ex (is_member mid) ms \<longleftrightarrow> mid \<in> set (map mi_member_id ms)"
  by (auto simp: list_ex_iff is_member_def)

lemma ids_join:
  "map mi_member_id (join_members now mid ps ms) =
     (if mid \<in> set (map mi_member_id ms) then map mi_member_id ms else map mi_member_id ms @ [mid])"
  unfolding join_members_def list_ex_is_member by simp

lemma ids_assign_member:
  "map mi_member_id (assign_member now mid asg ms) =
     (if mid \<in> set (map mi_member_id ms) then map mi_member_id ms else map mi_member_id ms @ [mid])"
  unfolding assign_member_def list_ex_is_member by (simp add: map_update_first)

lemma distinct_ids_join:
  "distinct (map mi_member_id ms) \<Longrightarrow> distinct (map mi_member_id (join_members now mid ps ms))"
  unfolding ids_join by simp

lemma distinct_ids_assign:
  "distinct (map mi_member_id ms) \<Longrightarrow> distinct (map mi_member_id (assign_members clock k as ms))"
proof (induction as arbitrary: k ms)
  case (Cons a as)
  have "distinct (map mi_member_id (assign_member (clock k) (sga_member_id a) (sga_assignment a) ms))"
    unfolding ids_assign_member using Cons.prems by simp
  then show ?case by (simp add: Cons.IH)
qed simp

lemma set_ids_assign:
  "set (map mi_member_id (assign_members clock k as ms)) =
     set (map mi_member_id ms) \<union> sga_member_id ` set as"
proof (induction as arbitrary: k ms)
  case (Cons a as)
  have "set (map mi_member_id (assign_member (clock k) (sga_member_id a) (sga_assignment a) ms)) =
      insert (sga_member_id a) (set (map mi_member_id ms))"
    unfolding ids_assign_member by auto
  with Cons.IH show ?case by simp
qed simp

lemma join_members_not_Nil [simp]: "join_members now mid ps ms \<noteq> []"
  by (auto simp: join_members_def)

lemma assign_members_not_Nil: "as \<noteq> [] \<Longrightarrow> assign_members clock k as ms \<noteq> []"
  using set_ids_assign [of clock k as ms] by auto

lemma distinct_ids_filter:
  "distinct (map mi_member_id ms) \<Longrightarrow> distinct (map mi_member_id (filter p ms))"
  by (rule distinct_map_filter)

section \<open>Every handler keeps the invariant\<close>

lemma join_group_ok:
  assumes "coordinator_ok c"
  shows "coordinator_ok (fst (handle_join_group now r c))"
  using coordinator_ok_at [OF assms, of "jg_group_id r"] assms
  by (auto simp: handle_join_group_def Let_def group_ok_def intro!: coordinator_ok_put distinct_ids_join)

lemma sync_group_ok:
  assumes "coordinator_ok c"
  shows "coordinator_ok (fst (handle_sync_group clock r c))"
  using assms
  by (auto simp: handle_sync_group_def Let_def group_ok_def assign_members_not_Nil
      dest: coordinator_okD intro!: coordinator_ok_put distinct_ids_assign split: option.splits)

lemma heartbeat_group_ok:
  assumes "group_ok g" and "gm_state g = Stable"
  shows "group_ok (heartbeat_group now mid g)"
  using assms by (auto simp: heartbeat_group_def Let_def group_ok_def distinct_ids_filter)

lemma heartbeat_ok:
  assumes "coordinator_ok c"
  shows "coordinator_ok (fst (handle_heartbeat now r c))"
  using assms
  by (auto simp: handle_heartbeat_def Let_def dest: coordinator_okD
      intro!: coordinator_ok_put heartbeat_group_ok split: option.splits)

lemma leave_group_ok:
  assumes "group_ok g"
  shows "group_ok (snd (leave_group mid g))"
proof (cases "length (filter (\<lambda>m. \<not> is_member mid m) (gm_members g)) < length (gm_members g)")
  case True
  with assms show ?thesis by (auto simp: leave_group_def Let_def group_ok_def distinct_ids_filter)
next
  case False
  then have "filter (\<lambda>m. \<not> is_member mid m) (gm_members g) = gm_members g"
    by (metis length_filter_less filter_id_conv)
  with assms show ?thesis by (simp add: leave_group_def Let_def)
qed

lemma handle_leave_ok:
  assumes "coordinator_ok c"
  shows "coordinator_ok (fst (handle_leave_group r c))"
proof (cases "gc_groups c (lg_group_id r)")
  case None
  with assms show ?thesis by (simp add: handle_leave_group_def)
next
  case (Some g)
  have "group_ok (snd (leave_group (lg_member_id r) g))"
    using coordinator_okD [OF assms Some] by (rule leave_group_ok)
  with assms Some show ?thesis
    by (auto simp: handle_leave_group_def Let_def split: prod.splits)
qed

lemma offset_handlers_ok:
  assumes "coordinator_ok c"
  shows "coordinator_ok (fst (handle_offset_commit rc c))"
    and "coordinator_ok (fst (handle_offset_fetch rf c))"
  using coordinator_ok_at [OF assms] assms
  by (auto simp: handle_offset_commit_def handle_offset_fetch_def Let_def group_ok_def
      intro!: coordinator_ok_put)

section \<open>The state machine\<close>

text \<open>
  A step is one request handled under the mutex, at whatever times the clock shows; a run lists
  the requests of its steps.
\<close>

inductive coord_step :: "GroupCoordinator \<Rightarrow> Request \<Rightarrow> Response \<Rightarrow> GroupCoordinator \<Rightarrow> bool" where
  step_join: "handle_join_group now jr c = (c', resp) \<Longrightarrow>
    coord_step c (JoinGroup jr) (JoinGroupR resp) c'"
| step_sync: "handle_sync_group clock sr c = (c', resp) \<Longrightarrow>
    coord_step c (SyncGroup sr) (SyncGroupR resp) c'"
| step_heartbeat: "handle_heartbeat now hr c = (c', resp) \<Longrightarrow>
    coord_step c (Heartbeat hr) (HeartbeatR resp) c'"
| step_leave: "handle_leave_group lr c = (c', resp) \<Longrightarrow>
    coord_step c (LeaveGroup lr) (LeaveGroupR resp) c'"
| step_commit: "handle_offset_commit cr c = (c', resp) \<Longrightarrow>
    coord_step c (OffsetCommit cr) (OffsetCommitR resp) c'"
| step_fetch: "handle_offset_fetch fr c = (c', resp) \<Longrightarrow>
    coord_step c (OffsetFetch fr) (OffsetFetchR resp) c'"

inductive_cases coord_stepE: "coord_step c req resp c'"

inductive coord_run :: "GroupCoordinator \<Rightarrow> Request list \<Rightarrow> GroupCoordinator \<Rightarrow> bool" where
  run_refl: "coord_run c [] c"
| run_step: "coord_run c reqs c' \<Longrightarrow> coord_step c' req resp c'' \<Longrightarrow> coord_run c (reqs @ [req]) c''"

lemma coord_step_ok: "coord_step c req resp c' \<Longrightarrow> coordinator_ok c \<Longrightarrow> coordinator_ok c'"
  by (induction rule: coord_step.induct)
    (metis fst_conv join_group_ok sync_group_ok heartbeat_ok handle_leave_ok offset_handlers_ok)+

lemma coord_run_ok: "coord_run c reqs c' \<Longrightarrow> coordinator_ok c \<Longrightarrow> coordinator_ok c'"
  by (induction rule: coord_run.induct) (auto dest: coord_step_ok)

text \<open>How one step changes one group: the group of the request changes as its handler says, every
  other group stays as it is.\<close>

lemma gc_groups_put: "gc_groups (put_group gid g c) gid' = (if gid' = gid then Some g else gc_groups c gid')"
  by (simp add: put_group_def)

lemma group_at_Some: "gc_groups c gid = Some g \<Longrightarrow> group_at c gid = g"
  by (simp add: group_at_def)

lemma leave_group_generation:
  "gm_generation (snd (leave_group mid g)) \<in> {gm_generation g, gm_generation g + 1}"
  by (simp add: leave_group_def Let_def)

lemma heartbeat_group_generation:
  "gm_generation (heartbeat_group now mid g) \<in> {gm_generation g, gm_generation g + 1}"
  by (simp add: heartbeat_group_def Let_def)

lemma handle_leave_groups:
  "gc_groups (fst (handle_leave_group r c)) gid =
     (if gid = lg_group_id r then map_option (\<lambda>g. snd (leave_group (lg_member_id r) g)) (gc_groups c gid)
      else gc_groups c gid)"
  by (auto simp: handle_leave_group_def Let_def gc_groups_put split: option.splits prod.splits)

lemma coord_step_generation:
  assumes "coord_step c req resp c'" and "gc_groups c gid = Some g"
  shows "\<exists>g'. gc_groups c' gid = Some g' \<and>
    gm_generation g' \<in> {gm_generation g, gm_generation g + 1}"
  using assms
proof (induction rule: coord_step.induct)
  case (step_join now jr c c' resp)
  then show ?case
    by (auto simp: handle_join_group_def Let_def gc_groups_put group_at_Some join_generation_def
        split: if_splits)
next
  case (step_sync clock sr c c' resp)
  then show ?case
    by (auto simp: handle_sync_group_def Let_def gc_groups_put split: option.splits if_splits)
next
  case (step_heartbeat now hr c c' resp)
  with heartbeat_group_generation [of now "hb_member_id hr" g] show ?case
    by (auto simp: handle_heartbeat_def Let_def gc_groups_put split: option.splits if_splits)
next
  case (step_leave lr c c' resp)
  have "c' = fst (handle_leave_group lr c)" by (simp add: step_leave.hyps)
  with leave_group_generation [of "lg_member_id lr" g] step_leave.prems show ?case
    by (auto simp: handle_leave_groups)
qed (auto simp: handle_offset_commit_def handle_offset_fetch_def Let_def gc_groups_put group_at_Some)

lemma sint_plus_1:
  fixes w :: int32_t
  assumes "0 \<le> sint w" and "sint w < 2 ^ 31 - 1"
  shows "sint (w + 1) = sint w + 1"
  using assms by (simp add: signed_take_bit_int_eq_self sint_word_ariths)

lemma coord_run_generation:
  assumes "coord_run c reqs c'" and "gc_groups c gid = Some g"
    and "0 \<le> sint (gm_generation g)" and "sint (gm_generation g) + int (length reqs) < 2 ^ 31"
  shows "\<exists>g'. gc_groups c' gid = Some g' \<and> sint (gm_generation g) \<le> sint (gm_generation g') \<and>
    sint (gm_generation g') \<le> sint (gm_generation g) + int (length reqs)"
  using assms
proof (induction rule: coord_run.induct)
  case (run_step c reqs c' req resp c'')
  then obtain g' where g': "gc_groups c' gid = Some g'" "sint (gm_generation g) \<le> sint (gm_generation g')"
    "sint (gm_generation g') \<le> sint (gm_generation g) + int (length reqs)"
    by auto
  obtain g'' where "gc_groups c'' gid = Some g''"
    "gm_generation g'' \<in> {gm_generation g', gm_generation g' + 1}"
    using coord_step_generation [OF run_step.hyps(2) g'(1)] by auto
  with g' run_step.prems show ?case by (auto simp: sint_plus_1)
qed simp

section \<open>Membership and generations\<close>

text \<open>
  Once a group is stable, a step other than a SyncGroup either keeps its members, its generation
  and its state, or starts a new generation, or empties the group.
\<close>

lemma leave_group_cases:
  fixes g :: GroupMetadata and mid :: string
  assumes "group_ok g" and "gm_state g = Stable"
  defines "g' \<equiv> snd (leave_group mid g)"
  shows "(g' = g) \<or> (gm_state g' = Empty \<and> gm_members g' = []) \<or>
    (gm_state g' = AwaitingSync \<and> gm_generation g' = gm_generation g + 1)"
proof (cases "length (filter (\<lambda>m. \<not> is_member mid m) (gm_members g)) < length (gm_members g)")
  case True
  then show ?thesis by (auto simp: g'_def leave_group_def Let_def)
next
  case False
  then have "filter (\<lambda>m. \<not> is_member mid m) (gm_members g) = gm_members g"
    by (metis length_filter_less filter_id_conv)
  then show ?thesis by (simp add: g'_def leave_group_def Let_def)
qed

lemma heartbeat_group_cases:
  fixes g :: GroupMetadata and now :: int and mid :: string
  assumes "gm_state g = Stable"
  defines "g' \<equiv> heartbeat_group now mid g"
  shows "(gm_state g' = Stable \<and> gm_generation g' = gm_generation g \<and>
      gm_members g' = touch now mid (gm_members g)) \<or>
    (gm_state g' = Empty \<and> gm_members g' = []) \<or>
    (gm_state g' = AwaitingSync \<and> gm_generation g' = gm_generation g + 1)"
proof -
  let ?ms = "touch now mid (gm_members g)"
  let ?ms' = "filter (\<lambda>m. \<not> expired now (gm_session_timeout_ms g) m) ?ms"
  have "?ms' = ?ms" if "\<not> length ?ms' < length ?ms"
    using that by (metis length_filter_less filter_id_conv)
  with assms(1) show ?thesis by (auto simp: g'_def heartbeat_group_def Let_def)
qed

lemma coord_step_stable:
  assumes "coord_step c req resp c'" and "coordinator_ok c" and "gc_groups c gid = Some g"
    and "gm_state g = Stable" and "\<nexists>r. req = SyncGroup r"
  shows "\<exists>g'. gc_groups c' gid = Some g' \<and>
    ((gm_state g' = Stable \<and> gm_generation g' = gm_generation g \<and>
        map mi_member_id (gm_members g') = map mi_member_id (gm_members g)) \<or>
     (gm_state g' = Empty \<and> gm_members g' = []) \<or>
     (gm_state g' = AwaitingSync \<and> gm_generation g' = gm_generation g + 1))"
  using assms
proof (induction rule: coord_step.induct)
  case (step_join now jr c c' resp)
  then show ?case
    by (auto simp: handle_join_group_def Let_def gc_groups_put group_at_Some join_generation_def
        split: if_splits)
next
  case (step_heartbeat now hr c c' resp)
  with heartbeat_group_cases [of g now "hb_member_id hr"] show ?case
    by (auto simp: handle_heartbeat_def Let_def gc_groups_put split: option.splits if_splits)
next
  case (step_leave lr c c' resp)
  have "c' = fst (handle_leave_group lr c)" by (simp add: step_leave.hyps)
  moreover have "group_ok g" using step_leave.prems by (auto dest: coordinator_okD)
  ultimately show ?case
    using leave_group_cases [of g "lg_member_id lr"] step_leave.prems
    by (auto simp: handle_leave_groups)
qed (auto simp: handle_offset_commit_def handle_offset_fetch_def Let_def gc_groups_put group_at_Some)

text \<open>A request with another generation is refused and changes nothing.\<close>

lemma heartbeat_fenced:
  assumes "gc_groups c (hb_group_id r) = Some g" and "gm_generation g \<noteq> hb_generation_id r"
  shows "fst (handle_heartbeat now r c) = c" and "hbr_error_code (snd (handle_heartbeat now r c)) = 82"
  using assms by (simp_all add: handle_heartbeat_def)

lemma sync_fenced:
  assumes "gc_groups c (sg_group_id r) = Some g" and "gm_generation g \<noteq> sg_generation_id r"
  shows "fst (handle_sync_group clock r c) = c" and "sgr_error_code (snd (handle_sync_group clock r c)) = 82"
  using assms by (simp_all add: handle_sync_group_def sync_response_def)

text \<open>A heartbeat that is accepted leaves exactly the members that are within the session timeout.\<close>

lemma heartbeat_members:
  "gm_members (heartbeat_group now mid g) =
     filter (\<lambda>m. \<not> expired now (gm_session_timeout_ms g) m) (touch now mid (gm_members g))"
  by (simp add: heartbeat_group_def Let_def)

lemma touch_self:
  "m \<in> set (touch now mid ms) \<Longrightarrow> distinct (map mi_member_id ms) \<Longrightarrow> mi_member_id m = mid \<Longrightarrow>
   mi_last_heartbeat m = now"
  unfolding touch_def
proof (induction ms)
  case (Cons x xs)
  show ?case
  proof (cases "is_member mid x")
    case True
    then have "m = x\<lparr>mi_last_heartbeat := now\<rparr> \<or> m \<in> set xs" using Cons.prems(1) by simp
    moreover have "m \<notin> set xs" using Cons.prems(2,3) True by (force simp: is_member_def)
    ultimately show ?thesis by simp
  next
    case False
    moreover have "m \<noteq> x" using False Cons.prems(3) unfolding is_member_def by metis
    ultimately show ?thesis using Cons by simp
  qed
qed simp

text \<open>Who is left after a heartbeat, seen from the members before it.\<close>

lemma length_touch [simp]: "length (touch now mid ms) = length ms"
  unfolding touch_def by (induction ms) simp_all

lemma ids_alive:
  assumes "distinct (map mi_member_id ms)" and "0 \<le> sint timeout_ms"
  shows "map mi_member_id (filter (\<lambda>m. \<not> expired now timeout_ms m) (touch now mid ms)) =
    map mi_member_id (filter (\<lambda>m. mi_member_id m = mid \<or>
      now - mi_last_heartbeat m \<le> sint timeout_ms * 1000000) ms)"
  using assms(1)
proof (induction ms)
  case (Cons m ms)
  have "filter (\<lambda>m. \<not> expired now timeout_ms m) ms = filter (\<lambda>m. mi_member_id m = mid \<or>
      now - mi_last_heartbeat m \<le> sint timeout_ms * 1000000) ms" if "is_member mid m"
  proof (rule filter_cong)
    fix x assume "x \<in> set ms"
    then have "mi_member_id x \<noteq> mid"
      using that Cons.prems unfolding is_member_def by (metis distinct.simps(2) image_eqI list.set_map list.simps(9))
    then show "(\<not> expired now timeout_ms x) = (mi_member_id x = mid \<or>
        now - mi_last_heartbeat x \<le> sint timeout_ms * 1000000)" by (auto simp: expired_def)
  qed simp
  with Cons assms(2) show ?case by (auto simp: touch_def is_member_def expired_def)
qed (simp add: touch_def)

section \<open>Assignments and offsets\<close>

text \<open>What a SyncGroup of the leader stores is what each member reads back.\<close>

lemma assignment_after_sync:
  assumes "distinct (map sga_member_id as)" and "a \<in> set as"
  shows "assignment_of (assign_members clock k as ms) (sga_member_id a) = sga_assignment a"
proof -
  obtain i where i: "i < length as" "as ! i = a" using assms(2) by (auto simp: in_set_conv_nth)
  have "(clock (k + i), sga_member_id a, sga_assignment a)
      \<in> set (map (\<lambda>(i, a). (clock i, sga_member_id a, sga_assignment a)) (enumerate k as))"
    using i by (force simp: in_set_enumerate_eq)
  moreover have "map (fst \<circ> snd)
      (map (\<lambda>(i, a). (clock i, sga_member_id a, sga_assignment a)) (enumerate k as)) = map sga_member_id as"
    by (rule nth_equalityI) (simp_all add: nth_enumerate_eq)
  ultimately show ?thesis
    unfolding assign_members_put_all using assms(1)
    by (intro assignments.get_put_all_distinct) (simp_all only:)
qed

lemma assignment_unassigned:
  assumes "mid \<notin> sga_member_id ` set as"
  shows "assignment_of (assign_members clock k as ms) mid = assignment_of ms mid"
  unfolding assign_members_put_all
  by (rule assignments.get_put_all_other)
    (use assms in \<open>auto simp: enumerate_eq_zip dest: set_zip_rightD\<close>)

text \<open>The committed offsets of a group are a table that only its own OffsetCommit changes.\<close>

definition commits_to :: "string \<Rightarrow> Request \<Rightarrow> bool" where
  "commits_to gid req \<longleftrightarrow> (case req of OffsetCommit r \<Rightarrow> oc_group_id r = gid | _ \<Rightarrow> False)"

definition group_offsets :: "GroupCoordinator \<Rightarrow> string \<Rightarrow> offset_table" where
  "group_offsets c gid = gm_committed_offsets (group_at c gid)"

lemma group_offsets_put:
  "group_offsets (put_group gid g c) gid' =
     (if gid' = gid then gm_committed_offsets g else group_offsets c gid')"
  by (simp add: group_offsets_def groups.get_put)

lemma offsets_heartbeat_leave [simp]:
  "gm_committed_offsets (heartbeat_group now mid g) = gm_committed_offsets g"
  "gm_committed_offsets (snd (leave_group mid g)) = gm_committed_offsets g"
  by (simp_all add: heartbeat_group_def leave_group_def Let_def)

lemma coord_step_offsets:
  assumes "coord_step c req resp c'" and "\<not> commits_to gid req"
  shows "group_offsets c' gid = group_offsets c gid"
  using assms
proof (induction rule: coord_step.induct)
  case (step_join now jr c c' resp)
  then show ?case
    by (auto simp: handle_join_group_def Let_def group_offsets_put)
      (auto simp: group_offsets_def)
next
  case (step_sync clock sr c c' resp)
  then show ?case
    by (auto simp: handle_sync_group_def Let_def group_offsets_put split: option.splits if_splits)
      (auto simp: group_offsets_def group_at_def)
next
  case (step_heartbeat now hr c c' resp)
  then show ?case
    by (auto simp: handle_heartbeat_def Let_def group_offsets_put split: option.splits if_splits)
      (auto simp: group_offsets_def group_at_def)
next
  case (step_leave lr c c' resp)
  then have "c' = fst (handle_leave_group lr c)" by simp
  then show ?case
    by (simp add: group_offsets_def group_at_def handle_leave_groups split: option.splits)
next
  case (step_commit cr c c' resp)
  then show ?case
    by (auto simp: handle_offset_commit_def Let_def group_offsets_put commits_to_def)
next
  case (step_fetch fr c c' resp)
  then show ?case
    by (auto simp: handle_offset_fetch_def Let_def group_offsets_put) (simp add: group_offsets_def)
qed

lemma coord_run_offsets:
  assumes "coord_run c reqs c'" and "\<And>req. req \<in> set reqs \<Longrightarrow> \<not> commits_to gid req"
  shows "group_offsets c' gid = group_offsets c gid"
  using assms by (induction rule: coord_run.induct) (auto simp: coord_step_offsets)

definition commit_keys :: "OffsetCommitRequest \<Rightarrow> (string \<times> int32_t) list" where
  "commit_keys r =
     concat (map (\<lambda>tr. map (\<lambda>p. (oct_topic_name tr, ocp_partition_index p)) (oct_partitions tr))
       (oc_topics r))"

lemma committed_after_commit:
  assumes "distinct (commit_keys r)" and "tr \<in> set (oc_topics r)" and "p \<in> set (oct_partitions tr)"
  shows "committed_offset (group_offsets (fst (handle_offset_commit r c)) (oc_group_id r))
           (oct_topic_name tr) (ocp_partition_index p) = ocp_committed_offset p"
proof -
  let ?ops = "concat (map (\<lambda>tr. map (\<lambda>p.
       ((), (oct_topic_name tr, ocp_partition_index p), ocp_committed_offset p))
       (oct_partitions tr)) (oc_topics r))"
  have "map (fst \<circ> snd) ?ops = commit_keys r"
    by (simp add: commit_keys_def map_concat comp_def)
  moreover have "((), (oct_topic_name tr, ocp_partition_index p), ocp_committed_offset p) \<in> set ?ops"
    using assms(2,3) by auto
  ultimately have "offset_at (offsets.put_all ?ops t) (oct_topic_name tr, ocp_partition_index p)
      = ocp_committed_offset p" for t
    using assms(1) by (intro offsets.get_put_all_distinct) (simp_all only:)
  then show ?thesis
    by (simp add: handle_offset_commit_def Let_def group_offsets_put commit_topics_put_all offset_at_def)
qed

lemma offset_fetch_response:
  "ofr_topics (snd (handle_offset_fetch r c)) =
     map (\<lambda>tr. \<lparr>oftr_topic_name = oft_topic_name tr,
       oftr_partitions = map (\<lambda>part. \<lparr>ofpr_partition_index = part,
         ofpr_committed_offset = committed_offset (group_offsets c (of_group_id r)) (oft_topic_name tr) part,
         ofpr_committed_leader_epoch = - 1, ofpr_committed_metadata = [], ofpr_error_code = 0\<rparr>)
         (oft_partition_indexes tr)\<rparr>) (of_topics r)"
  by (simp add: handle_offset_fetch_def Let_def group_offsets_def)

section \<open>Generated member ids\<close>

lemma coord_step_next_id:
  assumes "coord_step c req resp c'"
  shows "gc_next_member_id c' \<in> {gc_next_member_id c, gc_next_member_id c + 1}"
  using assms
  by (induction rule: coord_step.induct)
    (auto simp: handle_join_group_def handle_sync_group_def handle_heartbeat_def handle_leave_group_def
      handle_offset_commit_def handle_offset_fetch_def Let_def put_group_def
      split: option.splits if_splits prod.splits)

lemma coord_run_next_id:
  assumes "coord_run c reqs c'" and "0 \<le> sint (gc_next_member_id c)"
    and "sint (gc_next_member_id c) + int (length reqs) < 2 ^ 31"
  shows "sint (gc_next_member_id c) \<le> sint (gc_next_member_id c') \<and>
    sint (gc_next_member_id c') \<le> sint (gc_next_member_id c) + int (length reqs)"
  using assms
proof (induction rule: coord_run.induct)
  case (run_step c reqs c' req resp c'')
  with coord_step_next_id [OF run_step.hyps(2)] show ?case by (auto simp: sint_plus_1)
qed simp

lemma join_generated_id:
  assumes "jg_member_id r = []"
  shows "jgr_member_id (snd (handle_join_group now r c)) = ''member-'' @ to_string (gc_next_member_id c + 1)"
    and "gc_next_member_id (fst (handle_join_group now r c)) = gc_next_member_id c + 1"
  using assms by (simp_all add: handle_join_group_def Let_def put_group_def)

end
