(* ===== verification/Endian.thy ===== *)
theory Endian
  imports Prelude
begin

text \<open>
  The big-endian integer encodings of \<open>src/src/util/endian.hpp\<close>: the three writers fill a fixed
  array of bytes by shifting and masking, the three decoders reassemble the value. Encoding and
  decoding are inverse to each other in both directions.
\<close>

unbundle bit_operations_syntax

section \<open>Encoders and decoders\<close>

text \<open>The 16-bit value is promoted to \<open>int\<close> before it is shifted.\<close>

definition write_int16_be :: "int16_t \<Rightarrow> bytes" where
  "write_int16_be value =
     (let v = scast value :: int32_t in
      [ucast (signed_drop_bit 8 v AND 0xFF), ucast (v AND 0xFF)])"

definition write_int32_be :: "int32_t \<Rightarrow> bytes" where
  "write_int32_be value =
     [ucast (signed_drop_bit 24 value AND 0xFF), ucast (signed_drop_bit 16 value AND 0xFF),
      ucast (signed_drop_bit 8 value AND 0xFF), ucast (value AND 0xFF)]"

definition write_int64_be :: "int64_t \<Rightarrow> bytes" where
  "write_int64_be value =
     [ucast (signed_drop_bit 56 value AND 0xFF), ucast (signed_drop_bit 48 value AND 0xFF),
      ucast (signed_drop_bit 40 value AND 0xFF), ucast (signed_drop_bit 32 value AND 0xFF),
      ucast (signed_drop_bit 24 value AND 0xFF), ucast (signed_drop_bit 16 value AND 0xFF),
      ucast (signed_drop_bit 8 value AND 0xFF), ucast (value AND 0xFF)]"

definition decode_int16_be :: "bytes \<Rightarrow> int16_t" where
  "decode_int16_be data =
     ucast (push_bit 8 (ucast (data ! 0) :: int32_t) OR (ucast (data ! 1) :: int32_t))"

definition decode_int32_be :: "bytes \<Rightarrow> int32_t" where
  "decode_int32_be data =
     push_bit 24 (ucast (data ! 0)) OR push_bit 16 (ucast (data ! 1)) OR
     push_bit 8 (ucast (data ! 2)) OR ucast (data ! 3)"

definition decode_int64_be :: "bytes \<Rightarrow> int64_t" where
  "decode_int64_be data =
     push_bit 56 (ucast (data ! 0)) OR push_bit 48 (ucast (data ! 1)) OR
     push_bit 40 (ucast (data ! 2)) OR push_bit 32 (ucast (data ! 3)) OR
     push_bit 24 (ucast (data ! 4)) OR push_bit 16 (ucast (data ! 5)) OR
     push_bit 8 (ucast (data ! 6)) OR ucast (data ! 7)"

section \<open>Bytes of a word\<close>

lemma and_0xFF: "w AND (0xFF :: 'a::len word) = take_bit 8 w"
proof -
  have "(0xFF :: 'a word) = mask 8" by (simp add: mask_numeral)
  then show ?thesis by (simp add: take_bit_eq_mask)
qed

lemma byte_of_shift:
  "k + 8 \<le> LENGTH('a) \<Longrightarrow>
   (ucast (signed_drop_bit k (v :: 'a::len word) AND 0xFF) :: uint8_t) = ucast (drop_bit k v)"
  by (rule bit_word_eqI) (auto simp add: and_0xFF bit_simps not_le)

lemma byte_of_low: "(ucast ((v :: 'a::len word) AND 0xFF) :: uint8_t) = ucast v"
  by (rule bit_word_eqI) (auto simp add: and_0xFF bit_simps)

lemma bit_byte_shifted:
  "k + 8 \<le> LENGTH('a) \<Longrightarrow>
   bit (push_bit k (ucast (ucast (drop_bit k v) :: uint8_t) :: 'a::len word)) n
     \<longleftrightarrow> k \<le> n \<and> n < k + 8 \<and> bit v n"
  by (auto simp add: bit_simps dest: bit_imp_le_length)

lemma bit_byte_low:
  "8 \<le> LENGTH('a) \<Longrightarrow>
   bit (ucast (ucast (v :: 'a::len word) :: uint8_t) :: 'a word) n \<longleftrightarrow> n < 8 \<and> bit v n"
  by (auto simp add: bit_simps dest: bit_imp_le_length)

lemma write_int16_be_eq: "write_int16_be v = [ucast (drop_bit 8 v), ucast v]"
  by (auto simp add: write_int16_be_def Let_def byte_of_shift byte_of_low intro!: bit_word_eqI)
    (auto simp add: bit_simps not_le)

lemma write_int32_be_eq:
  "write_int32_be v = [ucast (drop_bit 24 v), ucast (drop_bit 16 v), ucast (drop_bit 8 v), ucast v]"
  unfolding write_int32_be_def
  by (subst byte_of_shift, simp)+ (simp only: byte_of_low)

lemma write_int64_be_eq:
  "write_int64_be v =
     [ucast (drop_bit 56 v), ucast (drop_bit 48 v), ucast (drop_bit 40 v), ucast (drop_bit 32 v),
      ucast (drop_bit 24 v), ucast (drop_bit 16 v), ucast (drop_bit 8 v), ucast v]"
  unfolding write_int64_be_def
  by (subst byte_of_shift, simp)+ (simp only: byte_of_low)

lemma length_write_int16_be [simp]: "length (write_int16_be v) = 2"
  by (simp add: write_int16_be_eq)

lemma length_write_int32_be [simp]: "length (write_int32_be v) = 4"
  by (simp add: write_int32_be_eq)

lemma length_write_int64_be [simp]: "length (write_int64_be v) = 8"
  by (simp add: write_int64_be_eq)

section \<open>Decoding what was encoded\<close>

lemma decode_write_int16_be [simp]: "decode_int16_be (write_int16_be v) = v"
proof (rule bit_word_eqI)
  fix n assume "n < LENGTH(16)"
  then show "bit (decode_int16_be (write_int16_be v)) n = bit v n"
    by (cases "n < 8")
      (auto simp add: decode_int16_be_def write_int16_be_eq bit_simps not_less
        dest: bit_imp_le_length)
qed

lemma decode_write_int32_be [simp]: "decode_int32_be (write_int32_be v) = v"
proof (rule bit_word_eqI)
  fix n assume "n < LENGTH(32)"
  then show "bit (decode_int32_be (write_int32_be v)) n = bit v n"
    by (cases "bit v n")
      (simp_all add: decode_int32_be_def write_int32_be_eq bit_or_iff bit_byte_shifted
        bit_byte_low, arith)
qed

lemma decode_write_int64_be [simp]: "decode_int64_be (write_int64_be v) = v"
proof (rule bit_word_eqI)
  fix n assume "n < LENGTH(64)"
  then show "bit (decode_int64_be (write_int64_be v)) n = bit v n"
    by (cases "bit v n")
      (simp_all add: decode_int64_be_def write_int64_be_eq bit_or_iff bit_byte_shifted
        bit_byte_low, arith)
qed

section \<open>Encoding what was decoded\<close>

lemma write_decode_int16_be: "write_int16_be (decode_int16_be [a, b]) = [a, b]"
  by (auto simp: write_int16_be_eq decode_int16_be_def bit_eq_iff bit_simps
      dest: bit_imp_le_length)

lemma write_decode_int32_be: "write_int32_be (decode_int32_be [a, b, c, d]) = [a, b, c, d]"
  by (auto simp: write_int32_be_eq decode_int32_be_def bit_eq_iff bit_simps
      dest: bit_imp_le_length)

lemma write_decode_int64_be:
  "write_int64_be (decode_int64_be [a, b, c, d, e, f, g, h]) = [a, b, c, d, e, f, g, h]"
  by (auto simp: write_int64_be_eq decode_int64_be_def bit_eq_iff bit_simps
      dest: bit_imp_le_length)

end
