(* ===== verification/Varint.thy ===== *)
theory Varint
  imports Endian
begin

text \<open>
  The variable-length integers of \<open>src/src/util/varint.hpp\<close>: the size, the writer and the reader
  of unsigned varints, the zigzag mapping that carries signed values, and compact strings (a length
  plus one as a varint, then the bytes). The reader refuses a fifth byte, so it reads back exactly
  the values below \<open>2 ^ 28\<close>; the writer has no such limit.
\<close>

unbundle bit_operations_syntax

section \<open>Unsigned varints\<close>

function varint_size_loop :: "uint32_t \<Rightarrow> size_t \<Rightarrow> size_t" where
  "varint_size_loop value sz =
     (if value > 0 then varint_size_loop (drop_bit 7 value) (sz + 1) else sz)"
  by pat_completeness auto
termination
proof (relation "measure (\<lambda>(v, _). unat v)")
  fix v :: uint32_t and sz :: size_t
  assume "v > 0"
  then have "0 < unat v" by (simp add: word_greater_zero_iff unat_gt_0)
  then have "unat v div 2 ^ 7 < unat v" by (intro div_less_dividend) simp_all
  then show "((drop_bit 7 v, sz + 1), v, sz) \<in> measure (\<lambda>(v, _). unat v)"
    by (simp only: in_measure prod.case unat_drop_bit_eq) (simp only: drop_bit_eq_div)
qed simp

declare varint_size_loop.simps [simp del]

definition varint_encoded_size :: "uint32_t \<Rightarrow> size_t" where
  "varint_encoded_size value = (if value = 0 then 1 else varint_size_loop value 0)"

text \<open>The bytes \<open>write_unsigned_varint\<close> stores; it returns their number.\<close>

function write_unsigned_varint :: "uint32_t \<Rightarrow> bytes" where
  "write_unsigned_varint value =
     (if value > 0x7F
      then ucast ((value AND 0x7F) OR 0x80) # write_unsigned_varint (drop_bit 7 value)
      else [ucast (value AND 0x7F)])"
  by pat_completeness auto
termination
proof (relation "measure unat")
  fix v :: uint32_t
  assume "v > 0x7F"
  then have "0 < unat v" by (simp add: word_less_nat_alt)
  then have "unat v div 2 ^ 7 < unat v" by (intro div_less_dividend) simp_all
  then show "(drop_bit 7 v, v) \<in> measure unat"
    by (simp only: in_measure prod.case unat_drop_bit_eq) (simp only: drop_bit_eq_div)
qed simp

declare write_unsigned_varint.simps [simp del]

fun read_varint_loop :: "bytes \<Rightarrow> uint32_t \<Rightarrow> nat \<Rightarrow> uint32_t expected" where
  "read_varint_loop [] value shift = Inl message_size"
| "read_varint_loop (byte # buf) value shift =
     (if shift \<ge> 28 then Inl message_size
      else let value' = value OR push_bit shift (ucast (byte AND 0x7F)) in
        if byte AND 0x80 = 0 then Inr value' else read_varint_loop buf value' (shift + 7))"

definition read_unsigned_varint :: "bytes \<Rightarrow> uint32_t expected" where
  "read_unsigned_varint buf = read_varint_loop buf 0 0"

section \<open>Zigzag and signed varints\<close>

definition zigzag_encode :: "int32_t \<Rightarrow> uint32_t" where
  "zigzag_encode value = push_bit 1 value XOR signed_drop_bit 31 value"

definition zigzag_decode :: "uint32_t \<Rightarrow> int32_t" where
  "zigzag_decode encoded = drop_bit 1 encoded XOR - (encoded AND 1)"

definition signed_varint_encoded_size :: "int32_t \<Rightarrow> size_t" where
  "signed_varint_encoded_size value = varint_encoded_size (zigzag_encode value)"

definition write_signed_varint :: "int32_t \<Rightarrow> bytes" where
  "write_signed_varint value = write_unsigned_varint (zigzag_encode value)"

definition read_signed_varint :: "bytes \<Rightarrow> int32_t expected" where
  "read_signed_varint buf =
     (case read_unsigned_varint buf of Inl e \<Rightarrow> Inl e | Inr v \<Rightarrow> Inr (zigzag_decode v))"

section \<open>Compact strings\<close>

text \<open>The view of the string's bytes that the free function \<open>read_compact_string\<close> returns.\<close>

definition read_compact_string_view :: "bytes \<Rightarrow> bytes expected" where
  "read_compact_string_view buf =
     (if buf = [] then Inl message_size
      else case read_unsigned_varint buf of
        Inl e \<Rightarrow> Inl e
      | Inr len \<Rightarrow>
          if len < 1 then Inl message_size
          else let str_len = unat (len - 1); consumed = varint_encoded_size len in
            if length buf < consumed + str_len then Inl message_size
            else Inr (take str_len (drop consumed buf)))"

section \<open>Sizes\<close>

lemma varint_size_loop_add: "varint_size_loop v (n + m) = varint_size_loop v n + m"
proof (induction v n rule: varint_size_loop.induct)
  case (1 v n)
  then show ?case
    by (cases "v > 0") (simp_all add: varint_size_loop.simps [of v] add.commute)
qed

lemma varint_size_loop_pos:
  "v > 0 \<Longrightarrow> varint_size_loop v 0 = varint_size_loop (drop_bit 7 v) 0 + 1"
  using varint_size_loop_add [of "drop_bit 7 v" 0 1] by (simp add: varint_size_loop.simps [of v])

lemma drop_bit_7_eq_0: "drop_bit 7 (v :: uint32_t) = 0 \<longleftrightarrow> v \<le> 0x7F"
proof -
  have "drop_bit 7 v = 0 \<longleftrightarrow> unat v div 2 ^ 7 = 0"
    by (metis drop_bit_eq_div unat_0_iff unat_drop_bit_eq)
  then show ?thesis by (auto simp add: word_le_nat_alt div_eq_0_iff)
qed

lemma varint_encoded_size_rec:
  "varint_encoded_size v = (if v \<le> 0x7F then 1 else varint_encoded_size (drop_bit 7 v) + 1)"
proof (cases "v = 0")
  case False
  then have "v > 0" by (simp add: word_greater_zero_iff)
  then show ?thesis
    using False drop_bit_7_eq_0 [of v]
    by (cases "v \<le> 0x7F")
      (simp_all add: varint_encoded_size_def varint_size_loop_pos varint_size_loop.simps [of 0])
qed (simp add: varint_encoded_size_def)

lemma length_write_unsigned_varint [simp]:
  "length (write_unsigned_varint v) = varint_encoded_size v"
proof (induction v rule: write_unsigned_varint.induct)
  case (1 v)
  then show ?case
    by (subst write_unsigned_varint.simps, subst varint_encoded_size_rec) (auto simp: not_less)
qed

lemma write_unsigned_varint_not_Nil [simp]: "write_unsigned_varint v \<noteq> []"
  by (subst write_unsigned_varint.simps) simp

lemma varint_encoded_size_pos: "1 \<le> varint_encoded_size v"
  by (subst varint_encoded_size_rec) simp

section \<open>Reading back what was written\<close>

lemma and_0x7F: "w AND (0x7F :: 'a::len word) = take_bit 7 w"
proof -
  have "(0x7F :: 'a word) = mask 7" by (simp add: mask_numeral)
  then show ?thesis by (simp add: take_bit_eq_mask)
qed

lemma bit_0x80: "bit (0x80 :: int) n \<longleftrightarrow> n = 7"
proof -
  have "(0x80 :: int) = 2 ^ 7" by simp
  then show ?thesis by (simp only: bit_exp_iff possible_bit_int) auto
qed

lemma and_0x80_eq_0: "b AND (0x80 :: uint8_t) = 0 \<longleftrightarrow> \<not> bit b 7"
proof -
  have "(0x80 :: uint8_t) = 2 ^ 7" by simp
  then show ?thesis by (simp only: and_exp_eq_0_iff_not_bit)
qed

lemma low7_continued:
  "ucast ((ucast ((v AND 0x7F) OR 0x80) :: uint8_t) AND 0x7F) = (take_bit 7 v :: uint32_t)"
  by (rule bit_word_eqI) (auto simp: and_0x7F bit_simps bit_0x80)

lemma low7_last:
  assumes "v \<le> 0x7F"
  shows "ucast ((ucast (v AND 0x7F) :: uint8_t) AND 0x7F) = (v :: uint32_t)"
proof -
  have "drop_bit 7 v = 0" using assms by (simp add: drop_bit_7_eq_0)
  then have "take_bit 7 v = v" using bits_ident [of 7 v] by simp
  moreover have "ucast ((ucast (v AND 0x7F) :: uint8_t) AND 0x7F) = take_bit 7 v"
    by (rule bit_word_eqI) (auto simp: and_0x7F bit_simps)
  ultimately show ?thesis by simp
qed

lemma high_bit_continued: "(ucast ((v AND 0x7F) OR 0x80 :: uint32_t) :: uint8_t) AND 0x80 \<noteq> 0"
  by (simp add: and_0x80_eq_0 bit_simps bit_0x80)

lemma high_bit_last: "(ucast (v AND 0x7F :: uint32_t) :: uint8_t) AND 0x80 = 0"
  by (simp add: and_0x80_eq_0 and_0x7F bit_simps)

lemma split7:
  "(acc OR push_bit s (take_bit 7 v)) OR push_bit (s + 7) (drop_bit 7 v)
     = acc OR push_bit s (v :: uint32_t)"
proof (rule bit_word_eqI)
  fix n
  have "\<not> n < s + 7 \<Longrightarrow> 7 + (n - (s + 7)) = n - s" by simp
  then show "bit ((acc OR push_bit s (take_bit 7 v)) OR push_bit (s + 7) (drop_bit 7 v)) n
      = bit (acc OR push_bit s v) n"
    by (cases "n < s + 7") (auto simp: bit_simps)
qed

lemma read_varint_loop_write:
  assumes "unat v < 2 ^ (28 - s)" and "s < 28"
  shows "read_varint_loop (write_unsigned_varint v @ rest) acc s = Inr (acc OR push_bit s v)"
  using assms
proof (induction v arbitrary: acc s rule: write_unsigned_varint.induct)
  case (1 v)
  show ?case
  proof (cases "v > 0x7F")
    case True
    then have "128 \<le> unat v" by (simp add: word_less_nat_alt)
    with "1.prems" have "(2::nat) ^ 7 < 2 ^ (28 - s)" by simp
    then have "7 < 28 - s" by (subst (asm) power_strict_increasing_iff) simp_all
    then have s: "s + 7 < 28" by simp
    have "(2::nat) ^ (28 - s) = 2 ^ (28 - (s + 7)) * 2 ^ 7"
      using s by (simp only: flip: power_add) simp
    with "1.prems"(1) have "unat v div 2 ^ 7 < 2 ^ (28 - (s + 7))"
      by (intro less_mult_imp_div_less) simp
    then have "unat (drop_bit 7 v) < 2 ^ (28 - (s + 7))"
      by (simp only: unat_drop_bit_eq) (simp only: drop_bit_eq_div)
    from "1.IH" [OF True this s] True "1.prems" show ?thesis
      by (simp add: write_unsigned_varint.simps [of v] low7_continued high_bit_continued split7)
  next
    case False
    with "1.prems" show ?thesis
      by (simp add: write_unsigned_varint.simps [of v] low7_last high_bit_last)
  qed
qed

lemma read_write_unsigned_varint:
  "unat v < 2 ^ 28 \<Longrightarrow> read_unsigned_varint (write_unsigned_varint v @ rest) = Inr v"
  by (simp add: read_unsigned_varint_def read_varint_loop_write)

text \<open>A value of 28 bits or more is written with a fifth byte, which the reader refuses.\<close>

lemma read_varint_loop_overlong:
  "2 ^ (7 * j) \<le> unat v \<Longrightarrow> j \<le> 4 \<Longrightarrow>
   read_varint_loop (write_unsigned_varint v @ rest) acc (28 - 7 * j) = Inl message_size"
proof (induction j arbitrary: v acc)
  case 0
  then show ?case by (subst write_unsigned_varint.simps) simp
next
  case (Suc j)
  have "(2::nat) ^ (7 * Suc j) = 2 ^ 7 * 2 ^ (7 * j)" by (simp only: flip: power_add) simp
  with Suc.prems(1) have le: "2 ^ 7 * 2 ^ (7 * j) \<le> unat v" by simp
  then have "2 ^ 7 * 1 \<le> unat v" by (rule order_trans [rotated]) (intro mult_le_mono, simp_all)
  then have v: "v > 0x7F" by (simp add: word_less_nat_alt)
  from le have "2 ^ (7 * j) \<le> unat v div 2 ^ 7"
    by (simp add: less_eq_div_iff_mult_less_eq mult.commute)
  then have "2 ^ (7 * j) \<le> unat (drop_bit 7 v)"
    by (simp only: unat_drop_bit_eq) (simp only: drop_bit_eq_div)
  with Suc.IH Suc.prems(2) have
    "read_varint_loop (write_unsigned_varint (drop_bit 7 v) @ rest) acc' (28 - 7 * j)
       = Inl message_size" for acc' by simp
  moreover have "28 - 7 * Suc j + 7 = 28 - 7 * j" using Suc.prems(2) by simp
  ultimately show ?case
    using v by (subst write_unsigned_varint.simps) (simp add: high_bit_continued Let_def)
qed

lemma read_write_unsigned_varint_overlong:
  "2 ^ 28 \<le> unat v \<Longrightarrow>
   read_unsigned_varint (write_unsigned_varint v @ rest) = Inl message_size"
  using read_varint_loop_overlong [of 4 v rest 0] by (simp add: read_unsigned_varint_def)

section \<open>What the reader accepts\<close>

lemma take_bit_eq_self_iff_unat: "take_bit m w = w \<longleftrightarrow> unat (w :: 'a::len word) < 2 ^ m"
  by (metis take_bit_nat_eq_self_iff unsigned_take_bit_eq unsigned_word_eqI)

lemma take_bit_or_push_bit7:
  "take_bit s acc = acc \<Longrightarrow>
   take_bit (s + 7) (acc OR push_bit s (ucast (b AND 0x7F :: uint8_t)))
     = (acc OR push_bit s (ucast (b AND 0x7F)) :: uint32_t)"
  by (rule bit_word_eqI) (auto simp: and_0x7F bit_eq_iff [of _ acc] bit_simps)

lemma read_varint_loop_range:
  assumes "read_varint_loop buf acc s = Inr v" and "take_bit s acc = acc"
  shows "\<exists>k. 1 \<le> k \<and> k \<le> length buf \<and> s + 7 * k < 35 \<and> take_bit (s + 7 * k) v = v"
  using assms
proof (induction buf acc s rule: read_varint_loop.induct)
  case (2 b buf acc s)
  let ?acc = "acc OR push_bit s (ucast (b AND 0x7F))"
  from "2.prems" have s: "s < 28" by (simp split: if_splits)
  have acc: "take_bit (s + 7) ?acc = ?acc"
    using "2.prems"(2) by (rule take_bit_or_push_bit7)
  show ?case
  proof (cases "b AND 0x80 = 0")
    case True
    with "2.prems" s acc show ?thesis by (intro exI [of _ 1]) (simp add: Let_def)
  next
    case False
    with "2.prems" s have "read_varint_loop buf ?acc (s + 7) = Inr v" by (simp add: Let_def)
    with "2.IH" s False acc obtain k where
      "1 \<le> k" "k \<le> length buf" "s + 7 + 7 * k < 35" "take_bit (s + 7 + 7 * k) v = v"
      by (auto simp: Let_def)
    then show ?thesis by (intro exI [of _ "k + 1"]) (simp add: add.assoc)
  qed
qed simp

lemma varint_encoded_size_le: "unat v < 2 ^ (7 * Suc m) \<Longrightarrow> varint_encoded_size v \<le> Suc m"
proof (induction m arbitrary: v)
  case 0
  then show ?case by (subst varint_encoded_size_rec) (simp add: word_le_nat_alt)
next
  case (Suc m)
  have "(2::nat) ^ (7 * Suc (Suc m)) = 2 ^ (7 * Suc m) * 2 ^ 7"
    by (simp only: flip: power_add) simp
  with Suc.prems have "unat v div 2 ^ 7 < 2 ^ (7 * Suc m)"
    by (intro less_mult_imp_div_less) simp
  then have "unat (drop_bit 7 v) < 2 ^ (7 * Suc m)"
    by (simp only: unat_drop_bit_eq) (simp only: drop_bit_eq_div)
  then have "varint_encoded_size (drop_bit 7 v) \<le> Suc m" by (rule Suc.IH)
  then show ?case by (subst varint_encoded_size_rec) simp
qed

lemma read_unsigned_varint_size:
  assumes "read_unsigned_varint buf = Inr v"
  shows "varint_encoded_size v \<le> length buf" and "unat v < 2 ^ 28"
proof -
  obtain k where k: "1 \<le> k" "k \<le> length buf" "7 * k < 35" "take_bit (7 * k) v = v"
    using read_varint_loop_range [of buf 0 0 v] assms by (auto simp: read_unsigned_varint_def)
  then have v: "unat v < 2 ^ (7 * k)" by (simp only: take_bit_eq_self_iff_unat)
  moreover obtain m where m: "k = Suc m" using k(1) by (cases k) auto
  ultimately show "varint_encoded_size v \<le> length buf"
    using varint_encoded_size_le [of v m] k(2) by simp
  have "(2::nat) ^ (7 * k) \<le> 2 ^ 28" using k(3) by (intro power_increasing) auto
  with v show "unat v < 2 ^ 28" by linarith
qed

lemma read_varint_loop_append:
  "read_varint_loop buf acc s = Inr v \<Longrightarrow> read_varint_loop (buf @ more) acc s = Inr v"
  by (induction buf acc s rule: read_varint_loop.induct) (auto simp: Let_def split: if_splits)

lemma read_unsigned_varint_append:
  "read_unsigned_varint buf = Inr v \<Longrightarrow> read_unsigned_varint (buf @ more) = Inr v"
  by (simp add: read_unsigned_varint_def read_varint_loop_append)

section \<open>Zigzag\<close>

lemma signed_drop_bit_31: "signed_drop_bit 31 (v :: int32_t) = (if bit v 31 then - 1 else 0)"
  by (rule bit_word_eqI) (auto simp: bit_simps not_le le_Suc_eq numeral_eq_Suc)

lemma bit_zigzag_encode:
  "bit (zigzag_encode v) n \<longleftrightarrow>
     n < 32 \<and> (if n = 0 then bit v 31 else bit v (n - 1) \<noteq> bit v 31)"
proof -
  have "bit (push_bit 1 v) n \<longleftrightarrow> n < 32 \<and> 1 \<le> n \<and> bit v (n - 1)"
    by (simp only: bit_push_bit_iff possible_bit_word) auto
  moreover have "bit (signed_drop_bit 31 v) n \<longleftrightarrow> n < 32 \<and> bit v 31"
    by (auto simp: signed_drop_bit_31)
  ultimately show ?thesis
    by (simp only: zigzag_encode_def bit_xor_iff) auto
qed

lemma bit_zigzag_decode:
  "bit (zigzag_decode v) n \<longleftrightarrow> n < 32 \<and> (bit v (Suc n) \<noteq> bit v 0)"
proof -
  have "bit (drop_bit 1 v) n \<longleftrightarrow> bit v (Suc n)"
    by (simp only: bit_drop_bit_eq o_def) simp
  moreover have "- (v AND 1) = (if bit v 0 then - 1 else 0)"
    by (simp add: and_one_eq bit_0 odd_iff_mod_2_eq_one even_iff_mod_2_eq_zero)
  then have "bit (- (v AND 1)) n \<longleftrightarrow> n < 32 \<and> bit v 0"
    by simp
  moreover have "bit v (Suc n) \<Longrightarrow> n < 32" by (drule bit_imp_le_length) simp
  ultimately show ?thesis by (simp only: zigzag_decode_def bit_xor_iff) auto
qed

lemma zigzag_decode_encode [simp]: "zigzag_decode (zigzag_encode v) = v"
proof (rule bit_word_eqI)
  fix n assume "n < LENGTH(32)"
  then have "n < 31 \<or> n = 31" by auto
  then show "bit (zigzag_decode (zigzag_encode v)) n = bit v n"
    by (auto simp: bit_zigzag_decode bit_zigzag_encode)
qed

lemma zigzag_encode_decode [simp]: "zigzag_encode (zigzag_decode v) = v"
proof (rule bit_word_eqI)
  fix n assume "n < LENGTH(32)"
  moreover have "\<not> bit v 32" by (simp add: bit_word.rep_eq)
  ultimately show "bit (zigzag_encode (zigzag_decode v)) n = bit v n"
    by (cases n) (auto simp: bit_zigzag_decode bit_zigzag_encode)
qed

lemma zigzag_encode_values:
  "uint (zigzag_encode v) = (if sint v < 0 then - 2 * sint v - 1 else 2 * sint v)"
proof -
  let ?z = "if sint v < 0 then - 2 * sint v - 1 else 2 * sint v"
  have v: "v = word_of_int (sint v)" by simp
  have push: "push_bit 1 v = word_of_int (2 * sint v)"
    by (subst v, simp add: push_bit_eq_mult)
  have "bit v 31 \<longleftrightarrow> sint v < 0"
    using bit_last_iff [of v] by simp
  then have "zigzag_encode v = word_of_int ?z"
    using push by (simp add: zigzag_encode_def signed_drop_bit_31 not_eq_complement)
  moreover have "take_bit 32 ?z = ?z"
    using sint_lt [of v] sint_ge [of v] by (intro take_bit_int_eq_self) auto
  ultimately show ?thesis by (simp only: uint_word_of_int_eq) simp
qed

lemma unat_zigzag_encode_small:
  "- (2 ^ 27) \<le> sint v \<Longrightarrow> sint v < 2 ^ 27 \<Longrightarrow> unat (zigzag_encode v) < 2 ^ 28"
  using zigzag_encode_values [of v] by (simp add: unat_eq_nat_uint nat_less_iff split: if_splits)

text \<open>C28: Varints survive the round trip up to 28 bits and are refused beyond. Writing an unsigned
  value and reading it back gives the value when it has at most 28 bits, and otherwise the error
  \<open>message_size\<close>, because the writer emits a fifth byte and the reader stops before it. A signed
  value goes through the zigzag code, so it survives exactly between minus two to the 27 and two
  to the 27.\<close>

theorem varint_round_trip:
  "read_unsigned_varint (write_unsigned_varint v @ bs) =
     (if unat v < 2 ^ 28 then Inr v else Inl message_size) \<and>
   read_signed_varint (write_signed_varint w @ bs) =
     (if - (2 ^ 27) \<le> sint w \<and> sint w < 2 ^ 27 then Inr w else Inl message_size)"
proof -
  have u: "read_unsigned_varint (write_unsigned_varint x @ bs) =
      (if unat x < 2 ^ 28 then Inr x else Inl message_size)" for x
    using read_write_unsigned_varint [of x bs] read_write_unsigned_varint_overlong [of x bs]
    by (simp add: not_less)
  have "unat (zigzag_encode w) < 2 ^ 28 \<longleftrightarrow> - (2 ^ 27) \<le> sint w \<and> sint w < 2 ^ 27"
    using zigzag_encode_values [of w] by (auto simp: unat_eq_nat_uint nat_less_iff split: if_splits)
  then show ?thesis
    using u [of v] u [of "zigzag_encode w"] by (simp add: read_signed_varint_def write_signed_varint_def)
qed

section \<open>Compact strings\<close>

definition compact_string :: "bytes \<Rightarrow> bytes" where
  "compact_string str = write_unsigned_varint (u32_of_size (length str) + 1) @ str"

lemma read_compact_string_view_append:
  assumes "length str < 2 ^ 28 - 1"
  shows "read_compact_string_view (compact_string str @ rest) = Inr str"
proof -
  let ?len = "u32_of_size (length str) + 1"
  have len: "unat ?len = length str + 1"
    using assms by (intro unat_u32_of_size_Suc) simp
  then have "?len \<noteq> 0" by (metis add_is_0 one_neq_zero unat_0)
  moreover have "unat (?len - 1) = length str"
    using assms by (simp add: unat_u32_of_size)
  moreover have "read_unsigned_varint (write_unsigned_varint ?len @ str @ rest) = Inr ?len"
    using assms len by (intro read_write_unsigned_varint) simp
  ultimately show ?thesis
    by (simp add: read_compact_string_view_def compact_string_def not_less)
qed

lemma read_compact_string_view_length:
  assumes "read_compact_string_view buf = Inr str"
  shows "varint_encoded_size (u32_of_size (length str) + 1) + length str \<le> length buf"
proof -
  from assms obtain len where len: "read_unsigned_varint buf = Inr len" "\<not> len < 1"
    "\<not> length buf < varint_encoded_size len + unat (len - 1)"
    "str = take (unat (len - 1)) (drop (varint_encoded_size len) buf)"
    by (auto simp: read_compact_string_view_def Let_def split: if_splits sum.splits)
  then have "length str = unat (len - 1)" by simp
  then have "u32_of_size (length str) + 1 = len" by (simp add: u32_of_size_def)
  with len \<open>length str = _\<close> show ?thesis by simp
qed

lemma read_compact_string_view_more:
  "read_compact_string_view buf = Inr str \<Longrightarrow> read_compact_string_view (buf @ more) = Inr str"
  by (cases "read_unsigned_varint buf")
    (simp_all add: read_compact_string_view_def Let_def read_unsigned_varint_append
      split: if_splits)

end
