(* ===== verification/Byte_Reader.thy ===== *)
theory Byte_Reader
  imports Varint
begin

text \<open>
  The class \<open>ByteReader\<close> of \<open>src/src/util/byte_reader.hpp\<close>: a span of bytes and an offset.
  Every operation returns a \<open>std::expected\<close>; when it fails, the offset is left where it was, so
  an operation is a function from a reader to an error or to a value and the reader after it.

  Parsers are sequences of such operations that stop at the first error (\<open>rbind\<close>) and counted
  loops (\<open>read_times\<close>). The three notions proved of all of them are compositional:
  \<^item> \<open>reads p bs x\<close>: on input that starts with \<open>bs\<close>, \<open>p\<close> yields \<open>x\<close> and moves over
    exactly \<open>bs\<close>;
  \<^item> \<open>tame p\<close>: \<open>p\<close> keeps the data, moves forward only, and never beyond the end;
  \<^item> \<open>prefix_stable p\<close>: more bytes behind the input do not change a result.
\<close>

section \<open>The reader and its operations\<close>

record byte_reader =
  rd_data :: bytes
  rd_offset :: size_t

type_synonym 'a reading = "byte_reader \<Rightarrow> ('a \<times> byte_reader) expected"

definition ByteReader :: "bytes \<Rightarrow> byte_reader" where
  "ByteReader d = \<lparr>rd_data = d, rd_offset = 0\<rparr>"

definition remaining :: "byte_reader \<Rightarrow> size_t" where
  "remaining r = length (rd_data r) - rd_offset r"

text \<open>\<open>data_.subspan(offset_)\<close>, and the offset moved forward.\<close>

definition rest :: "byte_reader \<Rightarrow> bytes" where
  "rest r = drop (rd_offset r) (rd_data r)"

definition advance :: "size_t \<Rightarrow> byte_reader \<Rightarrow> byte_reader" where
  "advance n r = r\<lparr>rd_offset := rd_offset r + n\<rparr>"

definition read_int8 :: "uint8_t reading" where
  "read_int8 r =
     (if remaining r < 1 then Inl message_size else Inr (rest r ! 0, advance 1 r))"

definition read_int16 :: "int16_t reading" where
  "read_int16 r =
     (if remaining r < 2 then Inl message_size
      else Inr (decode_int16_be (take 2 (rest r)), advance 2 r))"

definition read_int32 :: "int32_t reading" where
  "read_int32 r =
     (if remaining r < 4 then Inl message_size
      else Inr (decode_int32_be (take 4 (rest r)), advance 4 r))"

definition read_int64 :: "int64_t reading" where
  "read_int64 r =
     (if remaining r < 8 then Inl message_size
      else Inr (decode_int64_be (take 8 (rest r)), advance 8 r))"

definition read_bytes :: "size_t \<Rightarrow> bytes reading" where
  "read_bytes n r =
     (if remaining r < n then Inl message_size else Inr (take n (rest r), advance n r))"

definition read_varint :: "uint32_t reading" where
  "read_varint r =
     (case read_unsigned_varint (rest r) of
        Inl e \<Rightarrow> Inl e
      | Inr v \<Rightarrow> Inr (v, advance (varint_encoded_size v) r))"

definition read_compact_string :: "string reading" where
  "read_compact_string r =
     (case read_compact_string_view (rest r) of
        Inl e \<Rightarrow> Inl e
      | Inr sv \<Rightarrow>
          let consumed = varint_encoded_size (u32_of_size (length sv) + 1) + length sv in
          Inr (chars_of_bytes sv, advance consumed r))"

definition skip :: "size_t \<Rightarrow> unit reading" where
  "skip n r = (if remaining r < n then Inl message_size else Inr ((), advance n r))"

text \<open>The member function \<open>read_signed_varint\<close>.\<close>

definition read_svarint :: "int32_t reading" where
  "read_svarint r =
     (case read_signed_varint (rest r) of
        Inl e \<Rightarrow> Inl e
      | Inr v \<Rightarrow> Inr (v, advance (signed_varint_encoded_size v) r))"

definition skip_varint :: "unit reading" where
  "skip_varint r =
     (case read_unsigned_varint (rest r) of
        Inl e \<Rightarrow> Inl e
      | Inr v \<Rightarrow> Inr ((), advance (varint_encoded_size v) r))"

section \<open>Composing operations\<close>

text \<open>\<open>if (!x) return std::unexpected(x.error());\<close> after each read.\<close>

definition rreturn :: "'a \<Rightarrow> 'a reading" where
  "rreturn x r = Inr (x, r)"

definition rfail :: "errc \<Rightarrow> 'a reading" where
  "rfail e r = Inl e"

definition rbind :: "'a reading \<Rightarrow> ('a \<Rightarrow> 'b reading) \<Rightarrow> 'b reading" where
  "rbind p f r = (case p r of Inl e \<Rightarrow> Inl e | Inr (x, r') \<Rightarrow> f x r')"

text \<open>A counted loop that pushes one parsed element per round.\<close>

fun read_times :: "nat \<Rightarrow> 'a reading \<Rightarrow> 'a list reading" where
  "read_times 0 p = rreturn []"
| "read_times (Suc n) p = rbind p (\<lambda>x. rbind (read_times n p) (\<lambda>xs. rreturn (x # xs)))"

lemmas read_op_defs = read_int8_def read_int16_def read_int32_def read_int64_def read_bytes_def
  read_varint_def read_compact_string_def skip_def read_svarint_def skip_varint_def

lemma rest_advance [simp]: "rest (advance n r) = drop n (rest r)"
  by (simp add: rest_def advance_def add.commute)

lemma remaining_eq: "remaining r = length (rest r)"
  by (simp add: remaining_def rest_def)

lemma advance_0 [simp]: "advance 0 r = r"
  by (simp add: advance_def)

lemma advance_advance [simp]: "advance m (advance n r) = advance (n + m) r"
  by (simp add: advance_def add.assoc)

lemma data_advance [simp]: "rd_data (advance n r) = rd_data r"
  by (simp add: advance_def)

lemma offset_advance [simp]: "rd_offset (advance n r) = rd_offset r + n"
  by (simp add: advance_def)

lemma rest_ByteReader [simp]: "rest (ByteReader d) = d"
  by (simp add: rest_def ByteReader_def)

lemma rbind_rreturn [simp]: "rbind (rreturn x) f = f x"
  by (simp add: rbind_def rreturn_def fun_eq_iff)

lemma rbind_rfail [simp]: "rbind (rfail e) f = rfail e"
  by (simp add: rbind_def rfail_def fun_eq_iff)

section \<open>What a parser reads from an encoding\<close>

definition reads :: "'a reading \<Rightarrow> bytes \<Rightarrow> 'a \<Rightarrow> bool" where
  "reads p bs x \<longleftrightarrow> (\<forall>r ext. rest r = bs @ ext \<longrightarrow> p r = Inr (x, advance (length bs) r))"

lemma readsD: "reads p bs x \<Longrightarrow> rest r = bs @ ext \<Longrightarrow> p r = Inr (x, advance (length bs) r)"
  by (auto simp: reads_def)

lemma reads_rreturn [reads_intros]: "reads (rreturn x) [] x"
  by (simp add: reads_def rreturn_def)

lemma reads_rreturn_eq: "x = y \<Longrightarrow> reads (rreturn x) [] y"
  by (simp add: reads_rreturn)

lemma reads_rbind [reads_intros]:
  assumes "reads p bs x" and "reads (f x) cs y"
  shows "reads (rbind p f) (bs @ cs) y"
  unfolding reads_def
proof (intro allI impI)
  fix r ext assume r: "rest r = (bs @ cs) @ ext"
  then have "p r = Inr (x, advance (length bs) r)"
    using readsD [OF assms(1)] by simp
  moreover have "f x (advance (length bs) r) = Inr (y, advance (length cs) (advance (length bs) r))"
    using readsD [OF assms(2)] r by simp
  ultimately show "rbind p f r = Inr (y, advance (length (bs @ cs)) r)"
    by (simp add: rbind_def)
qed

lemma reads_rbind_last:
  assumes "reads p bs x" and "reads (f x) [] y"
  shows "reads (rbind p f) bs y"
  using reads_rbind [of p bs x f "[]" y] assms by simp

lemma reads_int8 [reads_intros]: "reads read_int8 [b] b"
  by (auto simp: reads_def read_int8_def remaining_eq)

lemma reads_int16 [reads_intros]: "reads read_int16 (write_int16_be v) v"
  by (auto simp: reads_def read_int16_def remaining_eq)

lemma reads_int32 [reads_intros]: "reads read_int32 (write_int32_be v) v"
  by (auto simp: reads_def read_int32_def remaining_eq)

lemma reads_int64 [reads_intros]: "reads read_int64 (write_int64_be v) v"
  by (auto simp: reads_def read_int64_def remaining_eq)

lemma reads_bytes [reads_intros]: "length bs = n \<Longrightarrow> reads (read_bytes n) bs bs"
  by (auto simp: reads_def read_bytes_def remaining_eq)

lemma reads_skip [reads_intros]: "length bs = n \<Longrightarrow> reads (skip n) bs ()"
  by (auto simp: reads_def skip_def remaining_eq)

lemma reads_varint [reads_intros]:
  "unat v < 2 ^ 28 \<Longrightarrow> reads read_varint (write_unsigned_varint v) v"
  by (simp add: reads_def read_varint_def read_write_unsigned_varint)

lemma reads_skip_varint [reads_intros]:
  "unat v < 2 ^ 28 \<Longrightarrow> reads skip_varint (write_unsigned_varint v) ()"
  by (simp add: reads_def skip_varint_def read_write_unsigned_varint)

lemma reads_svarint [reads_intros]:
  assumes "- (2 ^ 27) \<le> sint v" and "sint v < 2 ^ 27"
  shows "reads read_svarint (write_signed_varint v) v"
proof -
  have "read_unsigned_varint (write_unsigned_varint (zigzag_encode v) @ ext) = Inr (zigzag_encode v)"
    for ext using assms by (intro read_write_unsigned_varint unat_zigzag_encode_small)
  then show ?thesis
    by (simp add: reads_def read_svarint_def read_signed_varint_def write_signed_varint_def
        signed_varint_encoded_size_def)
qed

lemma length_compact_string:
  "length (compact_string bs) = varint_encoded_size (u32_of_size (length bs) + 1) + length bs"
  by (simp add: compact_string_def)

lemma reads_compact_string [reads_intros]:
  "length s < 2 ^ 28 - 1 \<Longrightarrow>
   reads read_compact_string (compact_string (bytes_of_chars s)) s"
  by (auto simp: reads_def read_compact_string_def read_compact_string_view_append
      length_compact_string)

lemma reads_times_map:
  assumes "\<And>x. x \<in> set xs \<Longrightarrow> reads p (enc x) (f x)" and "length xs = n"
  shows "reads (read_times n p) (concat (map enc xs)) (map f xs)"
  using assms
proof (induction xs arbitrary: n)
  case (Cons x xs)
  then obtain m where m: "n = Suc m" "length xs = m" by (cases n) auto
  have "reads (read_times m p) (concat (map enc xs)) (map f xs)"
    using Cons m by simp
  then have "reads (rbind (read_times m p) (\<lambda>ys. rreturn (f x # ys)))
      (concat (map enc xs)) (f x # map f xs)"
    by (rule reads_rbind_last) (rule reads_rreturn)
  with Cons.prems(1) [of x] show ?case by (auto simp: m intro: reads_rbind)
qed (auto intro: reads_rreturn)

lemma reads_times:
  "(\<And>x. x \<in> set xs \<Longrightarrow> reads p (enc x) x) \<Longrightarrow> length xs = n \<Longrightarrow>
   reads (read_times n p) (concat (map enc xs)) xs"
  using reads_times_map [of xs p enc "\<lambda>x. x"] by simp

section \<open>Staying within the buffer\<close>

definition tame :: "'a reading \<Rightarrow> bool" where
  "tame p \<longleftrightarrow> (\<forall>r x r'. rd_offset r \<le> length (rd_data r) \<longrightarrow> p r = Inr (x, r') \<longrightarrow>
     rd_data r' = rd_data r \<and> rd_offset r \<le> rd_offset r' \<and> rd_offset r' \<le> length (rd_data r))"

lemma tameD:
  "tame p \<Longrightarrow> p r = Inr (x, r') \<Longrightarrow> rd_offset r \<le> length (rd_data r) \<Longrightarrow>
   rd_data r' = rd_data r \<and> rd_offset r \<le> rd_offset r' \<and> rd_offset r' \<le> length (rd_data r)"
  unfolding tame_def by blast

lemma tame_rreturn [tame_intros]: "tame (rreturn x)"
  by (simp add: tame_def rreturn_def)

lemma tame_rfail [tame_intros]: "tame (rfail e)"
  by (simp add: tame_def rfail_def)

lemma rbind_Inr: "rbind p f r = Inr (y, r'') \<Longrightarrow> \<exists>x r'. p r = Inr (x, r') \<and> f x r' = Inr (y, r'')"
  by (auto simp: rbind_def split: sum.splits)

lemma tame_rbind [tame_intros]:
  assumes "tame p" and "\<And>x. tame (f x)"
  shows "tame (rbind p f)"
  unfolding tame_def
proof (intro allI impI)
  fix r y r''
  assume r: "rd_offset r \<le> length (rd_data r)" and "rbind p f r = Inr (y, r'')"
  then obtain x r' where p: "p r = Inr (x, r')" and f: "f x r' = Inr (y, r'')"
    using rbind_Inr [of p f r y r''] by blast
  have "rd_data r' = rd_data r \<and> rd_offset r \<le> rd_offset r' \<and> rd_offset r' \<le> length (rd_data r)"
    using tameD [of p r x r'] assms(1) p r by blast
  moreover from this have "rd_data r'' = rd_data r' \<and> rd_offset r' \<le> rd_offset r''
      \<and> rd_offset r'' \<le> length (rd_data r')"
    using tameD [of "f x" r' y r''] assms(2) f by simp
  ultimately show "rd_data r'' = rd_data r \<and> rd_offset r \<le> rd_offset r''
      \<and> rd_offset r'' \<le> length (rd_data r)" by simp
qed

lemma tame_read_op:
  assumes "\<And>r x r'. p r = Inr (x, r') \<Longrightarrow> \<exists>n \<le> length (rest r). r' = advance n r"
  shows "tame p"
  unfolding tame_def
proof (intro allI impI)
  fix r x r' assume r: "rd_offset r \<le> length (rd_data r)" and "p r = Inr (x, r')"
  with assms obtain n where "n \<le> length (rest r)" "r' = advance n r" by blast
  with r show "rd_data r' = rd_data r \<and> rd_offset r \<le> rd_offset r' \<and> rd_offset r' \<le> length (rd_data r)"
    by (simp add: rest_def)
qed

lemma tame_if [tame_intros]: "tame p \<Longrightarrow> tame q \<Longrightarrow> tame (if c then p else q)"
  by simp

lemma tame_fixed [tame_intros]:
  shows "tame read_int8" and "tame read_int16" and "tame read_int32" and "tame read_int64"
    and "tame (read_bytes n)" and "tame (skip n)"
proof -
  have fixed: "tame (\<lambda>r. if remaining r < k then Inl message_size else Inr (g r, advance k r))"
    for k and g :: "byte_reader \<Rightarrow> 'b"
    by (rule tame_read_op) (auto simp: remaining_eq not_less split: if_splits)
  show "tame read_int8" "tame read_int16" "tame read_int32" "tame read_int64"
    "tame (read_bytes n)" "tame (skip n)"
    using fixed [of 1] fixed [of 2] fixed [of 4] fixed [of 8] fixed [of n]
    by (simp_all add: read_op_defs [abs_def] fun_eq_iff)
qed

lemma tame_variable [tame_intros]:
  shows "tame read_varint" and "tame skip_varint" and "tame read_compact_string"
    and "tame read_svarint"
proof -
  show "tame read_varint"
    by (rule tame_read_op) (auto simp: read_varint_def split: sum.splits
        dest: read_unsigned_varint_size)
  show "tame skip_varint"
    by (rule tame_read_op) (auto simp: skip_varint_def split: sum.splits
        dest: read_unsigned_varint_size)
  show "tame read_compact_string"
    by (rule tame_read_op) (auto simp: read_compact_string_def Let_def split: sum.splits
        dest: read_compact_string_view_length)
  show "tame read_svarint"
    by (rule tame_read_op) (auto simp: read_svarint_def read_signed_varint_def
        signed_varint_encoded_size_def split: sum.splits dest: read_unsigned_varint_size)
qed

lemma tame_read_times [tame_intros]: "tame p \<Longrightarrow> tame (read_times n p)"
  by (induction n) (auto intro!: tame_intros)

section \<open>More bytes behind the input\<close>

definition with_suffix :: "bytes \<Rightarrow> byte_reader \<Rightarrow> byte_reader" where
  "with_suffix ext r = r\<lparr>rd_data := rd_data r @ ext\<rparr>"

definition prefix_stable :: "'a reading \<Rightarrow> bool" where
  "prefix_stable p \<longleftrightarrow> (\<forall>r x r' ext. p r = Inr (x, r') \<longrightarrow> rd_offset r \<le> length (rd_data r) \<longrightarrow>
     p (with_suffix ext r) = Inr (x, with_suffix ext r'))"

definition well_behaved :: "'a reading \<Rightarrow> bool" where
  "well_behaved p \<longleftrightarrow> tame p \<and> prefix_stable p"

lemma with_suffix_advance [simp]: "with_suffix ext (advance n r) = advance n (with_suffix ext r)"
  by (simp add: with_suffix_def advance_def)

lemma rest_with_suffix [simp]:
  "rd_offset r \<le> length (rd_data r) \<Longrightarrow> rest (with_suffix ext r) = rest r @ ext"
  by (simp add: rest_def with_suffix_def)

lemma with_suffix_ByteReader: "with_suffix ext (ByteReader d) = ByteReader (d @ ext)"
  by (simp add: with_suffix_def ByteReader_def)

lemma well_behaved_rreturn [tame_intros]: "well_behaved (rreturn x)"
  by (simp add: well_behaved_def prefix_stable_def tame_intros) (simp add: rreturn_def)

lemma well_behaved_rfail [tame_intros]: "well_behaved (rfail e)"
  by (simp add: well_behaved_def prefix_stable_def tame_intros) (simp add: rfail_def)

lemma well_behaved_rbind [tame_intros]:
  assumes "well_behaved p" and "\<And>x. well_behaved (f x)"
  shows "well_behaved (rbind p f)"
proof -
  have "rbind p f (with_suffix ext r) = Inr (y, with_suffix ext r'')"
    if "rbind p f r = Inr (y, r'')" and r: "rd_offset r \<le> length (rd_data r)" for r y r'' ext
  proof -
    from that(1) obtain x r' where p: "p r = Inr (x, r')" and f: "f x r' = Inr (y, r'')"
      using rbind_Inr [of p f r y r''] by blast
    have "rd_offset r' \<le> length (rd_data r')"
      using tameD [of p r x r'] p r assms(1) by (simp add: well_behaved_def)
    with p f r assms show ?thesis
      by (simp add: well_behaved_def prefix_stable_def rbind_def)
  qed
  with assms show ?thesis
    by (simp add: well_behaved_def prefix_stable_def tame_rbind)
qed

lemma well_behaved_if [tame_intros]:
  "well_behaved p \<Longrightarrow> well_behaved q \<Longrightarrow> well_behaved (if c then p else q)"
  by simp

lemma well_behaved_fixed [tame_intros]:
  shows "well_behaved read_int8" and "well_behaved read_int16" and "well_behaved read_int32"
    and "well_behaved read_int64" and "well_behaved (read_bytes n)" and "well_behaved (skip n)"
  by (auto simp: well_behaved_def tame_fixed prefix_stable_def read_op_defs remaining_eq nth_append
      split: if_splits)

lemma well_behaved_variable [tame_intros]:
  shows "well_behaved read_varint" and "well_behaved skip_varint"
    and "well_behaved read_compact_string" and "well_behaved read_svarint"
  by (auto simp: well_behaved_def tame_variable prefix_stable_def read_op_defs
      read_signed_varint_def Let_def read_unsigned_varint_append read_compact_string_view_more
      split: sum.splits)

lemma well_behaved_read_times [tame_intros]: "well_behaved p \<Longrightarrow> well_behaved (read_times n p)"
  by (induction n) (auto intro!: tame_intros)

section \<open>Encodings that a reader operation decodes\<close>

text \<open>
  The contract between an encoding and the operation that reads it. Its consequences are proved
  once here and hold for every primitive of the wire format through the interpretations below.
\<close>

locale codec =
  fixes enc :: "'a \<Rightarrow> bytes" and dec :: "'a reading" and valid :: "'a \<Rightarrow> bool"
  assumes decodes: "valid x \<Longrightarrow> reads dec (enc x) x"
    and behaves: "well_behaved dec"
begin

lemma decodes_buffer:
  "valid x \<Longrightarrow> dec (ByteReader (enc x @ ext)) = Inr (x, advance (length (enc x)) (ByteReader (enc x @ ext)))"
  using decodes by (intro readsD) auto

lemma prefix_free:
  assumes "valid x" and "valid y" and "enc x @ a = enc y @ b"
  shows "x = y \<and> a = b"
proof -
  from decodes_buffer [OF assms(1), of a] decodes_buffer [OF assms(2), of b] assms(3)
  have "x = y" by simp
  with assms(3) show ?thesis by simp
qed

lemma decodes_list:
  "list_all valid xs \<Longrightarrow> reads (read_times (length xs) dec) (concat (map enc xs)) xs"
  by (rule reads_times) (auto simp: list_all_iff decodes)

lemma list_injective:
  assumes "list_all valid xs" and "list_all valid ys" and "length xs = length ys"
    and "concat (map enc xs) = concat (map enc ys)"
  shows "xs = ys"
proof -
  have "read_times (length xs) dec (ByteReader (concat (map enc xs)))
      = Inr (xs, advance (length (concat (map enc xs))) (ByteReader (concat (map enc xs))))"
    by (rule readsD [OF decodes_list [OF assms(1)], where ext = "[]"]) simp
  moreover have "read_times (length ys) dec (ByteReader (concat (map enc ys)))
      = Inr (ys, advance (length (concat (map enc ys))) (ByteReader (concat (map enc ys))))"
    by (rule readsD [OF decodes_list [OF assms(2)], where ext = "[]"]) simp
  ultimately show ?thesis unfolding assms(3,4) by simp
qed

end

interpretation int8: codec "\<lambda>b. [b]" read_int8 "\<lambda>_. True"
  by unfold_locales (simp_all add: reads_intros tame_intros)

interpretation int16: codec write_int16_be read_int16 "\<lambda>_. True"
  by unfold_locales (simp_all add: reads_intros tame_intros)

interpretation int32: codec write_int32_be read_int32 "\<lambda>_. True"
  by unfold_locales (simp_all add: reads_intros tame_intros)

interpretation int64: codec write_int64_be read_int64 "\<lambda>_. True"
  by unfold_locales (simp_all add: reads_intros tame_intros)

interpretation varint: codec write_unsigned_varint read_varint "\<lambda>v. unat v < 2 ^ 28"
  by unfold_locales (simp_all add: reads_intros tame_intros)

interpretation svarint: codec write_signed_varint read_svarint
  "\<lambda>v. - (2 ^ 27) \<le> sint v \<and> sint v < 2 ^ 27"
  by unfold_locales (simp_all add: reads_intros tame_intros)

interpretation cstring: codec "\<lambda>s. compact_string (bytes_of_chars s)" read_compact_string
  "\<lambda>s. length s < 2 ^ 28 - 1"
  by unfold_locales (simp_all add: reads_intros tame_intros)

end
