(* ===== verification/Record_Batch.thy ===== *)
theory Record_Batch
  imports Byte_Reader
begin

text \<open>
  The record-batch format of \<open>src/src/util/record_batch.hpp\<close>: the parser of one batch, the loop
  over a sequence of batches, and the function that reads the number of records from the header of
  a batch. A batch whose header announces a negative number of records makes
  \<open>values.reserve(static_cast<size_t>(record_count))\<close> throw.
\<close>

section \<open>One batch\<close>

text \<open>\<open>if (len > 0) reader.read_bytes(len)\<close>.\<close>

definition read_signed_bytes :: "int32_t \<Rightarrow> bytes reading" where
  "read_signed_bytes len = (if 0 <s len then read_bytes (size_of_signed len) else rreturn [])"

definition parse_record_header :: "unit reading" where
  "parse_record_header =
     rbind read_svarint (\<lambda>key_len.
     rbind (read_signed_bytes key_len) (\<lambda>_.
     rbind read_svarint (\<lambda>val_len.
     rbind (read_signed_bytes val_len) (\<lambda>_. rreturn ()))))"

definition parse_record_fields :: "bytes reading" where
  "parse_record_fields =
     rbind read_int8 (\<lambda>attrs.
     rbind read_svarint (\<lambda>timestamp_delta.
     rbind read_svarint (\<lambda>offset_delta.
     rbind read_svarint (\<lambda>key_len.
     rbind (read_signed_bytes key_len) (\<lambda>key.
     rbind read_svarint (\<lambda>value_len.
     rbind (read_signed_bytes value_len) (\<lambda>val.
     rbind read_varint (\<lambda>headers_count.
     rbind (if 0 < headers_count then read_times (unat (headers_count - 1)) parse_record_header
            else rreturn []) (\<lambda>_.
     rreturn val)))))))))"

text \<open>One round of the loop over the records; \<open>None\<close> is a \<open>continue\<close> that pushes no value.\<close>

definition parse_record :: "bytes option reading" where
  "parse_record =
     rbind read_svarint (\<lambda>body_size.
     if body_size \<le>s 0 then rreturn None
     else rbind parse_record_fields (\<lambda>val. rreturn (Some val)))"

text \<open>The header of a batch up to the number of records, and the rest of it.\<close>

definition parse_batch_header :: "int32_t reading" where
  "parse_batch_header =
     rbind read_int64 (\<lambda>base_offset.
     rbind read_int32 (\<lambda>batch_length.
     rbind read_int32 (\<lambda>partition_leader_epoch.
     rbind read_int8 (\<lambda>magic.
     if magic \<noteq> 2 then rfail protocol_not_supported
     else
       rbind read_int32 (\<lambda>crc.
       rbind read_int16 (\<lambda>attributes.
       rbind read_int32 (\<lambda>last_offset_delta.
       rbind read_int64 (\<lambda>base_timestamp.
       rbind read_int64 (\<lambda>max_timestamp.
       rbind read_int64 (\<lambda>producer_id.
       rbind read_int16 (\<lambda>producer_epoch.
       rbind read_int32 (\<lambda>base_sequence.
       rreturn last_offset_delta))))))))))))"

definition parse_batch_records :: "int32_t \<Rightarrow> bytes list reading" where
  "parse_batch_records record_count =
     (if record_count <s 0 then rfail length_error
      else rbind (read_times (nat (sint record_count)) parse_record)
             (\<lambda>vs. rreturn (List.map_filter id vs)))"

definition single_record_batch :: "bytes list reading" where
  "single_record_batch =
     rbind parse_batch_header (\<lambda>last_offset_delta. parse_batch_records (last_offset_delta + 1))"

definition parse_single_record_batch :: "bytes \<Rightarrow> bytes list expected" where
  "parse_single_record_batch data =
     (case single_record_batch (ByteReader data) of Inl e \<Rightarrow> Inl e | Inr (vs, r) \<Rightarrow> Inr vs)"

section \<open>A sequence of batches\<close>

text \<open>A failure after the first record keeps what was parsed; before it, the error is returned.
  An exception is returned always.\<close>

definition give_up :: "errc \<Rightarrow> bytes list \<Rightarrow> bytes list expected" where
  "give_up e all_values =
     (if all_values = [] \<or> e = length_error then Inl e else Inr all_values)"

function parse_batches :: "bytes \<Rightarrow> size_t \<Rightarrow> bytes list \<Rightarrow> bytes list expected" where
  "parse_batches data offset all_values =
     (if offset + 12 \<le> length data then
        (case rbind read_int64 (\<lambda>_. read_int32) (ByteReader (drop offset data)) of
           Inl _ \<Rightarrow> give_up message_size all_values
         | Inr (header_bl, _) \<Rightarrow>
             if header_bl <s 0 then give_up message_size all_values
             else
               let batch_size = 12 + size_of_signed header_bl in
               if offset + batch_size > length data then give_up message_size all_values
               else
                 (case parse_single_record_batch (take batch_size (drop offset data)) of
                    Inl e \<Rightarrow> give_up e all_values
                  | Inr vs \<Rightarrow> parse_batches data (offset + batch_size) (all_values @ vs)))
      else give_up message_size all_values)"
  by pat_completeness auto
termination
  by (relation "measure (\<lambda>(data, offset, _). length data - offset)") auto

declare parse_batches.simps [simp del]

definition parse_record_batch :: "bytes \<Rightarrow> bytes list expected" where
  "parse_record_batch data = parse_batches data 0 []"

section \<open>The number of records\<close>

text \<open>
  The reads before the magic byte cannot fail once the size is checked; their results are dropped.
\<close>

definition record_batch_count :: "bytes \<Rightarrow> int32_t expected" where
  "record_batch_count data =
     (if length data < 28 then Inl message_size
      else
        let r = ByteReader data;
            r1 = (case read_int64 r of Inl _ \<Rightarrow> r | Inr (_, r') \<Rightarrow> r');
            r2 = (case read_int32 r1 of Inl _ \<Rightarrow> r1 | Inr (_, r') \<Rightarrow> r');
            r3 = (case read_int32 r2 of Inl _ \<Rightarrow> r2 | Inr (_, r') \<Rightarrow> r')
        in (case read_int8 r3 of
              Inl _ \<Rightarrow> Inl protocol_not_supported
            | Inr (magic, r4) \<Rightarrow>
                if magic \<noteq> 2 then Inl protocol_not_supported
                else
                  let r5 = (case read_int32 r4 of Inl _ \<Rightarrow> r4 | Inr (_, r') \<Rightarrow> r');
                      r6 = (case read_int16 r5 of Inl _ \<Rightarrow> r5 | Inr (_, r') \<Rightarrow> r')
                  in (case read_int32 r6 of Inl e \<Rightarrow> Inl e | Inr (d, _) \<Rightarrow> Inr (d + 1))))"

section \<open>Bounds and agreement\<close>

lemma well_behaved_read_signed_bytes [tame_intros]: "well_behaved (read_signed_bytes len)"
  unfolding read_signed_bytes_def by (intro tame_intros)

lemma well_behaved_parse_record_header [tame_intros]: "well_behaved parse_record_header"
  unfolding parse_record_header_def by (intro tame_intros)

lemma well_behaved_parse_record [tame_intros]: "well_behaved parse_record"
  unfolding parse_record_def parse_record_fields_def by (intro tame_intros)

lemma well_behaved_single_record_batch: "well_behaved single_record_batch"
  unfolding single_record_batch_def parse_batch_header_def parse_batch_records_def
  by (intro tame_intros)

lemma single_record_batch_bounds:
  "single_record_batch (ByteReader data) = Inr (vs, r) \<Longrightarrow> rd_data r = data \<and> rd_offset r \<le> length data"
  using well_behaved_single_record_batch tameD [of single_record_batch "ByteReader data" vs r]
  by (simp add: well_behaved_def ByteReader_def)

text \<open>Where the fields of the header stand.\<close>

definition magic_at :: "bytes \<Rightarrow> uint8_t" where
  "magic_at data = data ! 16"

definition last_offset_delta_at :: "bytes \<Rightarrow> int32_t" where
  "last_offset_delta_at data = decode_int32_be (take 4 (drop 23 data))"

lemma read_enough:
  "1 \<le> length (rest r) \<Longrightarrow> read_int8 r = Inr (rest r ! 0, advance 1 r)"
  "2 \<le> length (rest r) \<Longrightarrow> read_int16 r = Inr (decode_int16_be (take 2 (rest r)), advance 2 r)"
  "4 \<le> length (rest r) \<Longrightarrow> read_int32 r = Inr (decode_int32_be (take 4 (rest r)), advance 4 r)"
  "8 \<le> length (rest r) \<Longrightarrow> read_int64 r = Inr (decode_int64_be (take 8 (rest r)), advance 8 r)"
  by (auto simp: read_op_defs remaining_eq)

lemma record_batch_count_eq:
  "record_batch_count data =
     (if length data < 28 then Inl message_size
      else if magic_at data \<noteq> 2 then Inl protocol_not_supported
      else Inr (last_offset_delta_at data + 1))"
proof (cases "length data < 28")
  case False
  then have "28 \<le> length data" by simp
  then show ?thesis
    by (simp add: record_batch_count_def Let_def read_enough magic_at_def last_offset_delta_at_def)
qed (simp add: record_batch_count_def)

lemma parse_batch_header_eq:
  "57 \<le> length data \<Longrightarrow>
   parse_batch_header (ByteReader data) =
     (if magic_at data \<noteq> 2 then Inl protocol_not_supported
      else Inr (last_offset_delta_at data, advance 57 (ByteReader data)))"
  by (simp add: parse_batch_header_def rbind_def rreturn_def rfail_def read_enough
      magic_at_def last_offset_delta_at_def)

lemma parse_batch_header_short:
  "length data < 57 \<Longrightarrow> \<exists>e. parse_batch_header (ByteReader data) = Inl e"
  by (auto simp: parse_batch_header_def rbind_def rreturn_def rfail_def read_op_defs remaining_eq)

lemma length_map_filter_le: "length (List.map_filter f xs) \<le> length xs"
  by (induction xs) (auto simp: map_filter_simps split: option.splits)

lemma read_times_length: "read_times n p r = Inr (xs, r') \<Longrightarrow> length xs = n"
proof (induction n arbitrary: r xs r')
  case (Suc n)
  then show ?case by (auto simp: rreturn_def dest!: rbind_Inr)
qed (simp add: rreturn_def)

lemma parse_batch_records_length:
  "parse_batch_records n r = Inr (vs, r') \<Longrightarrow> 0 \<le> sint n \<and> int (length vs) \<le> sint n"
proof -
  assume p: "parse_batch_records n r = Inr (vs, r')"
  then have "0 \<le> sint n" by (auto simp: parse_batch_records_def rfail_def word_sless_alt split: if_splits)
  moreover obtain xs where "length xs = nat (sint n)" "vs = List.map_filter id xs"
    using p by (auto simp: parse_batch_records_def rfail_def rreturn_def split: if_splits
        dest!: rbind_Inr read_times_length)
  ultimately show ?thesis using length_map_filter_le [of id xs] by simp
qed

text \<open>
  The number the partition log counts with is the one the parser iterates over, and bounds the
  number of values.
\<close>

text \<open>The record count that a produce reads from the header, and by which it advances the next
  offset of the partition, is at least the number of values a complete parse of the batch
  yields.\<close>

lemma count_agrees:
  assumes "parse_single_record_batch data = Inr vs"
  shows "\<exists>n. record_batch_count data = Inr n \<and> int (length vs) \<le> sint n"
proof -
  obtain r where "single_record_batch (ByteReader data) = Inr (vs, r)"
    using assms by (auto simp: parse_single_record_batch_def split: sum.splits)
  then obtain d r1 where h: "parse_batch_header (ByteReader data) = Inr (d, r1)"
    and rs: "parse_batch_records (d + 1) r1 = Inr (vs, r)"
    by (auto simp: single_record_batch_def dest!: rbind_Inr)
  have "57 \<le> length data" using h parse_batch_header_short [of data] by (force simp: not_less [symmetric])
  with h have "magic_at data = 2" "d = last_offset_delta_at data"
    by (auto simp: parse_batch_header_eq split: if_splits)
  with \<open>57 \<le> length data\<close> parse_batch_records_length [OF rs] show ?thesis
    by (simp add: record_batch_count_eq)
qed

text \<open>C38: A batch header whose last offset delta is below minus one has a negative record count.
  The counting function that guards a produce accepts it, while the parser that later reads the
  batch for a ranged fetch throws (the \<open>reserve\<close> of a negative count).\<close>

theorem negative_count_throws:
  assumes "57 \<le> length data" and "magic_at data = 2" and "last_offset_delta_at data + 1 <s 0"
  shows "record_batch_count data = Inr (last_offset_delta_at data + 1) \<and>
    parse_single_record_batch data = Inl length_error"
  using assms
  by (simp add: parse_single_record_batch_def single_record_batch_def rbind_def
      parse_batch_header_eq parse_batch_records_def rfail_def record_batch_count_eq)

theorem negative_count_throws_witness:
  "record_batch_count (replicate 16 0 @ [2] @ replicate 6 0 @ [0xFF, 0xFF, 0xFF, 0xF0] @ replicate 30 0)
       = Inr (- 15) \<and>
   parse_single_record_batch
     (replicate 16 0 @ [2] @ replicate 6 0 @ [0xFF, 0xFF, 0xFF, 0xF0] @ replicate 30 0) = Inl length_error"
proof -
  let ?data = "replicate 16 0 @ [2] @ replicate 6 0 @ [0xFF, 0xFF, 0xFF, 0xF0] @ replicate 30 0 :: bytes"
  have "magic_at ?data = 2" "last_offset_delta_at ?data = - 16" by code_simp+
  with negative_count_throws [of ?data] show ?thesis by (simp add: word_sless_alt)
qed

section \<open>The format, and reading it back\<close>

text \<open>
  A batch as a producer writes it: the fields of the header and records with an optional key and a
  value. Records without headers carry the count zero.
\<close>

record batch_record =
  br_key :: "bytes option"
  br_value :: bytes

record record_batch =
  rb_base_offset :: int64_t
  rb_leader_epoch :: int32_t
  rb_crc :: int32_t
  rb_attributes :: int16_t
  rb_base_timestamp :: int64_t
  rb_max_timestamp :: int64_t
  rb_producer_id :: int64_t
  rb_producer_epoch :: int16_t
  rb_base_sequence :: int32_t
  rb_records :: "batch_record list"

definition enc_sized :: "bytes \<Rightarrow> bytes" where
  "enc_sized bs = write_signed_varint (word_of_nat (length bs)) @ bs"

definition enc_record_fields :: "nat \<times> batch_record \<Rightarrow> bytes" where
  "enc_record_fields ir =
     [0] @ write_signed_varint 0 @ write_signed_varint (word_of_nat (fst ir))
       @ (case br_key (snd ir) of None \<Rightarrow> write_signed_varint (- 1) | Some k \<Rightarrow> enc_sized k)
       @ enc_sized (br_value (snd ir)) @ write_unsigned_varint 0"

definition enc_record :: "nat \<times> batch_record \<Rightarrow> bytes" where
  "enc_record ir = enc_sized (enc_record_fields ir)"

definition enc_batch_body :: "record_batch \<Rightarrow> bytes" where
  "enc_batch_body b =
     write_int32_be (rb_leader_epoch b) @ [2] @ write_int32_be (rb_crc b)
       @ write_int16_be (rb_attributes b) @ write_int32_be (word_of_nat (length (rb_records b)) - 1)
       @ write_int64_be (rb_base_timestamp b) @ write_int64_be (rb_max_timestamp b)
       @ write_int64_be (rb_producer_id b) @ write_int16_be (rb_producer_epoch b)
       @ write_int32_be (rb_base_sequence b)
       @ concat (map enc_record (enumerate 0 (rb_records b)))"

definition enc_batch :: "record_batch \<Rightarrow> bytes" where
  "enc_batch b =
     write_int64_be (rb_base_offset b) @ write_int32_be (word_of_nat (length (enc_batch_body b)))
       @ enc_batch_body b"

text \<open>Sizes that keep every varint in the readable range and the batch length positive.\<close>

definition batch_ok :: "record_batch \<Rightarrow> bool" where
  "batch_ok b \<longleftrightarrow>
     length (rb_records b) < 2 ^ 26 \<and> length (enc_batch_body b) < 2 ^ 31 \<and>
     list_all (\<lambda>r. length (br_value r) < 2 ^ 25 \<and>
       (case br_key r of None \<Rightarrow> True | Some k \<Rightarrow> length k < 2 ^ 25)) (rb_records b)"

lemma reads_size:
  "n < 2 ^ 27 \<Longrightarrow> reads read_svarint (write_signed_varint (word_of_nat n)) (word_of_nat n)"
  by (rule reads_svarint) (simp_all add: sint_word_of_nat)

lemma reads_signed_bytes:
  "length bs < 2 ^ 31 \<Longrightarrow> reads (read_signed_bytes (word_of_nat (length bs))) bs bs"
  unfolding read_signed_bytes_def
  by (auto simp: sless_word_of_nat size_of_signed_word_of_nat intro!: reads_bytes reads_rreturn)

lemma reads_enc_sized:
  assumes "length bs < 2 ^ 27"
    and "reads (f (word_of_nat (length bs)) bs) cs y"
  shows "reads (rbind read_svarint (\<lambda>n. rbind (read_signed_bytes n) (f n))) (enc_sized bs @ cs) y"
proof -
  have "reads (read_signed_bytes (word_of_nat (length bs))) bs bs"
    using assms(1) by (intro reads_signed_bytes) simp
  then show ?thesis
    unfolding enc_sized_def append_assoc
    using assms(2) by (intro reads_rbind [OF reads_size [OF assms(1)]] reads_rbind)
qed

lemma length_svarint: "length (write_signed_varint v) \<le> 5"
  using varint_encoded_size_le [of "zigzag_encode v" 4] unsigned_less [of "zigzag_encode v", where ?'a = nat]
  by (simp add: write_signed_varint_def)

lemma reads_no_key:
  assumes "reads (f (- 1) []) cs y"
  shows "reads (rbind read_svarint (\<lambda>n. rbind (read_signed_bytes n) (f n)))
    (write_signed_varint (- 1) @ cs) y"
proof -
  have "reads (rbind (read_signed_bytes (- 1)) (f (- 1))) ([] @ cs) y"
    by (rule reads_rbind [of _ _ "[]"])
      (simp_all add: assms read_signed_bytes_def word_sless_alt reads_rreturn)
  moreover have "reads read_svarint (write_signed_varint (- 1)) (- 1)"
    by (rule reads_svarint) simp_all
  ultimately show ?thesis by (intro reads_rbind) simp_all
qed

lemma reads_no_headers:
  "reads (rbind read_varint (\<lambda>headers_count.
       rbind (if 0 < headers_count then read_times (unat (headers_count - 1)) parse_record_header
              else rreturn []) (\<lambda>_. rreturn v))) (write_unsigned_varint 0) v"
  by (rule reads_rbind_last, rule reads_varint) (simp_all add: reads_rreturn)

lemma reads_record_fields:
  assumes "i < 2 ^ 26" and "length (br_value r) < 2 ^ 25"
    and "case br_key r of None \<Rightarrow> True | Some k \<Rightarrow> length k < 2 ^ 25"
  shows "reads parse_record_fields (enc_record_fields (i, r)) (br_value r)"
proof -
  have zero: "reads read_svarint (write_signed_varint 0) 0" by (rule reads_svarint) simp_all
  have delta: "reads read_svarint (write_signed_varint (word_of_nat i)) (word_of_nat i)"
    using assms(1) by (intro reads_size) simp
  show ?thesis
    unfolding parse_record_fields_def enc_record_fields_def fst_conv snd_conv
    apply (rule reads_rbind [OF reads_int8], rule reads_rbind [OF zero], rule reads_rbind [OF delta])
    using assms
    by (cases "br_key r") (auto intro!: reads_no_key reads_enc_sized reads_no_headers)
qed

lemma length_record_fields:
  assumes "length (br_value r) < 2 ^ 25"
    and "case br_key r of None \<Rightarrow> True | Some k \<Rightarrow> length k < 2 ^ 25"
  shows "length (enc_record_fields (i, r)) < 2 ^ 27"
  using assms length_svarint [of 0] length_svarint [of "word_of_nat i"] length_svarint [of "- 1"]
    length_svarint [of "word_of_nat (length (br_value r))"] varint_encoded_size_le [of 0 0]
    length_svarint [of "word_of_nat (length (the (br_key r)))"]
  by (auto simp: enc_record_fields_def enc_sized_def split: option.splits)

lemma reads_record:
  assumes "i < 2 ^ 26" and "length (br_value r) < 2 ^ 25"
    and "case br_key r of None \<Rightarrow> True | Some k \<Rightarrow> length k < 2 ^ 25"
  shows "reads parse_record (enc_record (i, r)) (Some (br_value r))"
proof -
  let ?n = "length (enc_record_fields (i, r))"
  have len: "?n < 2 ^ 27" using length_record_fields assms(2,3) by blast
  have "0 < ?n" by (simp add: enc_record_fields_def)
  then have pos: "\<not> (word_of_nat ?n :: int32_t) \<le>s 0"
    using len by (simp add: word_sle_eq sint_word_of_nat)
  have "enc_record (i, r) = write_signed_varint (word_of_nat ?n) @ enc_record_fields (i, r)"
    by (simp only: enc_record_def enc_sized_def)
  moreover have "reads (rbind parse_record_fields (\<lambda>val. rreturn (Some val)))
      (enc_record_fields (i, r)) (Some (br_value r))"
    using reads_record_fields [OF assms] reads_rreturn by (rule reads_rbind_last)
  ultimately show ?thesis
    unfolding parse_record_def using pos by (auto intro!: reads_rbind [OF reads_size [OF len]])
qed

definition batch_values :: "record_batch \<Rightarrow> bytes list" where
  "batch_values b = map br_value (rb_records b)"

lemma map_filter_Some: "List.map_filter id (map (\<lambda>x. Some (f x)) xs) = map f xs"
  by (induction xs) (simp_all add: map_filter_simps)

lemma reads_batch_records:
  assumes "batch_ok b"
  shows "reads (parse_batch_records (word_of_nat (length (rb_records b))))
    (concat (map enc_record (enumerate 0 (rb_records b)))) (batch_values b)"
proof -
  let ?rs = "enumerate 0 (rb_records b)"
  have n: "length (rb_records b) < 2 ^ 26" using assms by (simp add: batch_ok_def)
  have "reads (read_times (length (rb_records b)) parse_record) (concat (map enc_record ?rs))
      (map (\<lambda>ir. Some (br_value (snd ir))) ?rs)"
  proof (rule reads_times_map)
    fix ir assume "ir \<in> set ?rs"
    moreover obtain i r where ir: "ir = (i, r)" by fastforce
    ultimately have "i < length (rb_records b)" "r \<in> set (rb_records b)"
      by (auto simp: in_set_enumerate_eq)
    with assms have "i < 2 ^ 26" "length (br_value r) < 2 ^ 25"
      "case br_key r of None \<Rightarrow> True | Some k \<Rightarrow> length k < 2 ^ 25"
      by (auto simp: batch_ok_def list_all_iff)
    then show "reads parse_record (enc_record ir) (Some (br_value (snd ir)))"
      unfolding ir snd_conv by (rule reads_record)
  qed simp
  then have "reads (rbind (read_times (length (rb_records b)) parse_record)
      (\<lambda>vs. rreturn (List.map_filter id vs))) (concat (map enc_record ?rs))
      (List.map_filter id (map (\<lambda>ir. Some (br_value (snd ir))) ?rs))"
    by (rule reads_rbind_last) (rule reads_rreturn)
  moreover have "List.map_filter id (map (\<lambda>ir. Some (br_value (snd ir))) ?rs) = batch_values b"
    unfolding map_filter_Some batch_values_def by (rule nth_equalityI) (simp_all add: nth_enumerate_eq)
  ultimately show ?thesis
    using n by (simp add: parse_batch_records_def word_sless_alt sint_word_of_nat)
qed

lemma reads_batch:
  assumes "batch_ok b"
  shows "reads single_record_batch (enc_batch b) (batch_values b)"
proof -
  let ?n = "word_of_nat (length (rb_records b)) :: int32_t"
  have "reads parse_batch_header
     (write_int64_be (rb_base_offset b) @ write_int32_be (word_of_nat (length (enc_batch_body b)))
      @ write_int32_be (rb_leader_epoch b) @ [2] @ write_int32_be (rb_crc b)
       @ write_int16_be (rb_attributes b) @ write_int32_be (?n - 1)
       @ write_int64_be (rb_base_timestamp b) @ write_int64_be (rb_max_timestamp b)
       @ write_int64_be (rb_producer_id b) @ write_int16_be (rb_producer_epoch b)
       @ write_int32_be (rb_base_sequence b)) (?n - 1)" (is "reads _ ?h _")
    unfolding parse_batch_header_def
    by (rule reads_rbind_last [OF _ reads_rreturn] reads_rbind reads_int8 reads_int16 reads_int32 reads_int64 | simp)+
  then have "reads single_record_batch (?h @ concat (map enc_record (enumerate 0 (rb_records b)))) (batch_values b)"
    unfolding single_record_batch_def by (rule reads_rbind) (simp add: reads_batch_records [OF assms])
  then show ?thesis by (simp add: enc_batch_def enc_batch_body_def)
qed

lemma parse_single_enc_batch: "batch_ok b \<Longrightarrow> parse_single_record_batch (enc_batch b) = Inr (batch_values b)"
  using readsD [OF reads_batch, of b "ByteReader (enc_batch b)" "[]"]
  by (simp add: parse_single_record_batch_def)

lemma length_enc_batch: "length (enc_batch b) = 12 + length (enc_batch_body b)"
  by (simp add: enc_batch_def)

text \<open>What the loop sees of the next batch, complete or cut short.\<close>

lemma batch_length_field:
  assumes "batch_ok b" and "rest r = take k (enc_batch b) @ ext" and "12 \<le> k" and "k \<le> length (enc_batch b)"
  shows "rbind read_int64 (\<lambda>_. read_int32) r =
    Inr (word_of_nat (length (enc_batch_body b)), advance 12 r)"
proof -
  have "take k (enc_batch b) @ ext = (write_int64_be (rb_base_offset b)
      @ write_int32_be (word_of_nat (length (enc_batch_body b)))) @ take (k - 12) (enc_batch_body b) @ ext"
    using assms(3) by (simp add: enc_batch_def)
  moreover have "reads (rbind read_int64 (\<lambda>_. read_int32)) (write_int64_be (rb_base_offset b)
      @ write_int32_be (word_of_nat (length (enc_batch_body b)))) (word_of_nat (length (enc_batch_body b)))"
    by (rule reads_rbind, rule reads_int64, rule reads_int32)
  ultimately show ?thesis using readsD assms(2) by fastforce
qed

lemma parse_batches_step:
  assumes "batch_ok b" and "drop offset data = enc_batch b @ ext"
  shows "parse_batches data offset vs =
    parse_batches data (offset + length (enc_batch b)) (vs @ batch_values b)"
proof -
  have "offset + length (enc_batch b) + length ext = length data"
    using arg_cong [OF assms(2), of length] by (simp add: length_enc_batch)
  moreover from this have "offset + 12 \<le> length data" by (simp add: length_enc_batch)
  moreover have "length (enc_batch_body b) < 2 ^ 31" using assms(1) by (simp add: batch_ok_def)
  moreover have "rbind read_int64 (\<lambda>_. read_int32) (ByteReader (drop offset data)) =
      Inr (word_of_nat (length (enc_batch_body b)), advance 12 (ByteReader (drop offset data)))"
    using assms by (intro batch_length_field [of b _ "length (enc_batch b)" ext]) (simp_all add: length_enc_batch)
  ultimately show ?thesis
    by (subst parse_batches.simps)
      (simp add: assms(2) word_sless_alt sint_word_of_nat size_of_signed_word_of_nat
        length_enc_batch [symmetric] parse_single_enc_batch [OF assms(1)])
qed

lemma parse_batches_torn:
  assumes "batch_ok b" and "drop offset data = take k (enc_batch b)" and "k < length (enc_batch b)"
  shows "parse_batches data offset vs = give_up message_size vs"
proof (cases "12 \<le> k")
  case True
  have len: "length data - offset = k" "length (enc_batch_body b) < 2 ^ 31"
    using arg_cong [OF assms(2), of length] assms(1,3) by (simp_all add: batch_ok_def)
  have "rbind read_int64 (\<lambda>_. read_int32) (ByteReader (drop offset data)) =
      Inr (word_of_nat (length (enc_batch_body b)), advance 12 (ByteReader (drop offset data)))"
    using assms True by (intro batch_length_field [of b _ k "[]"]) simp_all
  with len True assms(3) show ?thesis
    by (subst parse_batches.simps)
      (auto simp: Let_def word_sless_alt sint_word_of_nat size_of_signed_word_of_nat length_enc_batch)
next
  case False
  have "length data - offset = k" using arg_cong [OF assms(2), of length] assms(3) by simp
  with False have "\<not> offset + 12 \<le> length data" by simp
  then show ?thesis by (subst parse_batches.simps) simp
qed

lemma parse_batches_seq:
  assumes "list_all batch_ok bs" and "drop offset data = concat (map enc_batch bs) @ ext"
  shows "parse_batches data offset vs =
    parse_batches data (offset + length (concat (map enc_batch bs))) (vs @ concat (map batch_values bs))"
  using assms
proof (induction bs arbitrary: offset vs)
  case (Cons b bs)
  have "parse_batches data offset vs =
      parse_batches data (offset + length (enc_batch b)) (vs @ batch_values b)"
    using Cons.prems by (intro parse_batches_step [where ext = "concat (map enc_batch bs) @ ext"]) simp_all
  moreover have "drop (offset + length (enc_batch b)) data = concat (map enc_batch bs) @ ext"
    using Cons.prems(2) drop_drop [of "length (enc_batch b)" offset data] by (simp add: add.commute)
  ultimately show ?case using Cons by (simp add: add.assoc)
qed simp

lemma parse_record_batch_prefix:
  assumes "list_all batch_ok bs" and "batch_ok b" and "k < length (enc_batch b)"
    and "concat (map batch_values bs) \<noteq> []"
  shows "parse_record_batch (concat (map enc_batch bs) @ take k (enc_batch b)) =
    Inr (concat (map batch_values bs))"
proof -
  let ?data = "concat (map enc_batch bs) @ take k (enc_batch b)"
  have "parse_record_batch ?data =
      parse_batches ?data (length (concat (map enc_batch bs))) (concat (map batch_values bs))"
    using parse_batches_seq [OF assms(1), of 0 ?data] by (simp add: parse_record_batch_def)
  also have "\<dots> = give_up message_size (concat (map batch_values bs))"
    using assms(2,3) by (intro parse_batches_torn [where b = b]) simp_all
  finally show ?thesis using assms(4) by (simp add: give_up_def)
qed

text \<open>C16: Crash recovery of a log: a file that holds complete record batches followed by a batch
  cut short at an arbitrary byte (or by nothing) is read as the record values of the complete
  batches, in order; the torn tail is neither an error nor a source of values.\<close>

theorem record_log_recovery:
  assumes "list_all batch_ok bs" and "batch_ok b" and "k < length (enc_batch b)"
    and "concat (map batch_values bs) \<noteq> []"
  shows "parse_record_batch (concat (map enc_batch bs) @ take k (enc_batch b)) =
    Inr (concat (map batch_values bs))"
  using assms by (rule parse_record_batch_prefix)

definition sample_batch :: record_batch where
  "sample_batch = \<lparr>rb_base_offset = 0, rb_leader_epoch = 0, rb_crc = 0, rb_attributes = 0,
     rb_base_timestamp = 0, rb_max_timestamp = 0, rb_producer_id = - 1, rb_producer_epoch = - 1,
     rb_base_sequence = - 1,
     rb_records = [\<lparr>br_key = None, br_value = [1, 2]\<rparr>, \<lparr>br_key = Some [7], br_value = [3]\<rparr>]\<rparr>"

lemma sample_batch_ok: "batch_ok sample_batch"
proof -
  have "length (enc_batch_body sample_batch) = 63" by code_simp
  then show ?thesis by (simp add: batch_ok_def) (simp add: sample_batch_def)
qed

lemma sample_batch_length: "length (enc_batch sample_batch) = 75"
  by code_simp

lemma sample_batch_values: "batch_values sample_batch = [[1, 2], [3]]"
  by code_simp

theorem record_log_recovery_witness:
  "parse_record_batch (concat (map enc_batch [sample_batch, sample_batch]) @ take 70 (enc_batch sample_batch)) =
     Inr [[1, 2], [3], [1, 2], [3]]"
  using record_log_recovery [of "[sample_batch, sample_batch]" sample_batch 70]
  by (simp add: sample_batch_ok sample_batch_length sample_batch_values)

end
