(* ===== verification/Cluster_Metadata.thy ===== *)
theory Cluster_Metadata
  imports Interfaces Record_Batch Protocol
begin

text \<open>
  The cluster metadata of \<open>src/src/cluster/metadata.hpp\<close> and \<open>.cpp\<close>: the parser of the metadata
  log, which collects topic and partition records from record batches, and the tables built from
  them. The parser never fails as a whole: a read that fails inside a record ends that record
  (\<open>continue\<close>) with the reader where it stopped, and one that fails in a batch header ends the
  scan (\<open>break\<close>).
\<close>

section \<open>Data\<close>

definition kTopicRecordKey :: uint32_t where
  "kTopicRecordKey = 2"

definition kPartitionRecordKey :: uint32_t where
  "kPartitionRecordKey = 3"

definition kRecordBatchHeaderSize :: size_t where
  "kRecordBatchHeaderSize = 57"

definition kUuidSize :: size_t where
  "kUuidSize = 16"

record RawTopicRecord =
  rt_name :: string
  rt_uuid :: uuid

record RawPartitionRecord =
  rp_partition_id :: int32_t
  rp_uuid :: uuid

record raw_records =
  raw_topics :: "RawTopicRecord list"
  raw_partitions :: "RawPartitionRecord list"

record TopicInfo =
  ti_name :: string
  ti_uuid :: uuid
  ti_partitions :: "int32_t list"

record ClusterMetadata =
  cm_topics :: "TopicInfo list"
  cm_name_to_topic :: "string \<rightharpoonup> size_t"
  cm_uuid_to_topic :: "uuid \<rightharpoonup> size_t"

section \<open>Scanning the log\<close>

text \<open>\<open>auto x = reader.p(); if (!x) continue;\<close>: on failure the collected state and the reader stay
  as they are and the rest of the round is skipped.\<close>

definition attempt ::
    "'a reading \<Rightarrow> ('a \<Rightarrow> byte_reader \<Rightarrow> 's \<times> byte_reader) \<Rightarrow> 's \<Rightarrow> byte_reader \<Rightarrow> 's \<times> byte_reader" where
  "attempt p k s r = (case p r of Inl _ \<Rightarrow> (s, r) | Inr (x, r') \<Rightarrow> k x r')"

text \<open>\<open>if (len > 0) { skip(len) or continue }\<close>.\<close>

definition skip_signed :: "int32_t \<Rightarrow> unit reading" where
  "skip_signed len = (if 0 <s len then skip (size_of_signed len) else rreturn ())"

text \<open>What the value of a record adds to the collection. \<open>None\<close> is a \<open>continue\<close>.\<close>

definition metadata_value :: "bytes \<Rightarrow> raw_records \<Rightarrow> raw_records option" where
  "metadata_value val_span acc =
     (case rbind read_varint (\<lambda>frame_ver. rbind read_varint (\<lambda>api_key.
           rbind read_varint (\<lambda>version. rreturn api_key))) (ByteReader val_span) of
        Inl _ \<Rightarrow> None
      | Inr (val_api_key, r) \<Rightarrow>
          if val_api_key = kTopicRecordKey then
            (case rbind read_compact_string (\<lambda>name. rbind (read_bytes kUuidSize) (\<lambda>uuid.
                  rreturn \<lparr>rt_name = name, rt_uuid = uuid\<rparr>)) r of
               Inl _ \<Rightarrow> None
             | Inr (rec, _) \<Rightarrow> Some (acc\<lparr>raw_topics := raw_topics acc @ [rec]\<rparr>))
          else if val_api_key = kPartitionRecordKey then
            (if remaining r < 4 + kUuidSize then None
             else
               (case rbind read_int32 (\<lambda>pid. rbind (read_bytes kUuidSize) (\<lambda>uuid.
                     rreturn \<lparr>rp_partition_id = pid, rp_uuid = uuid\<rparr>)) r of
                  Inl _ \<Rightarrow> None
                | Inr (rec, _) \<Rightarrow> Some (acc\<lparr>raw_partitions := raw_partitions acc @ [rec]\<rparr>)))
          else Some acc)"

text \<open>The loop over the headers of a record; a failed read goes on with the next header.\<close>

definition skip_record_header :: "byte_reader \<Rightarrow> byte_reader" where
  "skip_record_header r = snd
     (attempt read_svarint (\<lambda>key_len.
        attempt (skip_signed key_len) (\<lambda>_.
        attempt read_svarint (\<lambda>val_len.
        attempt (skip_signed val_len) (\<lambda>_ r. ((), r)) ()) ()) ()) () r)"

fun skip_record_headers :: "nat \<Rightarrow> byte_reader \<Rightarrow> byte_reader" where
  "skip_record_headers 0 r = r"
| "skip_record_headers (Suc n) r = skip_record_headers n (skip_record_header r)"

text \<open>The end of a round: the headers, and what is left of the announced record length.\<close>

definition finish_record :: "size_t \<Rightarrow> raw_records \<Rightarrow> byte_reader \<Rightarrow> raw_records \<times> byte_reader" where
  "finish_record rec_end acc =
     attempt read_svarint (\<lambda>header_count r.
       let r1 = skip_record_headers (nat (sint header_count)) r in
       if rd_offset r1 < rec_end
       then attempt (skip (rec_end - rd_offset r1)) (\<lambda>_ r. (acc, r)) acc r1
       else (acc, r1)) acc"

text \<open>After the value length: short values are dropped together with the header count.\<close>

definition metadata_record_value ::
    "size_t \<Rightarrow> int32_t \<Rightarrow> raw_records \<Rightarrow> byte_reader \<Rightarrow> raw_records \<times> byte_reader" where
  "metadata_record_value rec_end value_len acc r =
     (if value_len <s 3 then attempt read_svarint (\<lambda>_ r. (acc, r)) acc r
      else
        attempt (read_bytes (size_of_signed value_len)) (\<lambda>val_span r.
          if length val_span < 3 then attempt read_svarint (\<lambda>_ r. (acc, r)) acc r
          else (case metadata_value val_span acc of
                  None \<Rightarrow> (acc, r)
                | Some acc' \<Rightarrow> finish_record rec_end acc' r)) acc r)"

text \<open>One round of the loop over the records of a batch.\<close>

definition metadata_record :: "raw_records \<Rightarrow> byte_reader \<Rightarrow> raw_records \<times> byte_reader" where
  "metadata_record acc =
     attempt read_svarint (\<lambda>rec_len r0.
       if rec_len <s 0 then (acc, r0)
       else
         let rec_end = rd_offset r0 + size_of_signed rec_len in
         attempt read_int8 (\<lambda>_.
         attempt skip_varint (\<lambda>_.
         attempt skip_varint (\<lambda>_.
         attempt read_svarint (\<lambda>key_len.
         attempt (skip_signed key_len) (\<lambda>_.
         attempt read_svarint (\<lambda>value_len r.
           metadata_record_value rec_end value_len acc r) acc) acc) acc) acc) acc) acc r0) acc"

fun metadata_records ::
    "nat \<Rightarrow> size_t \<Rightarrow> raw_records \<Rightarrow> byte_reader \<Rightarrow> raw_records \<times> byte_reader" where
  "metadata_records 0 batch_end acc r = (acc, r)"
| "metadata_records (Suc n) batch_end acc r =
     (if rd_offset r \<ge> batch_end then (acc, r)
      else let (acc', r') = metadata_record acc r in metadata_records n batch_end acc' r')"

text \<open>\<open>reader.offset()\<close>.\<close>

definition reader_offset :: "size_t reading" where
  "reader_offset r = Inr (rd_offset r, r)"

text \<open>The header of a batch: its end and its number of records. Any error here is a \<open>break\<close>, after
  which the reader is not used again.\<close>

definition metadata_batch_header :: "(size_t \<times> int32_t) reading" where
  "metadata_batch_header =
     rbind (skip 8) (\<lambda>_.
     rbind read_int32 (\<lambda>batch_len.
     if batch_len <s 0 then rfail message_size
     else
       rbind reader_offset (\<lambda>offset.
       rbind (skip 4) (\<lambda>_.
       rbind read_int8 (\<lambda>magic.
       if magic \<noteq> 2 then rfail message_size
       else
         rbind (skip 4) (\<lambda>_.
         rbind (skip 2) (\<lambda>_.
         rbind read_int32 (\<lambda>last_offset_delta.
         rbind (skip 8) (\<lambda>_.
         rbind (skip 8) (\<lambda>_.
         rbind (skip 8) (\<lambda>_.
         rbind (skip 2) (\<lambda>_.
         rbind (skip 4) (\<lambda>_.
         rreturn (offset + size_of_signed batch_len, last_offset_delta + 1))))))))))))))"

section \<open>The scan moves forward\<close>

text \<open>\<open>steady f\<close>: whatever the input, \<open>f\<close> keeps the data, does not move back, and stays within
  the buffer.\<close>

definition forward :: "byte_reader \<Rightarrow> byte_reader \<Rightarrow> bool" where
  "forward r r' \<longleftrightarrow> rd_data r' = rd_data r \<and> rd_offset r \<le> rd_offset r' \<and>
     rd_offset r' \<le> length (rd_data r)"

definition steady :: "(byte_reader \<Rightarrow> 's \<times> byte_reader) \<Rightarrow> bool" where
  "steady f \<longleftrightarrow> (\<forall>r. rd_offset r \<le> length (rd_data r) \<longrightarrow> forward r (snd (f r)))"

named_theorems steady_intros \<open>loop bodies that keep the reader within its buffer\<close>

lemma forward_trans: "forward r r' \<Longrightarrow> forward r' r'' \<Longrightarrow> forward r r''"
  by (auto simp: forward_def)

lemma forward_placed: "forward r r' \<Longrightarrow> rd_offset r' \<le> length (rd_data r')"
  by (simp add: forward_def)

lemma steadyD: "steady f \<Longrightarrow> rd_offset r \<le> length (rd_data r) \<Longrightarrow> forward r (snd (f r))"
  by (simp add: steady_def)

lemma steady_const [steady_intros]: "steady (\<lambda>r. (s, r))"
  by (simp add: steady_def forward_def)

lemma steady_if: "steady f \<Longrightarrow> steady g \<Longrightarrow> steady (\<lambda>r. if c r then f r else g r)"
  by (simp add: steady_def)

lemma steady_attempt [steady_intros]:
  assumes "tame p" and "\<And>x. steady (k x)"
  shows "steady (attempt p k s)"
  unfolding steady_def
proof (intro allI impI)
  fix r :: byte_reader assume r: "rd_offset r \<le> length (rd_data r)"
  show "forward r (snd (attempt p k s r))"
  proof (cases "p r")
    case (Inl e)
    with r show ?thesis by (simp add: attempt_def forward_def)
  next
    case (Inr xr)
    obtain x r' where x: "xr = (x, r')" by fastforce
    have f: "forward r r'" using tameD [OF assms(1), of r x r'] Inr x r by (simp add: forward_def)
    then have "rd_offset r' \<le> length (rd_data r')" by (simp add: forward_def)
    with steadyD [OF assms(2)] have "forward r' (snd (k x r'))" by blast
    with f Inr x show ?thesis by (auto simp: attempt_def intro: forward_trans)
  qed
qed

lemma tame_skip_signed [tame_intros]: "tame (skip_signed n)"
  unfolding skip_signed_def by (intro tame_intros)

lemma steady_skip_record_header: "steady (\<lambda>r. ((), skip_record_header r))"
proof -
  have "steady (attempt read_svarint (\<lambda>key_len.
        attempt (skip_signed key_len) (\<lambda>_.
        attempt read_svarint (\<lambda>val_len.
        attempt (skip_signed val_len) (\<lambda>_ r. ((), r)) ()) ()) ()) ())"
    by (intro steady_intros tame_intros)
  then show ?thesis by (simp add: steady_def skip_record_header_def)
qed

lemma steady_skip_record_headers: "steady (\<lambda>r. ((), skip_record_headers n r))"
proof (induction n)
  case (Suc n)
  show ?case
    unfolding steady_def
  proof (intro allI impI)
    fix r :: byte_reader assume "rd_offset r \<le> length (rd_data r)"
    then have f: "forward r (skip_record_header r)" using steadyD [OF steady_skip_record_header] by fastforce
    then have "forward (skip_record_header r) (skip_record_headers n (skip_record_header r))"
      using steadyD [OF Suc forward_placed [OF f]] by simp
    with f show "forward r (snd ((), skip_record_headers (Suc n) r))" by (auto intro: forward_trans)
  qed
qed (simp add: steady_const)

lemma steady_compose:
  assumes "steady (\<lambda>r. ((), f r))" and "steady g"
  shows "steady (\<lambda>r. g (f r))"
  unfolding steady_def
proof (intro allI impI)
  fix r :: byte_reader assume "rd_offset r \<le> length (rd_data r)"
  then have f: "forward r (f r)" using steadyD [OF assms(1)] by fastforce
  have "forward (f r) (snd (g (f r)))" using steadyD [OF assms(2) forward_placed [OF f]] .
  with f show "forward r (snd (g (f r)))" by (rule forward_trans)
qed

lemma steady_finish_record [steady_intros]: "steady (finish_record rec_end acc)"
proof -
  let ?g = "\<lambda>r1. if rd_offset r1 < rec_end
    then attempt (skip (rec_end - rd_offset r1)) (\<lambda>_ r. (acc, r)) acc r1 else (acc, r1)"
  have "steady (attempt (skip n) (\<lambda>_ r. (acc, r)) acc)" for n
    by (intro steady_intros tame_intros)
  then have "steady ?g" by (simp add: steady_def) (simp add: forward_def)
  then have "steady (\<lambda>r. ?g (skip_record_headers n r))" for n
    by (rule steady_compose [OF steady_skip_record_headers])
  then show ?thesis unfolding finish_record_def Let_def by (intro steady_attempt tame_intros)
qed

lemma steady_metadata_record_value [steady_intros]: "steady (metadata_record_value rec_end n acc)"
proof -
  have "steady (\<lambda>r. case metadata_value v acc of None \<Rightarrow> (acc, r) | Some acc' \<Rightarrow> finish_record rec_end acc' r)" for v
    by (cases "metadata_value v acc") (simp_all add: steady_const steady_finish_record)
  then show ?thesis
    unfolding metadata_record_value_def [abs_def] using steady_const
    by (intro steady_if steady_attempt tame_fixed tame_variable)
qed

lemma steady_metadata_record [steady_intros]: "steady (metadata_record acc)"
proof -
  have "steady (\<lambda>r0. if rec_len <s 0 then (acc, r0)
       else
         let rec_end = rd_offset r0 + size_of_signed rec_len in
         attempt read_int8 (\<lambda>_.
         attempt skip_varint (\<lambda>_.
         attempt skip_varint (\<lambda>_.
         attempt read_svarint (\<lambda>key_len.
         attempt (skip_signed key_len) (\<lambda>_.
         attempt read_svarint (\<lambda>value_len r.
           metadata_record_value rec_end value_len acc r) acc) acc) acc) acc) acc) acc r0)" for rec_len
  proof -
    have "steady (attempt read_int8 (\<lambda>_.
         attempt skip_varint (\<lambda>_.
         attempt skip_varint (\<lambda>_.
         attempt read_svarint (\<lambda>key_len.
         attempt (skip_signed key_len) (\<lambda>_.
         attempt read_svarint (\<lambda>value_len r.
           metadata_record_value rec_end value_len acc r) acc) acc) acc) acc) acc) acc)" for rec_end
      by (intro steady_intros tame_intros)
    then show ?thesis by (simp add: steady_def Let_def) (simp add: forward_def)
  qed
  then show ?thesis unfolding metadata_record_def by (intro steady_attempt tame_intros)
qed

lemma steady_metadata_records: "steady (metadata_records n batch_end acc)"
proof (induction n arbitrary: acc)
  case 0
  then show ?case by (simp add: steady_def forward_def)
next
  case (Suc n)
  show ?case
    unfolding steady_def
  proof (intro allI impI)
    fix r :: byte_reader assume r: "rd_offset r \<le> length (rd_data r)"
    obtain acc' r' where s: "metadata_record acc r = (acc', r')" by fastforce
    have f: "forward r r'" using steadyD [OF steady_metadata_record r, of acc] s by simp
    have "forward r' (snd (metadata_records n batch_end acc' r'))"
      using steadyD [OF Suc.IH forward_placed [OF f]] .
    with f have "forward r (snd (metadata_records n batch_end acc' r'))" by (rule forward_trans)
    then show "forward r (snd (metadata_records (Suc n) batch_end acc r))"
      using r by (simp add: s) (simp add: forward_def)
  qed
qed

text \<open>\<open>consumes n p\<close>: when \<open>p\<close> succeeds it moves over \<open>n\<close> bytes.\<close>

definition consumes :: "nat \<Rightarrow> 'a reading \<Rightarrow> bool" where
  "consumes n p \<longleftrightarrow> (\<forall>r x r'. p r = Inr (x, r') \<longrightarrow> r' = advance n r)"

lemma consumes_ops:
  "consumes n (skip n)" "consumes 1 read_int8" "consumes 4 read_int32" "consumes 0 reader_offset"
  "consumes 0 (rreturn x)" "consumes n (rfail e)"
  by (auto simp: consumes_def read_op_defs reader_offset_def rreturn_def rfail_def split: if_splits)

lemma consumes_rbind:
  "consumes m p \<Longrightarrow> (\<And>x. consumes n (f x)) \<Longrightarrow> consumes (m + n) (rbind p f)"
  unfolding consumes_def by (fastforce dest: rbind_Inr)

lemma consumes_if: "consumes n p \<Longrightarrow> consumes n q \<Longrightarrow> consumes n (if c then p else q)"
  by simp

lemma metadata_batch_header_advances:
  assumes "metadata_batch_header r = Inr (x, r')"
  shows "r' = advance 57 r"
proof -
  have "consumes (8 + (4 + (0 + (4 + (1 + (4 + (2 + (4 + (8 + (8 + (8 + (2 + (4 + 0)))))))))))))
      metadata_batch_header"
    unfolding metadata_batch_header_def
    by (intro consumes_rbind consumes_if consumes_ops)
  with assms show ?thesis unfolding consumes_def by (cases x) simp
qed

text \<open>\<open>while (reader.remaining() >= kRecordBatchHeaderSize)\<close>: every round that does not break moves
  over at least a batch header.\<close>

function metadata_scan :: "raw_records \<Rightarrow> byte_reader \<Rightarrow> raw_records" where
  "metadata_scan acc r =
     (if remaining r \<ge> kRecordBatchHeaderSize then
        (case metadata_batch_header r of
           Inl _ \<Rightarrow> acc
         | Inr ((batch_end, record_count), r1) \<Rightarrow>
             (let result = metadata_records (nat (sint record_count)) batch_end acc r1
              in metadata_scan (fst result) (snd result)))
      else acc)"
  by pat_completeness auto
termination
proof (relation "measure (\<lambda>(acc, r). remaining r)")
  fix acc r hdr x r1 batch_end record_count result
  assume r: "remaining r \<ge> kRecordBatchHeaderSize"
    and h: "metadata_batch_header r = Inr hdr" "(x, r1) = hdr" "(batch_end, record_count) = x"
    "result = metadata_records (nat (sint record_count)) batch_end acc r1"
  have r1: "r1 = advance 57 r" "57 \<le> remaining r"
    using r h(1) metadata_batch_header_advances [of r x r1]
    by (simp_all add: kRecordBatchHeaderSize_def h(2) [symmetric])
  then have "forward r1 (snd result)"
    unfolding h(4) by (intro steadyD [OF steady_metadata_records]) (simp add: remaining_def)
  with r1 show "((fst result, snd result), acc, r) \<in> measure (\<lambda>(acc, r). remaining r)"
    by (cases result) (auto simp: forward_def remaining_def)
qed simp

declare metadata_scan.simps [simp del]

section \<open>The tables\<close>

definition empty_metadata :: ClusterMetadata where
  "empty_metadata = \<lparr>cm_topics = [], cm_name_to_topic = (\<lambda>_. None), cm_uuid_to_topic = (\<lambda>_. None)\<rparr>"

definition add_topic :: "RawTopicRecord \<Rightarrow> ClusterMetadata \<Rightarrow> ClusterMetadata" where
  "add_topic tr meta =
     \<lparr>cm_topics = cm_topics meta @ [\<lparr>ti_name = rt_name tr, ti_uuid = rt_uuid tr, ti_partitions = []\<rparr>],
      cm_name_to_topic = (cm_name_to_topic meta)(rt_name tr \<mapsto> length (cm_topics meta)),
      cm_uuid_to_topic = (cm_uuid_to_topic meta)(rt_uuid tr \<mapsto> length (cm_topics meta))\<rparr>"

definition add_partition :: "RawPartitionRecord \<Rightarrow> ClusterMetadata \<Rightarrow> ClusterMetadata" where
  "add_partition pr meta =
     (case cm_uuid_to_topic meta (rp_uuid pr) of
        None \<Rightarrow> meta
      | Some i \<Rightarrow> meta\<lparr>cm_topics := (cm_topics meta)[i := (cm_topics meta ! i)
          \<lparr>ti_partitions := ti_partitions (cm_topics meta ! i) @ [rp_partition_id pr]\<rparr>]\<rparr>)"

definition build_metadata :: "raw_records \<Rightarrow> ClusterMetadata" where
  "build_metadata raw =
     fold add_partition (raw_partitions raw) (fold add_topic (raw_topics raw) empty_metadata)"

definition parse_cluster_metadata :: "bytes \<Rightarrow> ClusterMetadata expected" where
  "parse_cluster_metadata data =
     Inr (build_metadata (metadata_scan \<lparr>raw_topics = [], raw_partitions = []\<rparr> (ByteReader data)))"

text \<open>The file is a parameter: \<open>None\<close> when it cannot be opened, its contents otherwise.\<close>

definition parse_cluster_metadata_file :: "bytes option \<Rightarrow> ClusterMetadata" where
  "parse_cluster_metadata_file file =
     (case file of
        None \<Rightarrow> empty_metadata
      | Some data \<Rightarrow>
          if data = [] then empty_metadata
          else (case parse_cluster_metadata data of Inl _ \<Rightarrow> empty_metadata | Inr meta \<Rightarrow> meta))"

section \<open>The tables are consistent\<close>

text \<open>
  The two indexes point into the topic list, at a topic with the name or id they were asked for,
  and every topic of the list is found under its name and its id.
\<close>

definition index_ok :: "('t \<Rightarrow> 'k) \<Rightarrow> 't list \<Rightarrow> ('k \<rightharpoonup> nat) \<Rightarrow> bool" where
  "index_ok f ts idx \<longleftrightarrow>
     (\<forall>k i. idx k = Some i \<longrightarrow> i < length ts \<and> f (ts ! i) = k) \<and> dom idx = f ` set ts"

definition metadata_ok :: "ClusterMetadata \<Rightarrow> bool" where
  "metadata_ok meta \<longleftrightarrow>
     index_ok ti_name (cm_topics meta) (cm_name_to_topic meta) \<and>
     index_ok ti_uuid (cm_topics meta) (cm_uuid_to_topic meta)"

lemma index_ok_lookup: "index_ok f ts idx \<Longrightarrow> idx k = Some i \<Longrightarrow> i < length ts \<and> f (ts ! i) = k"
  by (simp add: index_ok_def)

lemma index_ok_snoc: "index_ok f ts idx \<Longrightarrow> index_ok f (ts @ [t]) (idx(f t \<mapsto> length ts))"
  by (fastforce simp: index_ok_def nth_append)

lemma index_ok_update:
  assumes "index_ok f ts idx" and "f t = f (ts ! i)"
  shows "index_ok f (ts[i := t]) idx"
proof -
  have "map f (ts[i := t]) = map f ts"
    using assms(2) by (metis list_update_beyond list_update_id map_update not_less)
  then have "f ` set (ts[i := t]) = f ` set ts" by (metis set_map)
  moreover have "f (ts[i := t] ! j) = f (ts ! j)" if "j < length ts" for j
    using assms(2) that by (cases "i = j") simp_all
  ultimately show ?thesis using assms(1) by (simp add: index_ok_def)
qed

lemma metadata_ok_empty [simp]: "metadata_ok empty_metadata"
  by (simp add: metadata_ok_def index_ok_def empty_metadata_def)

lemma metadata_ok_add_topic: "metadata_ok meta \<Longrightarrow> metadata_ok (add_topic tr meta)"
  using index_ok_snoc [of ti_name "cm_topics meta" "cm_name_to_topic meta"
      "\<lparr>ti_name = rt_name tr, ti_uuid = rt_uuid tr, ti_partitions = []\<rparr>"]
    index_ok_snoc [of ti_uuid "cm_topics meta" "cm_uuid_to_topic meta"
      "\<lparr>ti_name = rt_name tr, ti_uuid = rt_uuid tr, ti_partitions = []\<rparr>"]
  by (simp add: metadata_ok_def add_topic_def)

lemma metadata_ok_add_partition: "metadata_ok meta \<Longrightarrow> metadata_ok (add_partition pr meta)"
  by (auto simp: metadata_ok_def add_partition_def intro!: index_ok_update split: option.splits)

lemma metadata_ok_fold:
  "metadata_ok meta \<Longrightarrow> metadata_ok (fold add_topic trs meta)"
  "metadata_ok meta \<Longrightarrow> metadata_ok (fold add_partition prs meta)"
  by (induction trs arbitrary: meta) (simp_all add: metadata_ok_add_topic,
    induction prs arbitrary: meta, simp_all add: metadata_ok_add_partition)

lemma metadata_ok_build: "metadata_ok (build_metadata raw)"
  by (simp add: build_metadata_def metadata_ok_fold)

lemma metadata_ok_file: "metadata_ok (parse_cluster_metadata_file file)"
  by (simp add: parse_cluster_metadata_file_def parse_cluster_metadata_def metadata_ok_build
      split: option.splits)

text \<open>What is built from the records when the topic ids are distinct.\<close>

definition topic_info :: "RawPartitionRecord list \<Rightarrow> RawTopicRecord \<Rightarrow> TopicInfo" where
  "topic_info prs tr =
     \<lparr>ti_name = rt_name tr, ti_uuid = rt_uuid tr,
      ti_partitions = map rp_partition_id (filter (\<lambda>p. rp_uuid p = rt_uuid tr) prs)\<rparr>"

lemma topics_fold_add_topic: "cm_topics (fold add_topic trs meta) = cm_topics meta @ map (topic_info []) trs"
  by (induction trs arbitrary: meta) (simp_all add: add_topic_def topic_info_def)

lemma topics_add_partition:
  assumes "metadata_ok meta" and "distinct (map ti_uuid (cm_topics meta))"
  shows "cm_topics (add_partition pr meta) =
    map (\<lambda>t. if ti_uuid t = rp_uuid pr
             then t\<lparr>ti_partitions := ti_partitions t @ [rp_partition_id pr]\<rparr> else t) (cm_topics meta)"
proof (cases "cm_uuid_to_topic meta (rp_uuid pr)")
  case None
  then have "rp_uuid pr \<notin> ti_uuid ` set (cm_topics meta)"
    using assms(1) unfolding metadata_ok_def index_ok_def by (metis domIff)
  then have "ti_uuid t \<noteq> rp_uuid pr" if "t \<in> set (cm_topics meta)" for t using that by force
  with None show ?thesis by (simp add: add_partition_def map_idI)
next
  case (Some i)
  then have i: "i < length (cm_topics meta)" "ti_uuid (cm_topics meta ! i) = rp_uuid pr"
    using assms(1) by (auto simp: metadata_ok_def dest: index_ok_lookup)
  have other: "ti_uuid (cm_topics meta ! j) \<noteq> rp_uuid pr" if "j < length (cm_topics meta)" "j \<noteq> i" for j
    using nth_eq_iff_index_eq [OF assms(2), of j i] i that by simp
  show ?thesis
  proof (rule nth_equalityI)
    fix j assume "j < length (cm_topics (add_partition pr meta))"
    then have "j < length (cm_topics meta)" using Some by (simp add: add_partition_def)
    with Some i other show "cm_topics (add_partition pr meta) ! j =
      map (\<lambda>t. if ti_uuid t = rp_uuid pr
             then t\<lparr>ti_partitions := ti_partitions t @ [rp_partition_id pr]\<rparr> else t) (cm_topics meta) ! j"
      by (cases "j = i") (simp_all add: add_partition_def)
  qed (simp add: Some add_partition_def)
qed

lemma uuids_add_partition: "map ti_uuid (cm_topics (add_partition pr meta)) = map ti_uuid (cm_topics meta)"
  by (auto simp: add_partition_def map_update split: option.splits)
    (metis list_update_beyond list_update_id map_update not_less)

lemma topics_fold_add_partition:
  assumes "metadata_ok meta" and "distinct (map ti_uuid (cm_topics meta))"
  shows "cm_topics (fold add_partition prs meta) =
    map (\<lambda>t. t\<lparr>ti_partitions := ti_partitions t
               @ map rp_partition_id (filter (\<lambda>p. rp_uuid p = ti_uuid t) prs)\<rparr>) (cm_topics meta)"
  using assms
proof (induction prs arbitrary: meta)
  case (Cons pr prs)
  have "distinct (map ti_uuid (cm_topics (add_partition pr meta)))"
    using Cons.prems(2) by (simp only: uuids_add_partition)
  with Cons show ?case by (auto simp: metadata_ok_add_partition topics_add_partition)
qed simp

lemma topics_build:
  assumes "distinct (map rt_uuid (raw_topics raw))"
  shows "cm_topics (build_metadata raw) = map (topic_info (raw_partitions raw)) (raw_topics raw)"
proof -
  let ?m = "fold add_topic (raw_topics raw) empty_metadata"
  have t: "cm_topics ?m = map (topic_info []) (raw_topics raw)"
    by (simp add: topics_fold_add_topic) (simp add: empty_metadata_def)
  have "map ti_uuid (cm_topics ?m) = map rt_uuid (raw_topics raw)"
    by (simp add: t topic_info_def)
  with assms have "distinct (map ti_uuid (cm_topics ?m))" by simp
  then show ?thesis
    by (simp add: build_metadata_def topics_fold_add_partition metadata_ok_fold t topic_info_def)
qed

end
