(* ===== verification/Metadata_Handler.thy ===== *)
theory Metadata_Handler
  imports Cluster_Metadata "HOL-Library.List_Lexorder" "HOL-Library.Char_ord"
begin

text \<open>
  The metadata handler of \<open>src/src/broker/metadata_handler.cpp\<close>: the ApiVersions,
  DescribeTopicPartitions and Metadata requests, answered from the cluster metadata. Strings are
  compared as \<open>std::string\<close> compares them, lexicographically by unsigned characters.
\<close>

section \<open>The handlers\<close>

definition handle_api_versions :: "ApiVersionsRequest \<Rightarrow> ApiVersionsResponse" where
  "handle_api_versions r =
     \<lparr>avr_correlation_id = correlation_id (av_header r),
      avr_error_code =
        (if 0 \<le>s api_version (av_header r) \<and> api_version (av_header r) \<le>s 4 then 0 else 35),
      avr_api_keys = kSupportedApis, avr_throttle_time_ms = 0\<rparr>"

definition partition_metadata :: "int32_t \<Rightarrow> PartitionMetadata" where
  "partition_metadata pid =
     \<lparr>pm_error_code = 0, pm_partition_index = pid, pm_leader_id = 1, pm_leader_epoch = 0,
      pm_replica_nodes = [1], pm_isr_nodes = [1], pm_eligible_leader_replicas = [],
      pm_last_known_elr = [], pm_offline_replicas = []\<rparr>"

definition build_topic_metadata :: "ClusterMetadata \<Rightarrow> string \<Rightarrow> TopicMetadata" where
  "build_topic_metadata meta topic_name =
     (case cm_name_to_topic meta topic_name of
        None \<Rightarrow>
          \<lparr>tm_error_code = 3, tm_topic_name = topic_name, tm_topic_id = replicate 16 0,
           tm_is_internal = False, tm_authorized_operations = 0, tm_partitions = []\<rparr>
      | Some i \<Rightarrow>
          \<lparr>tm_error_code = 0, tm_topic_name = topic_name, tm_topic_id = ti_uuid (cm_topics meta ! i),
           tm_is_internal = False, tm_authorized_operations = 0,
           tm_partitions = map partition_metadata (ti_partitions (cm_topics meta ! i))\<rparr>)"

definition handle_describe_topic_partitions ::
    "ClusterMetadata \<Rightarrow> DescribeTopicPartitionsRequest \<Rightarrow> DescribeTopicPartitionsResponse" where
  "handle_describe_topic_partitions meta r =
     \<lparr>dtr_correlation_id = correlation_id (dtp_header r), dtr_throttle_time_ms = 0,
      dtr_topics = sort_key tm_topic_name (map (build_topic_metadata meta) (dtp_topic_names r))\<rparr>"

definition metadata_topic_response :: "TopicMetadata \<Rightarrow> MetadataTopicResponse" where
  "metadata_topic_response tm =
     \<lparr>mtr_error_code = tm_error_code tm, mtr_topic_name = tm_topic_name tm,
      mtr_topic_id = tm_topic_id tm, mtr_is_internal = tm_is_internal tm,
      mtr_partitions = tm_partitions tm,
      mtr_topic_authorized_operations = tm_authorized_operations tm\<rparr>"

definition handle_metadata :: "ClusterMetadata \<Rightarrow> MetadataRequest \<Rightarrow> MetadataResponse" where
  "handle_metadata meta r =
     \<lparr>mr_correlation_id = correlation_id (md_header r), mr_throttle_time_ms = 0,
      mr_brokers = [\<lparr>mb_node_id = 1, mb_host = ''localhost'', mb_port = 9092, mb_rack = []\<rparr>],
      mr_cluster_id = ''TinyKafka'', mr_controller_id = 1,
      mr_topics =
        (if md_topics r = []
         then map (\<lambda>info. metadata_topic_response (build_topic_metadata meta (ti_name info))) (cm_topics meta)
         else map (\<lambda>name. metadata_topic_response (build_topic_metadata meta name)) (md_topics r)),
      mr_cluster_authorized_operations = 0\<rparr>"

section \<open>What a client learns about a topic\<close>

lemma name_build_topic_metadata [simp]: "tm_topic_name (build_topic_metadata meta name) = name"
  by (simp add: build_topic_metadata_def split: option.splits)

lemma build_topic_metadata_known:
  assumes "metadata_ok meta" and "t \<in> set (cm_topics meta)" and "distinct (map ti_name (cm_topics meta))"
  shows "build_topic_metadata meta (ti_name t) =
    \<lparr>tm_error_code = 0, tm_topic_name = ti_name t, tm_topic_id = ti_uuid t, tm_is_internal = False,
     tm_authorized_operations = 0, tm_partitions = map partition_metadata (ti_partitions t)\<rparr>"
proof -
  have idx: "index_ok ti_name (cm_topics meta) (cm_name_to_topic meta)"
    using assms(1) by (simp add: metadata_ok_def)
  then have "ti_name t \<in> dom (cm_name_to_topic meta)" using assms(2) by (simp add: index_ok_def)
  then obtain i where i: "cm_name_to_topic meta (ti_name t) = Some i" by auto
  with idx have "i < length (cm_topics meta)" "ti_name (cm_topics meta ! i) = ti_name t"
    by (auto dest: index_ok_lookup)
  then have "cm_topics meta ! i = t"
    using assms(2,3) by (auto simp: distinct_map dest: inj_onD)
  with i show ?thesis by (simp add: build_topic_metadata_def)
qed

lemma build_topic_metadata_unknown:
  assumes "metadata_ok meta"
  shows "tm_error_code (build_topic_metadata meta name) = (if name \<in> ti_name ` set (cm_topics meta) then 0 else 3)"
proof -
  have "name \<in> dom (cm_name_to_topic meta) \<longleftrightarrow> name \<in> ti_name ` set (cm_topics meta)"
    using assms by (simp add: metadata_ok_def index_ok_def)
  then show ?thesis by (auto simp: build_topic_metadata_def split: option.splits)
qed

text \<open>The answer to DescribeTopicPartitions is determined, although the sort of the source is
  not stable: every arrangement of the answers, one per requested name, that is sorted by name is
  the one returned, because entries with the same name are equal.\<close>

lemma describe_topics_unique:
  assumes "mset ts = mset (map (build_topic_metadata meta) (dtp_topic_names r))"
    and "sorted (map tm_topic_name ts)"
  shows "dtr_topics (handle_describe_topic_partitions meta r) = ts"
proof -
  have "ts = sort_key tm_topic_name (map (build_topic_metadata meta) (dtp_topic_names r))"
    by (rule sorted_arrangement_unique [where f = "build_topic_metadata meta", OF _ assms]) auto
  then show ?thesis by (simp add: handle_describe_topic_partitions_def)
qed

section \<open>Topic ids have sixteen bytes\<close>

text \<open>An id is only ever copied from sixteen bytes of a record, whatever the log contains.\<close>

definition ids_sized :: "ClusterMetadata \<Rightarrow> bool" where
  "ids_sized meta \<longleftrightarrow> (\<forall>t\<in>set (cm_topics meta). length (ti_uuid t) = 16)"

definition raw_sized :: "raw_records \<Rightarrow> bool" where
  "raw_sized acc \<longleftrightarrow> (\<forall>t\<in>set (raw_topics acc). length (rt_uuid t) = 16)"

definition keeps_sized :: "(byte_reader \<Rightarrow> raw_records \<times> byte_reader) \<Rightarrow> bool" where
  "keeps_sized f \<longleftrightarrow> (\<forall>r. raw_sized (fst (f r)))"

lemma keeps_attempt: "raw_sized s \<Longrightarrow> (\<And>x. keeps_sized (k x)) \<Longrightarrow> keeps_sized (attempt p k s)"
  by (auto simp: keeps_sized_def attempt_def split: sum.splits)

lemma keeps_const: "raw_sized s \<Longrightarrow> keeps_sized (\<lambda>r. (s, r))"
  by (simp add: keeps_sized_def)

lemma keeps_if: "keeps_sized f \<Longrightarrow> keeps_sized g \<Longrightarrow> keeps_sized (\<lambda>r. if c r then f r else g r)"
  by (simp add: keeps_sized_def)

lemma read_bytes_length: "read_bytes n r = Inr (x, r') \<Longrightarrow> length x = n"
  by (auto simp: read_bytes_def remaining_eq split: if_splits)

lemma metadata_value_sized: "metadata_value v acc = Some acc' \<Longrightarrow> raw_sized acc \<Longrightarrow> raw_sized acc'"
  by (auto simp: metadata_value_def raw_sized_def kUuidSize_def rreturn_def
      split: sum.splits if_splits dest!: rbind_Inr read_bytes_length)

lemma keeps_finish_record: "raw_sized acc \<Longrightarrow> keeps_sized (finish_record rec_end acc)"
  unfolding finish_record_def
  by (rule keeps_attempt) (auto simp: keeps_sized_def attempt_def Let_def split: sum.splits)

lemma keeps_metadata_record_value:
  assumes "raw_sized acc"
  shows "keeps_sized (metadata_record_value rec_end n acc)"
proof -
  have "keeps_sized (\<lambda>r. case metadata_value v acc of None \<Rightarrow> (acc, r) | Some acc' \<Rightarrow> finish_record rec_end acc' r)" for v
    using assms by (cases "metadata_value v acc")
      (simp_all add: keeps_const keeps_finish_record metadata_value_sized)
  with assms show ?thesis
    unfolding metadata_record_value_def [abs_def]
    by (intro keeps_if keeps_attempt keeps_const)
qed

lemma keeps_metadata_record:
  assumes "raw_sized acc"
  shows "keeps_sized (metadata_record acc)"
proof -
  have "keeps_sized (attempt read_int8 (\<lambda>_.
         attempt skip_varint (\<lambda>_.
         attempt skip_varint (\<lambda>_.
         attempt read_svarint (\<lambda>key_len.
         attempt (skip_signed key_len) (\<lambda>_.
         attempt read_svarint (\<lambda>value_len r.
           metadata_record_value rec_end value_len acc r) acc) acc) acc) acc) acc) acc)" for rec_end
    using assms by (intro keeps_attempt keeps_metadata_record_value)
  with assms show ?thesis
    unfolding metadata_record_def by (intro keeps_attempt) (simp_all add: keeps_sized_def Let_def)
qed

lemma keeps_metadata_records: "raw_sized acc \<Longrightarrow> raw_sized (fst (metadata_records n batch_end acc r))"
proof (induction n arbitrary: acc r)
  case (Suc n)
  obtain acc' r' where s: "metadata_record acc r = (acc', r')" by fastforce
  have "raw_sized acc'" using keeps_metadata_record [OF Suc.prems] s by (metis fst_conv keeps_sized_def)
  with Suc s show ?case by simp
qed simp

lemma raw_sized_scan: "raw_sized acc \<Longrightarrow> raw_sized (metadata_scan acc r)"
proof (induction acc r rule: metadata_scan.induct)
  case (1 acc r)
  then show ?case
    by (subst metadata_scan.simps)
      (auto simp: Let_def keeps_metadata_records split: sum.splits prod.splits)
qed

lemma ids_sized_build: "raw_sized raw \<Longrightarrow> ids_sized (build_metadata raw)"
proof -
  assume raw: "raw_sized raw"
  have "ids_sized (fold add_partition prs m)" if "ids_sized m" for prs m
    using that
  proof (induction prs arbitrary: m)
    case (Cons pr prs)
    have "ids_sized (add_partition pr m)"
      using Cons.prems uuids_add_partition [of pr m] unfolding ids_sized_def
      by (metis (mono_tags, lifting) imageE imageI list.set_map)
    then show ?case by (simp add: Cons.IH)
  qed simp
  moreover have "ids_sized (fold add_topic (raw_topics raw) empty_metadata)"
    using raw by (simp add: ids_sized_def topics_fold_add_topic raw_sized_def)
      (auto simp: empty_metadata_def topic_info_def)
  ultimately show ?thesis by (simp add: build_metadata_def)
qed

lemma ids_sized_file: "ids_sized (parse_cluster_metadata_file file)"
proof -
  have "raw_sized \<lparr>raw_topics = [], raw_partitions = []\<rparr>" by (simp add: raw_sized_def)
  then have "ids_sized (build_metadata (metadata_scan \<lparr>raw_topics = [], raw_partitions = []\<rparr> r))" for r
    by (intro ids_sized_build raw_sized_scan)
  moreover have "ids_sized empty_metadata" by (simp add: ids_sized_def empty_metadata_def)
  ultimately show ?thesis
    by (simp add: parse_cluster_metadata_file_def parse_cluster_metadata_def split: option.splits)
qed

lemma build_topic_metadata_id:
  assumes "metadata_ok meta" and "ids_sized meta"
  shows "length (tm_topic_id (build_topic_metadata meta name)) = 16"
  using assms
  by (auto simp: build_topic_metadata_def metadata_ok_def ids_sized_def dest: index_ok_lookup
      split: option.splits)

end
