(* ===== verification/Storage.thy ===== *)
theory Storage
  imports Text_Format
begin

text \<open>
  The storage layer of \<open>src/src/storage/\<close>: the names of the directories and segment files of a
  partition, and the function that reads a whole partition back, segment by segment in the order of
  their base offsets, whatever the order in which the directory lists them.
\<close>

section \<open>Names\<close>

record PartitionLog =
  pl_log_root :: string
  pl_topic_name :: string
  pl_partition :: int32_t

definition dir_path :: "PartitionLog \<Rightarrow> string" where
  "dir_path l = pl_log_root l @ ''/'' @ pl_topic_name l @ ''-'' @ to_string (pl_partition l)"

text \<open>The last component of \<open>segment_path\<close>, and the whole path.\<close>

definition segment_name :: "int64_t \<Rightarrow> string" where
  "segment_name base_offset = format_020d base_offset @ ''.log''"

definition segment_path :: "PartitionLog \<Rightarrow> int64_t \<Rightarrow> string" where
  "segment_path l base_offset = dir_path l @ ''/'' @ segment_name base_offset"

section \<open>Reading a partition back\<close>

text \<open>What the directory iterator shows of an entry; a file that cannot be opened has no contents.\<close>

record dir_entry =
  de_name :: string
  de_regular :: bool
  de_content :: "bytes option"

text \<open>\<open>std::map::operator[]\<close> with assignment: keys in ascending order.\<close>

fun map_insert :: "'k::linorder \<Rightarrow> 'v \<Rightarrow> ('k \<times> 'v) list \<Rightarrow> ('k \<times> 'v) list" where
  "map_insert k v [] = [(k, v)]"
| "map_insert k v ((k', v') # xs) =
     (if k = k' then (k, v) # xs
      else if k < k' then (k, v) # (k', v') # xs
      else (k', v') # map_insert k v xs)"

definition is_segment :: "dir_entry \<Rightarrow> bool" where
  "is_segment e \<longleftrightarrow>
     de_regular e \<and> length (de_name e) = 24 \<and> drop 20 (de_name e) = ''.log''"

fun collect_segments :: "dir_entry list \<Rightarrow> (int \<times> dir_entry) list \<Rightarrow> ((int \<times> dir_entry) list) expected" where
  "collect_segments [] segments = Inr segments"
| "collect_segments (e # es) segments =
     (if is_segment e then
        (case stoll (take 20 (de_name e)) of
           Inl err \<Rightarrow> Inl err
         | Inr base \<Rightarrow> collect_segments es (map_insert (sint base) e segments))
      else collect_segments es segments)"

definition read_segments :: "(int \<times> dir_entry) list \<Rightarrow> bytes" where
  "read_segments segments =
     concat (map (\<lambda>(_, e). case de_content e of None \<Rightarrow> [] | Some bs \<Rightarrow> bs) segments)"

definition read_topic_log :: "dir_entry list \<Rightarrow> bytes expected" where
  "read_topic_log entries =
     (case collect_segments entries [] of Inl err \<Rightarrow> Inl err | Inr segments \<Rightarrow> Inr (read_segments segments))"

text \<open>Only \<open>std::stoll\<close> can throw.\<close>

lemma collect_segments_errors:
  "collect_segments es acc = Inl err \<Longrightarrow> err \<in> {invalid_argument, out_of_range}"
  by (induction es acc rule: collect_segments.induct)
    (auto simp: stoll_def stoll_digits_def Let_def split: if_splits sum.splits list.splits)

lemma read_topic_log_errors: "read_topic_log es = Inl err \<Longrightarrow> err \<in> {invalid_argument, out_of_range}"
  by (auto simp: read_topic_log_def dest: collect_segments_errors split: sum.splits)

section \<open>Order\<close>

lemma length_segment_name [simp]: "length (segment_name b) = 24"
  by (simp add: segment_name_def)

lemma segment_name_parts [simp]:
  "take 20 (segment_name b) = format_020d b" "drop 20 (segment_name b) = ''.log''"
  by (simp_all add: segment_name_def)

text \<open>A segment file and its base offset.\<close>

definition segment_entry :: "int64_t \<times> bytes \<Rightarrow> dir_entry" where
  "segment_entry s = \<lparr>de_name = segment_name (fst s), de_regular = True, de_content = Some (snd s)\<rparr>"

lemma is_segment_entry [simp]: "is_segment (segment_entry s)"
  by (simp add: is_segment_def segment_entry_def)

lemma stoll_segment_entry [simp]: "stoll (take 20 (de_name (segment_entry s))) = Inr (fst s)"
  by (simp add: segment_entry_def stoll_format_020d)

lemma keys_map_insert: "fst ` set (map_insert k v xs) = insert k (fst ` set xs)"
proof (induction xs)
  case (Cons x xs)
  then show ?case by (cases x; cases "k = fst x"; cases "k < fst x") auto
qed simp

lemma sorted_map_insert:
  "sorted_wrt (<) (map fst xs) \<Longrightarrow> sorted_wrt (<) (map fst (map_insert k v xs))"
proof (induction xs)
  case (Cons x xs)
  then show ?case
    using keys_map_insert [of k v xs] by (cases x; cases "k = fst x"; cases "k < fst x") auto
qed simp

lemma mset_map_insert:
  "k \<notin> fst ` set xs \<Longrightarrow> mset (map_insert k v xs) = add_mset (k, v) (mset xs)"
  by (induction xs) auto

lemma collect_segments_entries:
  assumes "distinct (map fst ss)" and "fst ` set acc \<inter> (\<lambda>s. sint (fst s)) ` set ss = {}"
    and "sorted_wrt (<) (map fst acc)"
  shows "\<exists>segs. collect_segments (map segment_entry ss) acc = Inr segs \<and>
    sorted_wrt (<) (map fst segs) \<and>
    mset segs = mset acc + mset (map (\<lambda>s. (sint (fst s), segment_entry s)) ss)"
  using assms
proof (induction ss arbitrary: acc)
  case (Cons s ss)
  let ?acc = "map_insert (sint (fst s)) (segment_entry s) acc"
  have new: "sint (fst s) \<notin> fst ` set acc" using Cons.prems(2) by auto
  have m: "mset ?acc = add_mset (sint (fst s), segment_entry s) (mset acc)"
    using new by (rule mset_map_insert)
  then have set: "set ?acc = insert (sint (fst s), segment_entry s) (set acc)"
    by (metis set_mset_add_mset_insert set_mset_mset)
  have "sint (fst s) \<noteq> sint (fst t)" if "t \<in> set ss" for t
    using Cons.prems(1) that by (auto dest: signed_word_eqI [where ?'a = int])
  then have "fst ` set ?acc \<inter> (\<lambda>s. sint (fst s)) ` set ss = {}"
    using Cons.prems(2) set by auto
  with Cons.IH [of ?acc] Cons.prems m show ?case
    by (simp add: sorted_map_insert)
qed auto

text \<open>
  Reading a directory that holds the segments \<open>ss\<close>, listed in any order, gives their contents in
  the order of the base offsets.
\<close>

lemma read_topic_log_segments:
  assumes "distinct (map fst ss)"
  shows "read_topic_log (map segment_entry ss) =
    Inr (concat (map snd (sort_key (\<lambda>s. sint (fst s)) ss)))"
proof -
  let ?tag = "\<lambda>s. (sint (fst s), segment_entry s)"
  obtain segs where segs: "collect_segments (map segment_entry ss) [] = Inr segs"
    "sorted_wrt (<) (map fst segs)" "mset segs = mset (map ?tag ss)"
    using collect_segments_entries [OF assms, of "[]"] by auto
  have "segs = map ?tag (sort_key (\<lambda>s. sint (fst s)) ss)"
  proof -
    let ?f = "\<lambda>k. (k, the (map_of segs k))"
    have "distinct (map fst segs)" using segs(2) by (simp add: strict_sorted_iff)
    then have key: "?f (fst x) = x" if "x \<in> set segs" for x
      using that by (cases x) (simp add: map_of_is_SomeI)
    have m: "mset (map ?tag (sort_key (\<lambda>s. sint (fst s)) ss)) = mset segs" using segs(3) by simp
    have "map ?tag (sort_key (\<lambda>s. sint (fst s)) ss) = sort_key fst segs"
      by (rule sorted_arrangement_unique [where f = ?f, OF key m]) (simp_all add: comp_def)
    moreover have "segs = sort_key fst segs"
      by (rule sorted_arrangement_unique [where f = ?f, OF key refl])
        (use segs(2) in \<open>simp_all add: strict_sorted_imp_sorted\<close>)
    ultimately show ?thesis by simp
  qed
  then show ?thesis
    using segs(1) by (simp add: read_topic_log_def read_segments_def segment_entry_def comp_def)
qed

text \<open>C30: Reading a topic log does not depend on the order in which the operating system lists the
  directory: for every listing of the same segments the contents come in the order of the base
  offsets encoded in the file names.\<close>

theorem read_topic_log_order:
  assumes "distinct (map fst ss)" and "mset ts = mset ss"
  shows "read_topic_log (map segment_entry ts) = Inr (concat (map snd (sort_key (\<lambda>s. sint (fst s)) ss)))"
proof -
  have d: "distinct (map fst ts)" using assms by (metis mset_map mset_eq_imp_distinct_iff)
  have "sort_key (\<lambda>s. sint (fst s)) ts = sort_key (\<lambda>s. sint (fst s)) ss"
  proof (rule sorted_arrangement_unique [where f = "\<lambda>k. (word_of_int k, the (map_of ss (word_of_int k)))"])
    fix x assume "x \<in> set ss"
    then have "map_of ss (fst x) = Some (snd x)" using assms(1) by simp
    then show "(word_of_int (sint (fst x)), the (map_of ss (word_of_int (sint (fst x))))) = x" by simp
  qed (simp_all add: assms(2))
  then show ?thesis by (simp only: read_topic_log_segments [OF d])
qed

theorem read_topic_log_order_witness:
  "read_topic_log (map segment_entry [(200, [3]), (0, [1]), (100, [2])]) = Inr [1, 2, 3]"
  by (subst read_topic_log_order [of "[(0, [1]), (100, [2]), (200, [3])]"]) simp_all

end
