(* ===== verification/Partition_Context.thy ===== *)
theory Partition_Context
  imports Interfaces Storage Record_Batch
begin

text \<open>
  The log of one partition, \<open>PartitionContext\<close> of \<open>src/src/broker/partition_context.hpp\<close>:
  appending a record batch with segment roll-over and a sparse index, and the three ways of reading
  (the whole log, a range, and a descriptor for splicing).

  The operating system is explicit: the directories with their files, the descriptor table, and the
  writes submitted to the ring that have not completed. What the system decides (the clock, whether
  a directory can be created, which descriptor an open returns, whether a submission slot is free,
  how many bytes a read or write transfers) is an argument of each operation.
\<close>

section \<open>The operating system\<close>

type_synonym os_file = "string \<times> string"

record os_state =
  os_dirs :: "string \<Rightarrow> (string \<times> bytes) list"
  os_fds :: "int32_t \<rightharpoonup> os_file"
  os_pending :: "(os_file \<times> bytes) list"

record os_answers =
  an_now_ms :: int64_t
  an_mkdir_ok :: bool
  an_write_fd :: int32_t
  an_read_fd :: int32_t
  an_sqe :: bool
  an_written :: nat
  an_pread :: "nat option"

definition file_content :: "os_state \<Rightarrow> os_file \<Rightarrow> bytes option" where
  "file_content os f = map_of (os_dirs os (fst f)) (snd f)"

text \<open>Appending to a file of a directory; a missing file is created behind the others.\<close>

fun append_entry :: "string \<Rightarrow> bytes \<Rightarrow> (string \<times> bytes) list \<Rightarrow> (string \<times> bytes) list" where
  "append_entry n bs [] = [(n, bs)]"
| "append_entry n bs ((m, cs) # es) =
     (if m = n then (m, cs @ bs) # es else (m, cs) # append_entry n bs es)"

definition dir_append ::
    "os_file \<Rightarrow> bytes \<Rightarrow> (string \<Rightarrow> (string \<times> bytes) list) \<Rightarrow> string \<Rightarrow> (string \<times> bytes) list" where
  "dir_append f bs d = d(fst f := append_entry (snd f) bs (d (fst f)))"

definition append_file :: "os_file \<Rightarrow> bytes \<Rightarrow> os_state \<Rightarrow> os_state" where
  "append_file f bs os = os\<lparr>os_dirs := dir_append f bs (os_dirs os)\<rparr>"

text \<open>\<open>open\<close> with \<open>O_WRONLY | O_CREAT | O_APPEND\<close>, \<open>open\<close> with \<open>O_RDONLY\<close>, \<open>close\<close> and
  \<open>write\<close>.\<close>

definition sys_open_append :: "int32_t \<Rightarrow> os_file \<Rightarrow> os_state \<Rightarrow> int32_t \<times> os_state" where
  "sys_open_append fd f os =
     (if fd <s 0 then (- 1, os)
      else (fd, append_file f [] (os\<lparr>os_fds := (os_fds os)(fd \<mapsto> f)\<rparr>)))"

definition sys_open_read :: "int32_t \<Rightarrow> os_file \<Rightarrow> os_state \<Rightarrow> int32_t \<times> os_state" where
  "sys_open_read fd f os =
     (if fd <s 0 \<or> file_content os f = None then (- 1, os)
      else (fd, os\<lparr>os_fds := (os_fds os)(fd \<mapsto> f)\<rparr>))"

definition sys_close :: "int32_t \<Rightarrow> os_state \<Rightarrow> os_state" where
  "sys_close fd os = os\<lparr>os_fds := (os_fds os)(fd := None)\<rparr>"

definition sys_write :: "int32_t \<Rightarrow> bytes \<Rightarrow> nat \<Rightarrow> os_state \<Rightarrow> os_state" where
  "sys_write fd bs n os =
     (case os_fds os fd of None \<Rightarrow> os | Some f \<Rightarrow> append_file f (take n bs) os)"

text \<open>A write submitted to the ring refers to the open file, also after the descriptor is closed.\<close>

definition ring_write :: "int32_t \<Rightarrow> bytes \<Rightarrow> os_state \<Rightarrow> os_state" where
  "ring_write fd bs os =
     (case os_fds os fd of None \<Rightarrow> os | Some f \<Rightarrow> os\<lparr>os_pending := os_pending os @ [(f, bs)]\<rparr>)"

text \<open>All submitted writes complete, in the order of submission and in full.\<close>

definition settle :: "os_state \<Rightarrow> os_state" where
  "settle os = (fold (\<lambda>(f, bs). append_file f bs) (os_pending os) os)\<lparr>os_pending := []\<rparr>"

text \<open>One of them completes.\<close>

definition complete_write :: "nat \<Rightarrow> os_state \<Rightarrow> os_state" where
  "complete_write k os =
     (case drop k (os_pending os) of
        [] \<Rightarrow> os
      | (f, bs) # ws \<Rightarrow> append_file f bs (os\<lparr>os_pending := take k (os_pending os) @ ws\<rparr>))"

text \<open>The size \<open>lseek\<close> reports, converted to \<open>size_t\<close>; it is the largest value when the descriptor
  is not open.\<close>

definition sys_size :: "int32_t \<Rightarrow> os_state \<Rightarrow> size_t" where
  "sys_size fd os =
     (case Option.bind (os_fds os fd) (file_content os) of None \<Rightarrow> 2 ^ 64 - 1 | Some bs \<Rightarrow> length bs)"

definition sys_pread :: "int32_t \<Rightarrow> size_t \<Rightarrow> size_t \<Rightarrow> nat option \<Rightarrow> os_state \<Rightarrow> bytes option" where
  "sys_pread fd start n answer os =
     (case Option.bind (os_fds os fd) (file_content os) of
        None \<Rightarrow> None
      | Some bs \<Rightarrow> map_option (\<lambda>k. take k (take n (drop start bs))) answer)"

section \<open>The partition\<close>

record SparseIndexEntry =
  ie_offset :: int64_t
  ie_file_position :: size_t

definition kSparseIndexInterval :: int where
  "kSparseIndexInterval = 1000"

record ProduceResult =
  res_base_offset :: int64_t
  res_log_append_time_ms :: int64_t

definition no_result :: ProduceResult where
  "no_result = \<lparr>res_base_offset = - 1, res_log_append_time_ms = - 1\<rparr>"

record PartitionContext =
  pc_log :: PartitionLog
  pc_next_offset :: int64_t
  pc_segment_base :: int64_t
  pc_current_bytes :: size_t
  pc_segment_bytes :: size_t
  pc_index :: "SparseIndexEntry list"
  pc_ring :: bool
  pc_write_fd :: int32_t
  pc_read_fd :: int32_t

definition new_partition_context :: "string \<Rightarrow> string \<Rightarrow> int32_t \<Rightarrow> size_t \<Rightarrow> bool \<Rightarrow> PartitionContext" where
  "new_partition_context root topic part segment_bytes ring =
     \<lparr>pc_log = \<lparr>pl_log_root = root, pl_topic_name = topic, pl_partition = part\<rparr>,
      pc_next_offset = 0, pc_segment_base = 0, pc_current_bytes = 0,
      pc_segment_bytes = segment_bytes, pc_index = [], pc_ring = ring, pc_write_fd = - 1,
      pc_read_fd = - 1\<rparr>"

definition segment_file :: "PartitionContext \<Rightarrow> int64_t \<Rightarrow> os_file" where
  "segment_file c base = (dir_path (pc_log c), segment_name base)"

text \<open>The roll-over: close both descriptors and start a segment at the next offset.\<close>

definition roll_segment :: "PartitionContext \<Rightarrow> os_state \<Rightarrow> PartitionContext \<times> os_state" where
  "roll_segment c os =
     (let os1 = (if 0 \<le>s pc_write_fd c then sys_close (pc_write_fd c) os else os);
          os2 = (if 0 \<le>s pc_read_fd c then sys_close (pc_read_fd c) os1 else os1)
      in (c\<lparr>pc_write_fd := (if 0 \<le>s pc_write_fd c then - 1 else pc_write_fd c),
            pc_read_fd := (if 0 \<le>s pc_read_fd c then - 1 else pc_read_fd c),
            pc_segment_base := pc_next_offset c, pc_current_bytes := 0, pc_index := []\<rparr>, os2))"

definition maybe_roll :: "size_t \<Rightarrow> PartitionContext \<Rightarrow> os_state \<Rightarrow> PartitionContext \<times> os_state" where
  "maybe_roll blob_size c os =
     (if 0 < pc_segment_bytes c \<and> pc_segment_bytes c < pc_current_bytes c + blob_size
      then roll_segment c os else (c, os))"

definition ensure_write_fd :: "os_answers \<Rightarrow> PartitionContext \<Rightarrow> os_state \<Rightarrow> PartitionContext \<times> os_state" where
  "ensure_write_fd a c os =
     (if pc_write_fd c <s 0 then
        (let (fd, os') = sys_open_append (an_write_fd a) (segment_file c (pc_segment_base c)) os
         in (c\<lparr>pc_write_fd := fd\<rparr>, os'))
      else (c, os))"

definition index_batch :: "PartitionContext \<Rightarrow> PartitionContext" where
  "index_batch c =
     (if sint (pc_next_offset c) mod kSparseIndexInterval = 0
      then c\<lparr>pc_index := pc_index c @ [\<lparr>ie_offset = pc_next_offset c, ie_file_position = pc_current_bytes c\<rparr>]\<rparr>
      else c)"

definition write_batch :: "os_answers \<Rightarrow> bytes \<Rightarrow> PartitionContext \<Rightarrow> os_state \<Rightarrow> os_state" where
  "write_batch a blob c os =
     (if pc_ring c \<and> an_sqe a then ring_write (pc_write_fd c) blob os
      else sys_write (pc_write_fd c) blob (an_written a) os)"

definition produce ::
    "os_answers \<Rightarrow> bytes \<Rightarrow> PartitionContext \<Rightarrow> os_state \<Rightarrow> ProduceResult \<times> PartitionContext \<times> os_state" where
  "produce a blob c os =
     (case record_batch_count blob of
        Inl _ \<Rightarrow> (no_result, c, os)
      | Inr record_count \<Rightarrow>
          if \<not> an_mkdir_ok a then (no_result, c, os)
          else
            (let (c1, os1) = maybe_roll (length blob) c os;
                 (c2, os2) = ensure_write_fd a c1 os1
             in if pc_write_fd c2 <s 0 then (no_result, c2, os2)
                else
                  (let c3 = index_batch c2;
                       os3 = write_batch a blob c3 os2
                   in (\<lparr>res_base_offset = pc_next_offset c3, res_log_append_time_ms = an_now_ms a\<rparr>,
                       c3\<lparr>pc_current_bytes := pc_current_bytes c3 + length blob,
                          pc_next_offset := pc_next_offset c3 + scast record_count\<rparr>, os3))))"

section \<open>Reading\<close>

text \<open>\<open>fetch()\<close>.\<close>

definition dir_listing :: "os_state \<Rightarrow> string \<Rightarrow> dir_entry list" where
  "dir_listing os dir =
     map (\<lambda>(n, bs). \<lparr>de_name = n, de_regular = True, de_content = Some bs\<rparr>) (os_dirs os dir)"

definition fetch_all :: "PartitionContext \<Rightarrow> os_state \<Rightarrow> bytes expected" where
  "fetch_all c os = read_topic_log (dir_listing os (dir_path (pc_log c)))"

text \<open>The last index entry of the leading run of entries that are not beyond the offset.\<close>

fun best_entry :: "int64_t \<Rightarrow> SparseIndexEntry list \<Rightarrow> SparseIndexEntry option \<Rightarrow> SparseIndexEntry option" where
  "best_entry off [] best = best"
| "best_entry off (e # es) best = (if ie_offset e \<le>s off then best_entry off es (Some e) else best)"

definition ensure_read_fd ::
    "os_answers \<Rightarrow> int64_t \<Rightarrow> PartitionContext \<Rightarrow> os_state \<Rightarrow> PartitionContext \<times> os_state" where
  "ensure_read_fd a segment_base c os =
     (if 0 \<le>s pc_read_fd c then (c, os)
      else (let (fd, os') = sys_open_read (an_read_fd a) (segment_file c segment_base) os
            in (c\<lparr>pc_read_fd := fd\<rparr>, os')))"

text \<open>The read descriptor, opened on the current segment when there is none.\<close>

definition file_fd :: "os_answers \<Rightarrow> PartitionContext \<Rightarrow> os_state \<Rightarrow> int32_t \<times> PartitionContext \<times> os_state" where
  "file_fd a c os =
     (let (c', os') = (if pc_read_fd c <s 0 then ensure_read_fd a (pc_segment_base c) c os else (c, os))
      in (pc_read_fd c', c', os'))"

definition kMaxFetchChunk :: size_t where
  "kMaxFetchChunk = 10 * 1024 * 1024"

text \<open>The loop that skips records before the offset and stops when enough bytes are collected.\<close>

fun collect_records :: "int \<Rightarrow> int \<Rightarrow> size_t \<Rightarrow> bytes list \<Rightarrow> bytes \<Rightarrow> bytes" where
  "collect_records i skip_count max_bytes [] result = result"
| "collect_records i skip_count max_bytes (v # vs) result =
     (if i < skip_count then collect_records (i + 1) skip_count max_bytes vs result
      else if max_bytes \<le> length (result @ v) then result @ v
      else collect_records (i + 1) skip_count max_bytes vs (result @ v))"

text \<open>What \<open>fetch\<close> returns from the bytes read at the position of an index entry.\<close>

definition fetch_result :: "int64_t \<Rightarrow> int64_t \<Rightarrow> size_t \<Rightarrow> bytes \<Rightarrow> bytes expected" where
  "fetch_result off entry_offset max_size raw_data =
     (case parse_record_batch raw_data of
        Inl e \<Rightarrow> if e = length_error then Inl e else Inr (take max_size raw_data)
      | Inr records \<Rightarrow>
          if records = [] then Inr (take max_size raw_data)
          else Inr (take max_size
                 (collect_records 0 (sint (off - entry_offset)) max_size records [])))"

definition fetch_range ::
    "os_answers \<Rightarrow> int64_t \<Rightarrow> int32_t \<Rightarrow> PartitionContext \<Rightarrow> os_state
      \<Rightarrow> bytes expected \<times> PartitionContext \<times> os_state" where
  "fetch_range a off max_bytes c os =
     (if max_bytes \<le>s 0 then (Inr [], c, os)
      else
        (let best = best_entry off (pc_index c) None;
             start_position = (case best of Some e \<Rightarrow> ie_file_position e | None \<Rightarrow> 0);
             entry_offset = (case best of Some e \<Rightarrow> ie_offset e | None \<Rightarrow> 0);
             segment_base = (case best of Some _ \<Rightarrow> pc_segment_base c | None \<Rightarrow> 0);
             (c', os') = ensure_read_fd a segment_base c os;
             file_size = sys_size (pc_read_fd c') os';
             max_size = size_of_signed max_bytes;
             read_size = min (min (max_size * 2) kMaxFetchChunk) (size_minus file_size start_position)
         in (if file_size = 0 \<or> read_size = 0 then Inr []
             else (case sys_pread (pc_read_fd c') start_position read_size (an_pread a) os' of
                     None \<Rightarrow> Inr []
                   | Some raw_data \<Rightarrow> fetch_result off entry_offset max_size raw_data),
             c', os')))"

record SpliceInfo =
  si_fd :: int32_t
  si_file_offset :: size_t
  si_length :: size_t

definition splice_info :: "int64_t \<Rightarrow> int32_t \<Rightarrow> PartitionContext \<Rightarrow> SpliceInfo" where
  "splice_info fetch_offset max_bytes c =
     (let none = \<lparr>si_fd = - 1, si_file_offset = 0, si_length = 0\<rparr> in
      if \<not> 0 \<le>s pc_write_fd c then none
      else
        (let offset = (case best_entry fetch_offset (pc_index c) None of
                         Some e \<Rightarrow> ie_file_position e | None \<Rightarrow> 0);
             available = size_minus (pc_current_bytes c) offset
         in if available < 65536 then none
            else \<lparr>si_fd = pc_write_fd c, si_file_offset = offset,
                   si_length = min available (size_of_signed max_bytes)\<rparr>))"

section \<open>Files and completed writes\<close>

definition apply_writes ::
    "(os_file \<times> bytes) list \<Rightarrow> (string \<Rightarrow> (string \<times> bytes) list) \<Rightarrow> string \<Rightarrow> (string \<times> bytes) list" where
  "apply_writes ws d = fold (\<lambda>w. dir_append (fst w) (snd w)) ws d"

lemma os_dirs_settle: "os_dirs (settle os) = apply_writes (os_pending os) (os_dirs os)"
proof -
  have "os_dirs (fold (\<lambda>(f, bs). append_file f bs) ws os) = apply_writes ws (os_dirs os)" for ws
    by (induction ws arbitrary: os) (auto simp: apply_writes_def append_file_def)
  then show ?thesis by (simp add: settle_def)
qed

lemma append_file_pending: "append_file f bs (os\<lparr>os_pending := ws\<rparr>) = (append_file f bs os)\<lparr>os_pending := ws\<rparr>"
  by (simp add: append_file_def)

text \<open>Completing the oldest writes one by one is settling.\<close>

lemma settle_complete_write: "settle (complete_write 0 os) = settle os"
proof (cases "os_pending os")
  case (Cons w ws)
  have "fold (\<lambda>(f, bs). append_file f bs) ws (os1\<lparr>os_pending := ps\<rparr>)\<lparr>os_pending := []\<rparr> =
      fold (\<lambda>(f, bs). append_file f bs) ws os1\<lparr>os_pending := []\<rparr>" for os1 ps
    by (induction ws arbitrary: os1) (auto simp: append_file_pending)
  moreover obtain f bs where "w = (f, bs)" by (cases w) auto
  ultimately show ?thesis using Cons by (simp add: complete_write_def settle_def append_file_pending)
qed (simp add: complete_write_def)

lemma apply_writes_simps [simp]:
  "apply_writes [] d = d"
  "apply_writes (w # ws) d = apply_writes ws (dir_append (fst w) (snd w) d)"
  "apply_writes (ws @ [w]) d = dir_append (fst w) (snd w) (apply_writes ws d)"
  by (simp_all add: apply_writes_def)

definition has_file :: "(string \<Rightarrow> (string \<times> bytes) list) \<Rightarrow> os_file \<Rightarrow> bool" where
  "has_file d f \<longleftrightarrow> snd f \<in> set (map fst (d (fst f)))"

definition pending_ok :: "os_state \<Rightarrow> bool" where
  "pending_ok os \<longleftrightarrow> (\<forall>w\<in>set (os_pending os). has_file (os_dirs os) (fst w))"

lemma names_append_entry:
  "map fst (append_entry n bs es) = (if n \<in> set (map fst es) then map fst es else map fst es @ [n])"
proof (induction es)
  case (Cons e es)
  then show ?case by (cases e; cases "fst e = n") simp_all
qed simp

lemma append_entry_create:
  "n \<in> set (map fst es) \<Longrightarrow> append_entry m [] (append_entry n bs es) = append_entry n bs (append_entry m [] es)"
proof (induction es)
  case (Cons e es)
  then show ?case by (cases e; cases "fst e = n"; cases "fst e = m") simp_all
qed simp

lemma append_entry_last:
  "n \<notin> set (map fst es) \<Longrightarrow> append_entry n bs (es @ [(n, cs)]) = es @ [(n, cs @ bs)]"
  by (induction es) auto

lemma append_entry_new: "n \<notin> set (map fst es) \<Longrightarrow> append_entry n bs es = es @ [(n, bs)]"
  by (induction es) auto

lemma has_file_append [intro]: "has_file d g \<Longrightarrow> has_file (dir_append f bs d) g"
  unfolding has_file_def dir_append_def
  by (cases "fst g = fst f") (simp_all only: fun_upd_same fun_upd_other names_append_entry, auto)

lemma has_file_new [simp]: "has_file (dir_append f bs d) f"
  unfolding has_file_def dir_append_def by (simp only: fun_upd_same names_append_entry) simp

text \<open>Opening a file does not interfere with the writes that are still under way.\<close>

lemma dir_append_create:
  assumes "has_file d g"
  shows "dir_append f [] (dir_append g bs d) = dir_append g bs (dir_append f [] d)"
proof (cases "fst f = fst g")
  case True
  with append_entry_create [of "snd g" "d (fst g)" "snd f" bs] assms show ?thesis
    unfolding has_file_def dir_append_def by (simp only: fun_upd_same fun_upd_upd)
next
  case False
  then show ?thesis
    unfolding dir_append_def by (simp add: fun_upd_twist)
qed

lemma apply_writes_create:
  assumes "\<forall>w\<in>set ws. has_file d (fst w)"
  shows "apply_writes ws (dir_append f [] d) = dir_append f [] (apply_writes ws d)"
  using assms
proof (induction ws arbitrary: d)
  case (Cons w ws)
  have "\<forall>v\<in>set ws. has_file (dir_append (fst w) (snd w) d) (fst v)"
    using Cons.prems by auto
  with Cons.IH Cons.prems show ?case by (simp add: dir_append_create [symmetric])
qed simp

lemma apply_writes_has_file: "has_file d f \<Longrightarrow> has_file (apply_writes ws d) f"
  by (induction ws arbitrary: d) auto

section \<open>The segments of a partition\<close>

text \<open>
  \<open>seg_files c os segs\<close>: once the submitted writes complete, the directory of the partition holds
  exactly the segments \<open>segs\<close> (base offset and contents), in ascending order. A partition is
  either \<open>writing\<close> to the last of them or \<open>idle\<close>, with no descriptor open and nothing in its
  current segment yet.
\<close>

definition seg_files :: "PartitionContext \<Rightarrow> os_state \<Rightarrow> (int64_t \<times> bytes) list \<Rightarrow> bool" where
  "seg_files c os segs \<longleftrightarrow>
     pending_ok os \<and>
     os_dirs (settle os) (dir_path (pc_log c)) = map (\<lambda>s. (segment_name (fst s), snd s)) segs \<and>
     sorted_wrt (<) (map (\<lambda>s. sint (fst s)) segs) \<and>
     sint (pc_segment_base c) \<le> sint (pc_next_offset c)"

definition writing :: "PartitionContext \<Rightarrow> os_state \<Rightarrow> (int64_t \<times> bytes) list \<Rightarrow> bool" where
  "writing c os segs \<longleftrightarrow>
     seg_files c os segs \<and> 0 \<le>s pc_write_fd c \<and> segs \<noteq> [] \<and>
     fst (last segs) = pc_segment_base c \<and> length (snd (last segs)) = pc_current_bytes c \<and>
     os_fds os (pc_write_fd c) = Some (segment_file c (pc_segment_base c)) \<and>
     has_file (os_dirs os) (segment_file c (pc_segment_base c))"

definition idle :: "PartitionContext \<Rightarrow> os_state \<Rightarrow> (int64_t \<times> bytes) list \<Rightarrow> bool" where
  "idle c os segs \<longleftrightarrow>
     seg_files c os segs \<and> pc_write_fd c <s 0 \<and> pc_current_bytes c = 0 \<and>
     (\<forall>s\<in>set segs. sint (fst s) < sint (pc_segment_base c))"

definition holds :: "PartitionContext \<Rightarrow> os_state \<Rightarrow> (int64_t \<times> bytes) list \<Rightarrow> bool" where
  "holds c os segs \<longleftrightarrow>
     idle c os segs \<or> (writing c os segs \<and> sint (pc_segment_base c) < sint (pc_next_offset c))"

text \<open>What the system has to do for an append to succeed: the directory and the file can be opened,
  and the write is either queued or carried out in full with no queued write to overtake.\<close>

definition os_cooperates :: "os_answers \<Rightarrow> bytes \<Rightarrow> PartitionContext \<Rightarrow> os_state \<Rightarrow> bool" where
  "os_cooperates a blob c os \<longleftrightarrow>
     an_mkdir_ok a \<and> 0 \<le>s an_write_fd a \<and>
     (if pc_ring c then an_sqe a else os_pending os = [] \<and> length blob \<le> an_written a)"

lemma segment_name_inj: "segment_name a = segment_name b \<Longrightarrow> a = b"
  by (metis segment_name_parts(1) stoll_format_020d sum.inject(2))

lemma holds_new:
  assumes "os_pending os = []" and "os_dirs os (dir_path (pc_log (new_partition_context root topic part n ring))) = []"
  shows "holds (new_partition_context root topic part n ring) os []"
  using assms
  by (simp add: holds_def idle_def seg_files_def pending_ok_def os_dirs_settle new_partition_context_def
      word_sless_alt)

lemma bases_le_last:
  "sorted_wrt (<) (map f xs) \<Longrightarrow> x \<in> set xs \<Longrightarrow> f x \<le> (f (last xs) :: int)"
  by (induction xs) (auto simp: less_imp_le)

lemma idle_roll_segment:
  assumes "holds c os segs" and "roll_segment c os = (c', os')"
  shows "idle c' os' segs"
proof -
  have "sint (fst s) < sint (pc_next_offset c)" if "s \<in> set segs" for s
  proof (cases "idle c os segs")
    case True
    then show ?thesis using that by (fastforce simp: idle_def seg_files_def)
  next
    case False
    then have "writing c os segs" "sint (pc_segment_base c) < sint (pc_next_offset c)"
      using assms(1) by (simp_all add: holds_def)
    then show ?thesis
      using bases_le_last [of "\<lambda>s. sint (fst s)" segs s] that by (simp add: writing_def seg_files_def)
  qed
  moreover have "seg_files c os segs" using assms(1) by (auto simp: holds_def idle_def writing_def)
  moreover have "os_dirs os' = os_dirs os" "os_pending os' = os_pending os"
    using assms(2) by (auto simp: roll_segment_def Let_def sys_close_def)
  ultimately show ?thesis
    using assms(2)
    by (auto simp: idle_def seg_files_def pending_ok_def os_dirs_settle roll_segment_def Let_def
        word_sless_alt word_sle_eq)
qed

lemma holds_maybe_roll:
  assumes "holds c os segs" and "maybe_roll n c os = (c', os')"
  shows "holds c' os' segs" and "pc_next_offset c' = pc_next_offset c" and "pc_log c' = pc_log c"
    and "pc_ring c' = pc_ring c" and "os_pending os' = os_pending os"
    and "pc_segment_bytes c' = pc_segment_bytes c"
proof -
  show "holds c' os' segs"
    using assms idle_roll_segment [of c os segs c' os']
    by (auto simp: maybe_roll_def holds_def split: if_splits)
qed (use assms(2) in \<open>auto simp: maybe_roll_def roll_segment_def Let_def sys_close_def split: if_splits\<close>)

lemma names_of_segments: "n \<in> set (map fst (map (\<lambda>s. (segment_name (fst s), snd s)) segs)) \<longleftrightarrow>
    (\<exists>s\<in>set segs. n = segment_name (fst s))"
  by auto

lemma idle_fresh_name:
  assumes "idle c os segs"
  shows "segment_name (pc_segment_base c) \<notin> set (map fst (map (\<lambda>s. (segment_name (fst s), snd s)) segs))"
  using assms unfolding names_of_segments idle_def by (metis segment_name_inj less_irrefl)

lemma writing_open:
  assumes "idle c os segs" and "0 \<le>s an_write_fd a" and "ensure_write_fd a c os = (c', os')"
  shows "writing c' os' (segs @ [(pc_segment_base c, [])])"
proof -
  let ?f = "segment_file c (pc_segment_base c)"
  have fd: "\<not> an_write_fd a <s 0" using assms(2) by (simp add: word_sless_alt word_sle_eq)
  have open_eqs: "c' = c\<lparr>pc_write_fd := an_write_fd a\<rparr>"
    "os' = append_file ?f [] (os\<lparr>os_fds := (os_fds os)(an_write_fd a \<mapsto> ?f)\<rparr>)"
    using assms(1,3) fd by (auto simp: ensure_write_fd_def sys_open_append_def idle_def)
  have dirs: "os_dirs os' = dir_append ?f [] (os_dirs os)" "os_pending os' = os_pending os"
    by (simp_all add: open_eqs append_file_def)
  have "\<forall>w\<in>set (os_pending os). has_file (os_dirs os) (fst w)"
    using assms(1) by (simp add: idle_def seg_files_def pending_ok_def)
  then have "os_dirs (settle os') = dir_append ?f [] (os_dirs (settle os))"
    by (simp add: os_dirs_settle dirs apply_writes_create)
  then have "os_dirs (settle os') (dir_path (pc_log c)) =
      append_entry (segment_name (pc_segment_base c)) [] (map (\<lambda>s. (segment_name (fst s), snd s)) segs)"
    using assms(1) by (simp add: dir_append_def segment_file_def idle_def seg_files_def)
  also have "\<dots> = map (\<lambda>s. (segment_name (fst s), snd s)) (segs @ [(pc_segment_base c, [])])"
    by (simp add: append_entry_new [OF idle_fresh_name [OF assms(1)]])
  finally have "os_dirs (settle os') (dir_path (pc_log c)) =
      map (\<lambda>s. (segment_name (fst s), snd s)) (segs @ [(pc_segment_base c, [])])" .
  moreover have "pending_ok os'"
    using assms(1) by (auto simp: pending_ok_def dirs idle_def seg_files_def)
  moreover have "sorted_wrt (<) (map (\<lambda>s. sint (fst s)) (segs @ [(pc_segment_base c, [])]))"
    using assms(1) by (auto simp: sorted_wrt_append idle_def seg_files_def)
  ultimately show ?thesis
    using assms(1,2) dirs(1)
    by (simp add: writing_def seg_files_def idle_def open_eqs(1) segment_file_def)
      (simp add: open_eqs(2) append_file_def segment_file_def)
qed

lemma writing_batch:
  assumes "writing c os segs" and "os_cooperates a blob c os"
  shows "\<exists>cs. snd (last segs) = cs \<and>
    seg_files c (write_batch a blob c os) (butlast segs @ [(pc_segment_base c, cs @ blob)]) \<and>
    os_fds (write_batch a blob c os) = os_fds os \<and>
    has_file (os_dirs (write_batch a blob c os)) (segment_file c (pc_segment_base c))"
proof -
  let ?f = "segment_file c (pc_segment_base c)" and ?os = "write_batch a blob c os"
  let ?entry = "\<lambda>s. (segment_name (fst s), snd s)"
  have w: "os_fds os (pc_write_fd c) = Some ?f" "has_file (os_dirs os) ?f" "segs \<noteq> []"
    "fst (last segs) = pc_segment_base c"
    "pending_ok os" "os_dirs (settle os) (dir_path (pc_log c)) = map ?entry segs"
    "sorted_wrt (<) (map (\<lambda>s. sint (fst s)) segs)"
    using assms(1) by (auto simp: writing_def seg_files_def)
  have settled: "os_dirs (settle ?os) = dir_append ?f blob (os_dirs (settle os)) \<and> pending_ok ?os \<and>
      os_fds ?os = os_fds os \<and> has_file (os_dirs ?os) ?f"
  proof (cases "pc_ring c")
    case True
    then have "?os = os\<lparr>os_pending := os_pending os @ [(?f, blob)]\<rparr>"
      using assms(2) w(1) by (simp add: write_batch_def ring_write_def os_cooperates_def)
    with w show ?thesis by (auto simp: os_dirs_settle pending_ok_def)
  next
    case False
    then have "?os = append_file ?f blob os" "os_pending os = []"
      using assms(2) w(1) by (simp_all add: write_batch_def sys_write_def os_cooperates_def)
    with w show ?thesis by (auto simp: os_dirs_settle pending_ok_def append_file_def)
  qed
  define front where "front = butlast segs"
  define cs where "cs = snd (last segs)"
  have segs: "segs = front @ [(pc_segment_base c, cs)]"
    using w(3,4) by (metis append_butlast_last_id cs_def front_def prod.collapse)
  have fresh: "segment_name (pc_segment_base c) \<notin> set (map fst (map ?entry front))"
    using w(7) unfolding names_of_segments segs
    by (auto simp: sorted_wrt_append dest!: segment_name_inj)
  have "append_entry (segment_name (pc_segment_base c)) blob (map ?entry segs) =
      map ?entry (front @ [(pc_segment_base c, cs @ blob)])"
    using append_entry_last [OF fresh, of blob cs] by (simp add: segs)
  then have "os_dirs (settle ?os) (dir_path (pc_log c)) = map ?entry (front @ [(pc_segment_base c, cs @ blob)])"
    using settled w(6) by (simp add: dir_append_def segment_file_def)
  moreover have "sorted_wrt (<) (map (\<lambda>s. sint (fst s)) (front @ [(pc_segment_base c, cs @ blob)]))"
    using w(7) unfolding segs by simp
  ultimately show ?thesis
    using assms(1) settled by (simp add: writing_def seg_files_def front_def cs_def)
qed

lemma sint_add_count:
  fixes v :: int64_t and n :: int32_t
  assumes "0 \<le> sint v" and "0 \<le> sint n" and "sint v + sint n < 2 ^ 63"
  shows "sint (v + scast n) = sint v + sint n"
proof -
  have n: "sint (scast n :: int64_t) = sint n" by (rule sint_up_scast) (simp add: is_up)
  have "sint (v + scast n) = signed_take_bit 63 (sint v + sint n)"
    by (simp add: sint_word_ariths n)
  also have "\<dots> = sint v + sint n"
    using assms by (intro signed_take_bit_int_eq_self) simp_all
  finally show ?thesis .
qed

text \<open>Before the write: whatever the state, there is a segment to write to and the log is the same.\<close>

lemma prepared_to_write:
  assumes h: "holds c os segs" and fd: "0 \<le>s an_write_fd a"
    and r: "maybe_roll n c os = (c1, os1)" and e: "ensure_write_fd a c1 os1 = (c2, os2)"
  shows "\<exists>segs2. writing c2 os2 segs2 \<and> concat (map snd segs2) = concat (map snd segs)"
    and "pc_next_offset c2 = pc_next_offset c" and "pc_log c2 = pc_log c" and "pc_ring c2 = pc_ring c"
    and "os_pending os2 = os_pending os"
proof -
  note roll = holds_maybe_roll [OF h r]
  show "\<exists>segs2. writing c2 os2 segs2 \<and> concat (map snd segs2) = concat (map snd segs)"
  proof (cases "idle c1 os1 segs")
    case True
    from writing_open [OF this fd e] show ?thesis by force
  next
    case False
    then have "writing c1 os1 segs" using roll(1) by (simp add: holds_def)
    moreover from this have "(c2, os2) = (c1, os1)"
      using e by (auto simp: ensure_write_fd_def writing_def word_sless_alt word_sle_eq)
    ultimately show ?thesis by auto
  qed
  show "pc_next_offset c2 = pc_next_offset c" "pc_log c2 = pc_log c" "pc_ring c2 = pc_ring c"
    "os_pending os2 = os_pending os"
    using roll e by (auto simp: ensure_write_fd_def sys_open_append_def append_file_def split: if_splits)
qed

lemma index_batch_fields [simp]:
  "pc_next_offset (index_batch c) = pc_next_offset c" "pc_log (index_batch c) = pc_log c"
  "pc_ring (index_batch c) = pc_ring c" "pc_write_fd (index_batch c) = pc_write_fd c"
  "pc_segment_base (index_batch c) = pc_segment_base c"
  "pc_current_bytes (index_batch c) = pc_current_bytes c"
  "segment_file (index_batch c) = segment_file c"
  by (simp_all add: index_batch_def segment_file_def fun_eq_iff)

text \<open>The write and the bookkeeping behind it.\<close>

lemma written_batch:
  assumes w: "writing c os segs" and coop: "os_cooperates a blob c os"
    and grows: "sint (pc_next_offset c) < sint m"
    and c': "c' = index_batch c\<lparr>pc_current_bytes := pc_current_bytes c + length blob, pc_next_offset := m\<rparr>"
    and os': "os' = write_batch a blob (index_batch c) os"
  shows "\<exists>segs'. holds c' os' segs' \<and> concat (map snd segs') = concat (map snd segs) @ blob"
proof -
  let ?segs = "butlast segs @ [(pc_segment_base c, snd (last segs) @ blob)]"
  have "writing (index_batch c) os segs" using w by (simp add: writing_def seg_files_def)
  moreover have "os_cooperates a blob (index_batch c) os" using coop by (simp add: os_cooperates_def)
  ultimately have "seg_files (index_batch c) os' ?segs" "os_fds os' = os_fds os"
    "has_file (os_dirs os') (segment_file c (pc_segment_base c))"
    using writing_batch unfolding os' by fastforce+
  then have "writing c' os' ?segs \<and> sint (pc_segment_base c') < sint (pc_next_offset c')"
    using w grows by (simp add: writing_def seg_files_def c' segment_file_def)
  moreover have "concat (map snd ?segs) = concat (map snd segs) @ blob"
    using w by (cases segs rule: rev_cases) (simp_all add: writing_def)
  ultimately show ?thesis unfolding holds_def by blast
qed

text \<open>
  An append that the system lets through adds the batch to the end of the log and nothing else, and
  takes the next offset as its base offset.
\<close>

lemma produce_appends:
  assumes h: "holds c os segs" and coop: "os_cooperates a blob c os"
    and count: "record_batch_count blob = Inr n" "0 < sint n"
    and range: "0 \<le> sint (pc_next_offset c)" "sint (pc_next_offset c) + sint n < 2 ^ 63"
    and p: "produce a blob c os = (res, c', os')"
  shows "\<exists>segs'. holds c' os' segs' \<and> concat (map snd segs') = concat (map snd segs) @ blob"
    and "res_base_offset res = pc_next_offset c"
    and "sint (pc_next_offset c') = sint (pc_next_offset c) + sint n"
    and "pc_log c' = pc_log c" and "pc_ring c' = pc_ring c"
proof -
  obtain c1 os1 where r: "maybe_roll (length blob) c os = (c1, os1)" by fastforce
  obtain c2 os2 where e: "ensure_write_fd a c1 os1 = (c2, os2)" by fastforce
  have fd: "0 \<le>s an_write_fd a" using coop by (simp add: os_cooperates_def)
  note prep = prepared_to_write [OF h fd r e]
  obtain segs2 where w: "writing c2 os2 segs2" "concat (map snd segs2) = concat (map snd segs)"
    using prep(1) by auto
  have fd2: "\<not> pc_write_fd c2 <s 0" using w(1) by (simp add: writing_def word_sless_alt word_sle_eq)
  have eqs: "res = \<lparr>res_base_offset = pc_next_offset c, res_log_append_time_ms = an_now_ms a\<rparr>"
    "c' = index_batch c2\<lparr>pc_current_bytes := pc_current_bytes c2 + length blob,
            pc_next_offset := pc_next_offset c + scast n\<rparr>"
    "os' = write_batch a blob (index_batch c2) os2"
    using p coop count(1) fd2 by (auto simp: produce_def r e os_cooperates_def prep Let_def)
  have next_off: "sint (pc_next_offset c + scast n) = sint (pc_next_offset c) + sint n"
    using count(2) range by (intro sint_add_count) simp_all
  show "res_base_offset res = pc_next_offset c" "pc_log c' = pc_log c" "pc_ring c' = pc_ring c"
    "sint (pc_next_offset c') = sint (pc_next_offset c) + sint n"
    by (simp_all add: eqs prep next_off)
  have "os_cooperates a blob c2 os2" using coop by (simp add: os_cooperates_def prep)
  from written_batch [OF w(1) this _ eqs(2,3)] next_off count(2)
  show "\<exists>segs'. holds c' os' segs' \<and> concat (map snd segs') = concat (map snd segs) @ blob"
    by (simp add: prep w(2))
qed

text \<open>Reading the whole log back.\<close>

lemma fetch_all_holds:
  assumes "holds c os segs"
  shows "fetch_all c (settle os) = Inr (concat (map snd segs))"
proof -
  have s: "seg_files c os segs" using assms by (auto simp: holds_def idle_def writing_def)
  have listing: "dir_listing (settle os) (dir_path (pc_log c)) = map segment_entry segs"
    using s by (simp add: seg_files_def dir_listing_def segment_entry_def)
  have sorted: "sorted_wrt (<) (map (\<lambda>s. sint (fst s)) segs)" using s by (simp add: seg_files_def)
  then have "distinct (map sint (map fst segs))" by (simp add: strict_sorted_iff comp_def)
  then have d: "distinct (map fst segs)" by (simp only: distinct_map)
  have "sort_key (\<lambda>s. sint (fst s)) segs = segs"
    using sorted by (intro sort_key_id_if_sorted) (simp add: strict_sorted_imp_sorted)
  then show ?thesis by (simp add: fetch_all_def listing read_topic_log_segments [OF d])
qed

section \<open>The partition as an append-only log\<close>

definition log_append :: "os_answers \<Rightarrow> bytes \<Rightarrow> PartitionContext \<times> os_state \<Rightarrow> PartitionContext \<times> os_state" where
  "log_append a blob s = snd (produce a blob (fst s) (snd s))"

definition log_contents :: "PartitionContext \<times> os_state \<Rightarrow> bytes" where
  "log_contents s = (case fetch_all (fst s) (settle (snd s)) of Inl _ \<Rightarrow> [] | Inr bs \<Rightarrow> bs)"

definition log_position :: "PartitionContext \<times> os_state \<Rightarrow> int" where
  "log_position s = sint (pc_next_offset (fst s))"

definition batch_records :: "bytes \<Rightarrow> int" where
  "batch_records blob = (case record_batch_count blob of Inl _ \<Rightarrow> 0 | Inr n \<Rightarrow> sint n)"

definition log_good :: "PartitionContext \<times> os_state \<Rightarrow> bool" where
  "log_good s \<longleftrightarrow> (\<exists>segs. holds (fst s) (snd s) segs) \<and> 0 \<le> log_position s"

text \<open>An append that can succeed: a well-formed header with a positive number of records, offsets
  left, and a cooperating system.\<close>

definition log_can :: "os_answers \<Rightarrow> bytes \<Rightarrow> PartitionContext \<times> os_state \<Rightarrow> bool" where
  "log_can a blob s \<longleftrightarrow>
     0 < batch_records blob \<and> log_position s + batch_records blob < 2 ^ 63 \<and>
     os_cooperates a blob (fst s) (snd s)"

lemma log_contents_holds: "holds (fst s) (snd s) segs \<Longrightarrow> log_contents s = concat (map snd segs)"
  by (simp add: log_contents_def fetch_all_holds)

lemma log_append_step:
  assumes "log_good s" and "log_can a blob s"
  shows "log_good (log_append a blob s)"
    and "log_contents (log_append a blob s) = log_contents s @ blob"
    and "log_position (log_append a blob s) = log_position s + batch_records blob"
    and "res_base_offset (fst (produce a blob (fst s) (snd s))) = pc_next_offset (fst s)"
proof -
  obtain c os where s: "s = (c, os)" by fastforce
  obtain res c' os' where p: "produce a blob c os = (res, c', os')"
    by (cases "produce a blob c os") auto
  obtain segs where h: "holds c os segs" "0 \<le> sint (pc_next_offset c)"
    using assms(1) by (auto simp: log_good_def log_position_def s)
  have can: "os_cooperates a blob c os" "0 < batch_records blob"
    "sint (pc_next_offset c) + batch_records blob < 2 ^ 63"
    using assms(2) by (simp_all add: log_can_def log_position_def s)
  then obtain n where n: "record_batch_count blob = Inr n" "batch_records blob = sint n"
    by (cases "record_batch_count blob") (simp_all add: batch_records_def)
  note r = produce_appends [OF h(1) can(1) n(1) _ h(2) _ p]
  obtain segs' where segs': "holds c' os' segs'" "concat (map snd segs') = concat (map snd segs) @ blob"
    using r(1) can n by auto
  have pos: "sint (pc_next_offset c') = sint (pc_next_offset c) + sint n" using r(3) can n by simp
  show "log_good (log_append a blob s)"
    using segs'(1) pos h(2) can(2) n by (auto simp: log_good_def log_position_def log_append_def s p)
  show "log_contents (log_append a blob s) = log_contents s @ blob"
    using log_contents_holds [of "(c', os')" segs'] log_contents_holds [of s segs] h(1) segs'
    by (simp add: log_append_def s p)
  show "log_position (log_append a blob s) = log_position s + batch_records blob"
    using pos n by (simp add: log_position_def log_append_def s p)
  show "res_base_offset (fst (produce a blob (fst s) (snd s))) = pc_next_offset (fst s)"
    using r(2) can n by (simp add: s p)
qed

interpretation partition_log: append_log log_append log_contents log_position batch_records log_good log_can
  by unfold_locales (simp_all add: log_append_step)

text \<open>Without a ring no write is ever left under way.\<close>

lemma produce_pending:
  assumes "\<not> pc_ring c" and "produce a blob c os = (res, c', os')"
  shows "os_pending os' = os_pending os"
proof -
  have r: "os_pending (snd (maybe_roll n c os)) = os_pending os" "pc_ring (fst (maybe_roll n c os)) = pc_ring c" for n
    by (simp_all add: maybe_roll_def roll_segment_def sys_close_def Let_def)
  have w: "os_pending (snd (ensure_write_fd a c1 os1)) = os_pending os1"
      "pc_ring (fst (ensure_write_fd a c1 os1)) = pc_ring c1" for c1 os1
    by (simp_all add: ensure_write_fd_def sys_open_append_def append_file_def)
  have i: "pc_ring (index_batch c1) = pc_ring c1" for c1 by (simp add: index_batch_def)
  have b: "os_pending (write_batch a blob c1 os1) = os_pending os1" if "\<not> pc_ring c1" for c1 os1
    using that by (simp add: write_batch_def sys_write_def append_file_def split: option.splits)
  show ?thesis
    using assms r [of "length blob"] w [of "fst (maybe_roll (length blob) c os)" "snd (maybe_roll (length blob) c os)"]
    by (auto simp: produce_def Let_def case_prod_beta b i split: sum.splits if_splits)
qed

lemma settle_idle: "os_pending os = [] \<Longrightarrow> settle os = os"
  by (simp add: settle_def)

text \<open>An append that fails leaves the offsets alone: when \<open>produce\<close> reports failure, because
  the batch header is malformed, the directory cannot be created or the segment cannot be opened,
  the next offset is what it was, so no offset is skipped or given twice.\<close>

lemma produce_failed_offset:
  assumes "produce a blob c os = (res, c', os')" and "res = no_result"
    and "pc_next_offset c \<noteq> - 1"
  shows "pc_next_offset c' = pc_next_offset c"
  using assms
  by (auto simp: produce_def no_result_def Let_def maybe_roll_def roll_segment_def
      ensure_write_fd_def split: sum.splits if_splits prod.splits)

definition sample_answers :: os_answers where
  "sample_answers = \<lparr>an_now_ms = 5, an_mkdir_ok = True, an_write_fd = 3, an_read_fd = 4, an_sqe = False,
     an_written = 1000, an_pread = Some 1000\<rparr>"

definition sample_context :: PartitionContext where
  "sample_context = new_partition_context ''/logs'' ''t'' 0 1000 False"

definition sample_os :: os_state where
  "sample_os = \<lparr>os_dirs = (\<lambda>_. []), os_fds = (\<lambda>_. None), os_pending = []\<rparr>"

section \<open>Reading a range\<close>

text \<open>The loop over the records, seen through the final cut to the requested size.\<close>

lemma take_collect_records:
  "take m (collect_records i k m vs result) = take m (result @ concat (drop (nat (k - i)) vs))"
proof (induction vs arbitrary: i result)
  case (Cons v vs)
  show ?case
  proof (cases "i < k")
    case True
    then have "nat (k - i) = Suc (nat (k - (i + 1)))" by simp
    with True Cons.IH [of "i + 1" result] show ?thesis by simp
  next
    case False
    with Cons.IH [of "i + 1" "result @ v"] show ?thesis by simp
  qed
qed simp

lemma fetch_result_records:
  assumes "list_all batch_ok bs" and "batch_ok b" and "j < length (enc_batch b)"
    and "concat (map batch_values bs) \<noteq> []"
  shows "fetch_result off e m (concat (map enc_batch bs) @ take j (enc_batch b)) =
    Inr (take m (concat (drop (nat (sint (off - e))) (concat (map batch_values bs)))))"
  using parse_record_batch_prefix [OF assms] assms(4)
  by (simp add: fetch_result_def take_collect_records del: concat_eq_Nil_conv)


definition sample_segment :: os_state where
  "sample_segment = \<lparr>os_dirs = (\<lambda>_. [(''seg'', enc_batch sample_batch)]),
     os_fds = [4 \<mapsto> (''/logs'', ''seg'')], os_pending = []\<rparr>"


section \<open>Which segment a ranged fetch reads\<close>

lemma fetch_range_state:
  "0 <s max_bytes \<Longrightarrow>
   snd (fetch_range a off max_bytes c os) =
     ensure_read_fd a (case best_entry off (pc_index c) None of Some _ \<Rightarrow> pc_segment_base c | None \<Rightarrow> 0) c os"
  by (simp add: fetch_range_def Let_def word_sless_alt word_sle_eq split: prod.splits)



section \<open>Restarting\<close>

lemma append_entry_content:
  "map_of (append_entry n bs es) n = Some (case map_of es n of None \<Rightarrow> bs | Some cs \<Rightarrow> cs @ bs)"
  by (induction es) auto

lemma file_content_append:
  "file_content (append_file f bs os) f = Some (case file_content os f of None \<Rightarrow> bs | Some cs \<Rightarrow> cs @ bs)"
  by (simp add: file_content_def append_file_def dir_append_def append_entry_content)

lemma append_file_fds: "os_fds (append_file f bs os) = os_fds os"
  by (simp add: append_file_def)

lemma file_content_fds: "file_content (os\<lparr>os_fds := fds\<rparr>) f = file_content os f"
  by (simp add: file_content_def)



end
