(* ===== verification/Record_Handler.thy ===== *)
theory Record_Handler
  imports Partition_Context Cluster_Metadata
begin

text \<open>
  The record handler of \<open>src/src/broker/record_handler.cpp\<close>: ListOffsets, Produce and Fetch over
  the partition contexts of a reactor. The contexts are created on demand and kept under the key
  \<open>topic:partition\<close>. The answers of the operating system are given for each topic and partition
  of the request by their positions in it.
\<close>

section \<open>State\<close>

record RecordHandler =
  rh_log_root :: string
  rh_segment_bytes :: size_t
  rh_ring :: bool
  rh_metadata :: ClusterMetadata

record log_store =
  ls_contexts :: "string \<rightharpoonup> PartitionContext"
  ls_os :: os_state

type_synonym request_answers = "nat \<Rightarrow> nat \<Rightarrow> os_answers"

text \<open>
  A loop over the elements of a request, with their positions, that threads the state and ends
  at the first exception.
\<close>

fun each :: "(nat \<Rightarrow> 'x \<Rightarrow> 's \<Rightarrow> 'y expected \<times> 's) \<Rightarrow> nat \<Rightarrow> 'x list \<Rightarrow> 's \<Rightarrow> 'y list expected \<times> 's" where
  "each f k [] s = (Inr [], s)"
| "each f k (x # xs) s =
     (case f k x s of
        (Inl e, s') \<Rightarrow> (Inl e, s')
      | (Inr y, s') \<Rightarrow>
          (case each f (Suc k) xs s' of
             (Inl e, s'') \<Rightarrow> (Inl e, s'')
           | (Inr ys, s'') \<Rightarrow> (Inr (y # ys), s'')))"

section \<open>Lookups\<close>

definition find_topic_by_name :: "ClusterMetadata \<Rightarrow> string \<Rightarrow> TopicInfo option" where
  "find_topic_by_name meta name = map_option (\<lambda>i. cm_topics meta ! i) (cm_name_to_topic meta name)"

definition find_topic_by_uuid :: "ClusterMetadata \<Rightarrow> uuid \<Rightarrow> TopicInfo option" where
  "find_topic_by_uuid meta u = map_option (\<lambda>i. cm_topics meta ! i) (cm_uuid_to_topic meta u)"

definition context_key :: "string \<Rightarrow> int32_t \<Rightarrow> string" where
  "context_key topic part = topic @ '':'' @ to_string part"

definition get_or_create_context ::
    "RecordHandler \<Rightarrow> string \<Rightarrow> int32_t \<Rightarrow> log_store \<Rightarrow> PartitionContext \<times> log_store" where
  "get_or_create_context h topic part s =
     (let key = context_key topic part in
      case ls_contexts s key of
        Some c \<Rightarrow> (c, s)
      | None \<Rightarrow>
          (let c = new_partition_context (rh_log_root h) topic part (rh_segment_bytes h) (rh_ring h)
           in (c, s\<lparr>ls_contexts := (ls_contexts s)(key \<mapsto> c)\<rparr>)))"

definition put_context :: "string \<Rightarrow> int32_t \<Rightarrow> PartitionContext \<Rightarrow> os_state \<Rightarrow> log_store \<Rightarrow> log_store" where
  "put_context topic part c os s =
     s\<lparr>ls_contexts := (ls_contexts s)(context_key topic part \<mapsto> c), ls_os := os\<rparr>"

definition has_partition :: "TopicInfo option \<Rightarrow> int32_t \<Rightarrow> bool" where
  "has_partition info part \<longleftrightarrow> (case info of None \<Rightarrow> False | Some t \<Rightarrow> part \<in> set (ti_partitions t))"

section \<open>ListOffsets\<close>

definition list_offsets_partition ::
    "RecordHandler \<Rightarrow> string \<Rightarrow> TopicInfo option \<Rightarrow> nat \<Rightarrow> ListOffsetsPartitionRequest \<Rightarrow> log_store
      \<Rightarrow> ListOffsetsPartitionResponse expected \<times> log_store" where
  "list_offsets_partition h topic info k p s =
     (let resp = (\<lambda>err off. Inr \<lparr>lopr_partition_index = lop_partition_index p, lopr_error_code = err,
                                  lopr_offset = off, lopr_timestamp = - 1\<rparr>)
      in if has_partition info (lop_partition_index p) then
           (if lop_timestamp p = - 2 then (resp 0 0, s)
            else if lop_timestamp p = - 1 then
              (let (c, s') = get_or_create_context h topic (lop_partition_index p) s
               in (resp 0 (pc_next_offset c), s'))
            else (resp (- 1) (- 1), s))
         else (resp 3 (- 1), s))"

definition list_offsets_topic ::
    "RecordHandler \<Rightarrow> nat \<Rightarrow> ListOffsetsTopicRequest \<Rightarrow> log_store
      \<Rightarrow> ListOffsetsTopicResponse expected \<times> log_store" where
  "list_offsets_topic h k t s =
     (let info = find_topic_by_name (rh_metadata h) (lot_topic_name t);
          (parts, s') = each (list_offsets_partition h (lot_topic_name t) info) 0 (lot_partitions t) s
      in (map_sum id (\<lambda>ps. \<lparr>lotr_topic_name = lot_topic_name t, lotr_partitions = ps\<rparr>) parts, s'))"

definition handle_list_offsets ::
    "RecordHandler \<Rightarrow> ListOffsetsRequest \<Rightarrow> log_store \<Rightarrow> ListOffsetsResponse expected \<times> log_store" where
  "handle_list_offsets h r s =
     (let (topics, s') = each (list_offsets_topic h) 0 (lo_topics r) s
      in (map_sum id (\<lambda>ts. \<lparr>lor_correlation_id = correlation_id (lo_header r),
                            lor_throttle_time_ms = 0, lor_topics = ts\<rparr>) topics, s'))"

section \<open>Produce\<close>

definition produce_partition ::
    "RecordHandler \<Rightarrow> (nat \<Rightarrow> os_answers) \<Rightarrow> string \<Rightarrow> TopicInfo option \<Rightarrow> nat
      \<Rightarrow> ProducePartitionRequest \<Rightarrow> log_store \<Rightarrow> ProducePartitionResponse expected \<times> log_store" where
  "produce_partition h an topic info k p s =
     (let resp = (\<lambda>err base time start.
            Inr \<lparr>ppr_partition_index = pp_partition_index p, ppr_error_code = err,
                 ppr_base_offset = base, ppr_log_append_time_ms = time, ppr_log_start_offset = start\<rparr>)
      in if has_partition info (pp_partition_index p) then
           (if pp_records p = [] then (resp 0 0 (- 1) 0, s)
            else
              (let (c, s1) = get_or_create_context h topic (pp_partition_index p) s;
                   (res, c', os') = produce (an k) (pp_records p) c (ls_os s1);
                   failed = (res_base_offset res <s 0)
               in (resp (if failed then 56 else 0) (res_base_offset res) (res_log_append_time_ms res)
                        (if failed then - 1 else 0),
                   put_context topic (pp_partition_index p) c' os' s1)))
         else (resp 3 (- 1) (- 1) (- 1), s))"

definition produce_topic ::
    "RecordHandler \<Rightarrow> request_answers \<Rightarrow> nat \<Rightarrow> ProduceTopicRequest \<Rightarrow> log_store
      \<Rightarrow> ProduceTopicResponse expected \<times> log_store" where
  "produce_topic h an k t s =
     (let info = find_topic_by_name (rh_metadata h) (pt_topic_name t);
          (parts, s') = each (produce_partition h (an k) (pt_topic_name t) info) 0 (pt_partitions t) s
      in (map_sum id (\<lambda>ps. \<lparr>ptr_topic_name = pt_topic_name t, ptr_partitions = ps\<rparr>) parts, s'))"

definition handle_produce ::
    "RecordHandler \<Rightarrow> request_answers \<Rightarrow> ProduceRequest \<Rightarrow> log_store
      \<Rightarrow> ProduceResponse expected \<times> log_store" where
  "handle_produce h an r s =
     (let (topics, s') = each (produce_topic h an) 0 (produce_topics r) s
      in (map_sum id (\<lambda>ts. \<lparr>pr_correlation_id = correlation_id (produce_header r),
                            pr_throttle_time_ms = 0, pr_responses = ts\<rparr>) topics, s'))"

section \<open>Fetch\<close>

definition fetch_partition ::
    "RecordHandler \<Rightarrow> (nat \<Rightarrow> os_answers) \<Rightarrow> string \<Rightarrow> nat \<Rightarrow> FetchPartitionRequest \<Rightarrow> log_store
      \<Rightarrow> FetchPartitionResponse expected \<times> log_store" where
  "fetch_partition h an topic k p s =
     (let (c, s1) = get_or_create_context h topic (fp_partition_index p) s;
          off = (if 0 <s fp_fetch_offset p then fp_fetch_offset p else 0);
          mb = (if 0 <s fp_max_bytes p then fp_max_bytes p else 1048576);
          si = splice_info off mb c;
          resp = (\<lambda>records fd file_off len.
            \<lparr>fpr_partition_index = fp_partition_index p, fpr_error_code = 0, fpr_records = records,
             fpr_splice_fd = fd, fpr_splice_offset = file_off, fpr_splice_len = len\<rparr>)
      in if 0 \<le>s si_fd si then
           (Inr (resp [] (si_fd si) (si_file_offset si) (si_length si)), s1)
         else if 0 <s fp_fetch_offset p \<or> 0 <s fp_max_bytes p then
           (let (records, c', os') = fetch_range (an k) (fp_fetch_offset p) (fp_max_bytes p) c (ls_os s1)
            in (map_sum id (\<lambda>rs. resp rs (- 1) 0 0) records,
                put_context topic (fp_partition_index p) c' os' s1))
         else
           (map_sum id (\<lambda>rs. resp rs (- 1) 0 0) (fetch_all c (ls_os s1)), s1))"

definition fetch_topic_step ::
    "RecordHandler \<Rightarrow> request_answers \<Rightarrow> nat \<Rightarrow> FetchTopicRequest \<Rightarrow> log_store
      \<Rightarrow> FetchTopicResponse expected \<times> log_store" where
  "fetch_topic_step h an k t s =
     (case find_topic_by_uuid (rh_metadata h) (ft_topic_id t) of
        Some info \<Rightarrow>
          (let (parts, s') = each (fetch_partition h (an k) (ti_name info)) 0 (ft_partitions t) s
           in (map_sum id (\<lambda>ps. \<lparr>ftr_topic_id = ft_topic_id t, ftr_partitions = ps\<rparr>) parts, s'))
      | None \<Rightarrow>
          (Inr \<lparr>ftr_topic_id = ft_topic_id t,
                ftr_partitions = [\<lparr>fpr_partition_index = 0, fpr_error_code = 100, fpr_records = [],
                                   fpr_splice_fd = - 1, fpr_splice_offset = 0, fpr_splice_len = 0\<rparr>]\<rparr>, s))"

definition handle_fetch ::
    "RecordHandler \<Rightarrow> request_answers \<Rightarrow> FetchRequest \<Rightarrow> log_store \<Rightarrow> FetchResponse expected \<times> log_store" where
  "handle_fetch h an r s =
     (let (topics, s') = each (fetch_topic_step h an) 0 (fetch_topics r) s
      in (map_sum id (\<lambda>ts. \<lparr>fr_correlation_id = correlation_id (fetch_header r),
                            fr_throttle_time_ms = 0, fr_error_code = 0, fr_session_id = 0,
                            fr_responses = ts\<rparr>) topics, s'))"

section \<open>Loops over a request\<close>

lemma each_invariant:
  assumes "\<And>k x s. x \<in> set xs \<Longrightarrow> P s \<Longrightarrow> P (snd (f k x s))" and "P s"
  shows "P (snd (each f k xs s))"
  using assms
proof (induction xs arbitrary: k s)
  case (Cons x xs)
  obtain y s' where f: "f k x s = (y, s')" by fastforce
  have "P s'" using Cons.prems(1) [of x s k] Cons.prems(2) f by simp
  then have "P (snd (each f (Suc k) xs s'))" using Cons.prems(1) by (intro Cons.IH) simp_all
  with \<open>P s'\<close> show ?case by (auto simp: f split: sum.splits prod.splits)
qed simp

lemma each_total:
  assumes "\<And>k x s. x \<in> set xs \<Longrightarrow> \<exists>y. fst (f k x s) = Inr y"
  shows "\<exists>ys. fst (each f k xs s) = Inr ys \<and> length ys = length xs"
  using assms
proof (induction xs arbitrary: k s)
  case (Cons x xs)
  obtain y s' where f: "f k x s = (Inr y, s')" using Cons.prems [of x k s] by (cases "f k x s") auto
  obtain ys where "fst (each f (Suc k) xs s') = Inr ys" "length ys = length xs"
    using Cons.IH [of "Suc k" s'] Cons.prems by auto
  then show ?case by (cases "each f (Suc k) xs s'") (simp add: f)
qed simp

lemma each_error:
  assumes "fst (each f k xs s) = Inl err"
  shows "\<exists>k x s. x \<in> set xs \<and> fst (f k x s) = Inl err"
  using assms
proof (induction xs arbitrary: k s)
  case (Cons x xs)
  obtain y s' where f: "f k x s = (y, s')" by fastforce
  show ?case
  proof (cases y)
    case (Inl e)
    with f Cons.prems have "fst (f k x s) = Inl err" by simp
    then show ?thesis by (intro exI [of _ k] exI [of _ x] exI [of _ s]) simp
  next
    case (Inr z)
    with f Cons.prems have "fst (each f (Suc k) xs s') = Inl err" by (auto split: prod.splits sum.splits)
    from Cons.IH [OF this] show ?thesis by auto
  qed
qed simp

text \<open>The exceptions of Fetch: a batch with a negative record count, and file names without a number.\<close>

definition fetch_exceptions :: "errc set" where
  "fetch_exceptions = {length_error, invalid_argument, out_of_range}"

lemma fetch_partition_errors: "fst (fetch_partition h an topic k p s) = Inl err \<Longrightarrow> err \<in> fetch_exceptions"
  by (auto simp: fetch_partition_def fetch_range_def fetch_result_def fetch_all_def fetch_exceptions_def
      map_sum_def Let_def dest!: read_topic_log_errors split: prod.splits sum.splits option.splits if_splits)

lemma fetch_errors:
  assumes "fst (handle_fetch h an r s) = Inl err"
  shows "err \<in> fetch_exceptions"
proof -
  obtain k t s1 where "fst (fetch_topic_step h an k t s1) = Inl err"
    using assms by (auto simp: handle_fetch_def case_prod_beta map_sum_def dest!: each_error split: sum.splits)
  then obtain name k1 p s2 where "fst (fetch_partition h (an k) name k1 p s2) = Inl err"
    by (auto simp: fetch_topic_step_def case_prod_beta map_sum_def dest!: each_error split: sum.splits option.splits)
  then show ?thesis by (rule fetch_partition_errors)
qed

section \<open>The table of partitions\<close>

lemma to_string_inj: "to_string v = to_string w \<Longrightarrow> v = w"
proof -
  assume eq: "to_string v = to_string w"
  have hd: "hd (digits n) \<noteq> CHR ''-''" for n
    using digits_are_digits [of n] by (cases "digits n") (auto simp: is_digit_def)
  show "v = w"
  proof (cases "v <s 0"; cases "w <s 0")
    assume "v <s 0" "w <s 0"
    with eq have "nat (- sint v) = nat (- sint w)" by (auto simp: to_string_def dest!: digits_inj)
    with \<open>v <s 0\<close> \<open>w <s 0\<close> show ?thesis
      by (intro signed_word_eqI [where ?'a = int]) (simp add: word_sless_alt)
  next
    assume "\<not> v <s 0" "\<not> w <s 0"
    with eq show ?thesis by (intro to_string_inj_nonneg) (simp_all add: word_sless_alt)
  next
    assume "v <s 0" "\<not> w <s 0"
    with eq hd [of "nat (sint w)"] show ?thesis by (metis append_Cons list.sel(1) to_string_def)
  next
    assume "\<not> v <s 0" "w <s 0"
    with eq hd [of "nat (sint v)"] show ?thesis by (metis append_Cons list.sel(1) to_string_def)
  qed
qed

lemma to_string_no_colon: "CHR '':'' \<notin> set (to_string v)"
proof -
  have "CHR '':'' \<notin> set (digits n)" for n
    using digits_are_digits [of n] by (auto simp: list_all_iff is_digit_def)
  then show ?thesis by (simp add: to_string_def)
qed

lemma last_separator:
  assumes "a @ c # x = b @ c # y" and "c \<notin> set x" and "c \<notin> set y"
  shows "a = b \<and> x = y"
proof -
  have "takeWhile (\<lambda>d. d \<noteq> c) (rev (a @ c # x)) = rev x" "takeWhile (\<lambda>d. d \<noteq> c) (rev (b @ c # y)) = rev y"
    using assms(2,3) by (simp_all add: takeWhile_append)
  with assms(1) show ?thesis by simp
qed

lemma context_key_inj: "context_key t p = context_key u q \<Longrightarrow> t = u \<and> p = q"
  using last_separator [of t "CHR '':''" "to_string p" u "to_string q"] to_string_no_colon to_string_inj
  by (simp add: context_key_def)

text \<open>The context a request meets under a topic and a partition.\<close>

definition context_at :: "RecordHandler \<Rightarrow> log_store \<Rightarrow> string \<times> int32_t \<Rightarrow> PartitionContext" where
  "context_at h s k = fst (get_or_create_context h (fst k) (snd k) s)"

interpretation contexts: keyed_store "\<lambda>os k c s. put_context (fst k) (snd k) c os s" "context_at h"
  by unfold_locales
    (auto simp: context_at_def get_or_create_context_def put_context_def Let_def prod_eq_iff
      dest: context_key_inj split: option.splits)

lemma get_or_create_contextD:
  assumes "get_or_create_context h t p s = (c, s1)"
  shows "context_at h s1 k = context_at h s k" and "c = context_at h s (t, p)" and "ls_os s1 = ls_os s"
  using assms
  by (auto simp: context_at_def get_or_create_context_def Let_def prod_eq_iff
      dest: context_key_inj split: option.splits if_splits)

text \<open>The store when all submitted writes are done.\<close>

definition settled :: "log_store \<Rightarrow> log_store" where
  "settled s = s\<lparr>ls_os := settle (ls_os s)\<rparr>"

lemma context_at_settled: "context_at h (settled s) k = context_at h s k"
  by (simp add: context_at_def get_or_create_context_def settled_def Let_def split: option.split)

section \<open>Isolation of partitions\<close>

text \<open>A request leaves every partition it does not name exactly as it is.\<close>

lemma list_offsets_contexts:
  "context_at h (snd (handle_list_offsets h r s)) key = context_at h s key"
proof -
  let ?P = "\<lambda>s'. context_at h s' key = context_at h s key"
  have part: "?P (snd (list_offsets_partition h t info k p s'))" if "?P s'" for t info k p s'
    using that
    by (auto simp: list_offsets_partition_def Let_def get_or_create_contextD(1) split: prod.splits)
  have topic: "?P (snd (list_offsets_topic h k t s'))" if "?P s'" for k t s'
  proof -
    have "?P (snd (each (list_offsets_partition h (lot_topic_name t) info) 0 (lot_partitions t) s'))" for info
      by (rule each_invariant [where P = ?P]) (simp_all add: part that)
    then show ?thesis by (simp add: list_offsets_topic_def Let_def case_prod_beta)
  qed
  have "?P (snd (each (list_offsets_topic h) 0 (lo_topics r) s))"
    by (rule each_invariant [where P = ?P]) (simp_all add: topic)
  then show ?thesis by (simp add: handle_list_offsets_def case_prod_beta)
qed

definition produced_keys :: "ProduceRequest \<Rightarrow> (string \<times> int32_t) set" where
  "produced_keys r =
     {(pt_topic_name t, pp_partition_index p) | t p.
        t \<in> set (produce_topics r) \<and> p \<in> set (pt_partitions t)}"

lemma produce_partition_other:
  assumes "(topic, pp_partition_index p) \<noteq> key"
  shows "context_at h (snd (produce_partition h an topic info k p s)) key = context_at h s key"
  using assms contexts.get_put [where h = h and k = "(topic, pp_partition_index p)" and k' = key]
  by (auto simp: produce_partition_def Let_def get_or_create_contextD(1) split: prod.splits)

lemma produce_isolated:
  assumes "key \<notin> produced_keys r"
  shows "context_at h (snd (handle_produce h an r s)) key = context_at h s key"
proof -
  let ?P = "\<lambda>s'. context_at h s' key = context_at h s key"
  have topic: "?P (snd (produce_topic h an k t s'))" if "?P s'" "t \<in> set (produce_topics r)" for k t s'
  proof -
    have "(pt_topic_name t, pp_partition_index p) \<noteq> key" if "p \<in> set (pt_partitions t)" for p
      using assms \<open>t \<in> set (produce_topics r)\<close> that by (auto simp: produced_keys_def)
    then have "?P (snd (each (produce_partition h (an k) (pt_topic_name t) info) 0 (pt_partitions t) s'))" for info
      using that(1) by (intro each_invariant [where P = ?P]) (simp_all add: produce_partition_other)
    then show ?thesis by (simp add: produce_topic_def Let_def case_prod_beta)
  qed
  have "?P (snd (each (produce_topic h an) 0 (produce_topics r) s))"
    by (rule each_invariant [where P = ?P]) (simp_all add: topic)
  then show ?thesis by (simp add: handle_produce_def case_prod_beta)
qed

section \<open>Answers\<close>

text \<open>Produce and ListOffsets always answer, with one entry per topic and partition of the request.\<close>

lemma produce_answers: "\<exists>resp. fst (handle_produce h an r s) = Inr resp \<and>
    pr_correlation_id resp = correlation_id (produce_header r) \<and>
    length (pr_responses resp) = length (produce_topics r)"
proof -
  have "\<exists>y. fst (produce_partition h a t info k p s') = Inr y" for a t info k p s'
    by (auto simp: produce_partition_def Let_def split: prod.splits)
  then have "\<exists>ys. fst (each (produce_partition h a t info) 0 ps s') = Inr ys" for a t info ps s'
    using each_total [of ps "produce_partition h a t info"] by blast
  then have "\<exists>y. fst (produce_topic h an k t s') = Inr y" for k t s'
    by (simp add: produce_topic_def Let_def case_prod_beta) (metis map_sum.simps(2))
  then obtain ts where "fst (each (produce_topic h an) 0 (produce_topics r) s) = Inr ts"
    "length ts = length (produce_topics r)"
    using each_total [of "produce_topics r" "produce_topic h an"] by blast
  then show ?thesis by (simp add: handle_produce_def case_prod_beta)
qed

lemma list_offsets_answers: "\<exists>resp. fst (handle_list_offsets h r s) = Inr resp \<and>
    lor_correlation_id resp = correlation_id (lo_header r) \<and>
    length (lor_topics resp) = length (lo_topics r)"
proof -
  have "\<exists>y. fst (list_offsets_partition h t info k p s') = Inr y" for t info k p s'
    by (auto simp: list_offsets_partition_def Let_def split: prod.splits)
  then have "\<exists>ys. fst (each (list_offsets_partition h t info) 0 ps s') = Inr ys" for t info ps s'
    using each_total [of ps "list_offsets_partition h t info"] by blast
  then have "\<exists>y. fst (list_offsets_topic h k t s') = Inr y" for k t s'
    by (simp add: list_offsets_topic_def Let_def case_prod_beta) (metis map_sum.simps(2))
  then obtain ts where "fst (each (list_offsets_topic h) 0 (lo_topics r) s) = Inr ts"
    "length ts = length (lo_topics r)"
    using each_total [of "lo_topics r" "list_offsets_topic h"] by blast
  then show ?thesis by (simp add: handle_list_offsets_def case_prod_beta)
qed

text \<open>
  An accepted batch moves the latest offset of its partition by the number of its records: the
  context found under the partition afterwards is the one \<open>produce\<close> left.
\<close>

lemma produce_partition_accepted:
  assumes "has_partition info (pp_partition_index p)" and "pp_records p \<noteq> []"
    and "log_good (context_at h s (topic, pp_partition_index p), ls_os s)"
    and "log_can (an k) (pp_records p) (context_at h s (topic, pp_partition_index p), ls_os s)"
  defines "c \<equiv> context_at h s (topic, pp_partition_index p)"
  defines "s' \<equiv> snd (produce_partition h an topic info k p s)"
  shows "fst (produce_partition h an topic info k p s) =
      Inr \<lparr>ppr_partition_index = pp_partition_index p, ppr_error_code = 0,
           ppr_base_offset = pc_next_offset c, ppr_log_append_time_ms = an_now_ms (an k),
           ppr_log_start_offset = 0\<rparr>"
    and "(context_at h s' (topic, pp_partition_index p), ls_os s') = log_append (an k) (pp_records p) (c, ls_os s)"
proof -
  obtain c0 s1 where g: "get_or_create_context h topic (pp_partition_index p) s = (c0, s1)" by fastforce
  have c0: "c0 = c" "ls_os s1 = ls_os s" using get_or_create_contextD(2,3) [OF g] by (simp_all add: c_def)
  obtain res c' os' where pr: "produce (an k) (pp_records p) c (ls_os s) = (res, c', os')"
    by (cases "produce (an k) (pp_records p) c (ls_os s)") auto
  have base: "res_base_offset res = pc_next_offset c"
    using log_append_step(4) [OF assms(3,4)] pr by (simp add: c_def)
  have "0 \<le> sint (pc_next_offset c)" using assms(3) by (simp add: log_good_def log_position_def c_def)
  then have ok: "\<not> res_base_offset res <s 0" by (simp add: base word_sless_alt)
  then have "res \<noteq> no_result" by (auto simp: no_result_def word_sless_alt)
  then have time: "res_log_append_time_ms res = an_now_ms (an k)"
    using pr by (auto simp: produce_def Let_def split: sum.splits if_splits prod.splits)
  show "fst (produce_partition h an topic info k p s) =
      Inr \<lparr>ppr_partition_index = pp_partition_index p, ppr_error_code = 0,
           ppr_base_offset = pc_next_offset c, ppr_log_append_time_ms = an_now_ms (an k),
           ppr_log_start_offset = 0\<rparr>"
    using assms(1,2) ok base time by (simp add: produce_partition_def g c0 pr)
  have "s' = put_context topic (pp_partition_index p) c' os' s1"
    using assms(1,2) by (simp add: s'_def produce_partition_def g c0 pr Let_def)
  moreover have "context_at h (put_context topic (pp_partition_index p) c' os' s1) (topic, pp_partition_index p) = c'"
    using contexts.get_put [where h = h and k = "(topic, pp_partition_index p)" and k' = "(topic, pp_partition_index p)"]
    by simp
  ultimately show "(context_at h s' (topic, pp_partition_index p), ls_os s') =
      log_append (an k) (pp_records p) (c, ls_os s)"
    by (simp add: log_append_def pr put_context_def)
qed

end
