(* ===== verification/Byte_Writer.thy ===== *)
theory Byte_Writer
  imports Varint
begin

text \<open>
  The class \<open>ByteWriter\<close> of \<open>src/src/util/byte_writer.hpp\<close>: a fixed buffer and an offset.
  The writer does not grow its buffer. Every fixed-size operation asserts that the bytes fit; a
  store that does not fit (a failed assertion, or a write past the end where assertions are
  compiled out or absent) is the value \<open>None\<close> of the model.

  All operations are stores of a computable byte sequence at the offset, and a sequence of stores
  is the store of the concatenation; this turns a whole serializer into one store.
\<close>

section \<open>The writer and its operations\<close>

record byte_writer =
  wr_data :: bytes
  wr_offset :: size_t

type_synonym writing = "byte_writer \<Rightarrow> byte_writer option"

definition ByteWriter :: "bytes \<Rightarrow> byte_writer" where
  "ByteWriter buf = \<lparr>wr_data = buf, wr_offset = 0\<rparr>"

text \<open>\<open>written()\<close>: the bytes before the offset.\<close>

definition written :: "byte_writer \<Rightarrow> bytes" where
  "written w = take (wr_offset w) (wr_data w)"

definition store :: "bytes \<Rightarrow> writing" where
  "store bs w =
     (if wr_offset w + length bs \<le> length (wr_data w)
      then Some \<lparr>wr_data = take (wr_offset w) (wr_data w) @ bs
                   @ drop (wr_offset w + length bs) (wr_data w),
                 wr_offset = wr_offset w + length bs\<rparr>
      else None)"

definition write_int8 :: "uint8_t \<Rightarrow> writing" where
  "write_int8 v = store [v]"

definition write_int16 :: "int16_t \<Rightarrow> writing" where
  "write_int16 v = store (write_int16_be v)"

definition write_int32 :: "int32_t \<Rightarrow> writing" where
  "write_int32 v = store (write_int32_be v)"

definition write_int64 :: "int64_t \<Rightarrow> writing" where
  "write_int64 v = store (write_int64_be v)"

definition write_bytes :: "bytes \<Rightarrow> writing" where
  "write_bytes bs = store bs"

definition write_varint :: "uint32_t \<Rightarrow> writing" where
  "write_varint v = store (write_unsigned_varint v)"

text \<open>The member function \<open>write_signed_varint\<close>.\<close>

definition write_svarint :: "int32_t \<Rightarrow> writing" where
  "write_svarint v = store (write_signed_varint v)"

text \<open>One operation after another; a failed one ends the sequence.\<close>

fun wseq :: "writing list \<Rightarrow> writing" where
  "wseq [] w = Some w"
| "wseq (a # as) w = (case a w of None \<Rightarrow> None | Some w' \<Rightarrow> wseq as w')"

definition write_compact_string :: "string \<Rightarrow> writing" where
  "write_compact_string str =
     wseq [write_varint (u32_of_size (length str) + 1), write_bytes (bytes_of_chars str)]"

text \<open>A \<open>for\<close> loop over a vector.\<close>

definition wfor :: "'a list \<Rightarrow> ('a \<Rightarrow> writing) \<Rightarrow> writing" where
  "wfor xs f = wseq (map f xs)"

section \<open>Sequences of stores\<close>

lemma store_Nil: "wr_offset w \<le> length (wr_data w) \<Longrightarrow> store [] w = Some w"
  by (simp add: store_def)

lemma store_append:
  fixes as bs :: bytes and w :: byte_writer
  shows "(case store as w of None \<Rightarrow> None | Some w' \<Rightarrow> store bs w') = store (as @ bs) w"
  by (auto simp: store_def ac_simps)

text \<open>
  \<open>emits a bs\<close>: on a writer whose offset lies in its buffer, \<open>a\<close> is the store of \<open>bs\<close>.
\<close>

definition emits :: "writing \<Rightarrow> bytes \<Rightarrow> bool" where
  "emits a bs \<longleftrightarrow> (\<forall>w. wr_offset w \<le> length (wr_data w) \<longrightarrow> a w = store bs w)"

lemma emitsD: "emits a bs \<Longrightarrow> wr_offset w \<le> length (wr_data w) \<Longrightarrow> a w = store bs w"
  by (simp add: emits_def)

lemma emits_store [emits_intros]: "emits (store bs) bs"
  by (simp add: emits_def)

lemma emits_ops [emits_intros]:
  shows "emits (write_int8 b) [b]" and "emits (write_int16 v16) (write_int16_be v16)"
    and "emits (write_int32 v32) (write_int32_be v32)"
    and "emits (write_int64 v64) (write_int64_be v64)"
    and "emits (write_bytes bs) bs"
    and "emits (write_varint u) (write_unsigned_varint u)"
    and "emits (write_svarint v32) (write_signed_varint v32)"
  by (simp_all add: emits_def write_int8_def write_int16_def write_int32_def write_int64_def
      write_bytes_def write_varint_def write_svarint_def)

lemma emits_wseq_Nil [emits_intros]: "emits (wseq []) []"
  by (simp add: emits_def store_Nil)

lemma emits_wseq_Cons [emits_intros]:
  assumes "emits a bs" and "emits (wseq as) cs"
  shows "emits (wseq (a # as)) (bs @ cs)"
  unfolding emits_def
proof (intro allI impI)
  fix w :: byte_writer assume w: "wr_offset w \<le> length (wr_data w)"
  show "wseq (a # as) w = store (bs @ cs) w"
  proof (cases "store bs w")
    case None
    with assms(1) w store_append [where as = bs and bs = cs and w = w] show ?thesis by (simp add: emitsD)
  next
    case (Some w')
    then have "wr_offset w' \<le> length (wr_data w')" by (auto simp: store_def split: if_splits)
    with assms w Some store_append [where as = bs and bs = cs and w = w] show ?thesis by (simp add: emitsD)
  qed
qed

lemma emits_wfor [emits_intros]:
  "(\<And>x. emits (f x) (enc x)) \<Longrightarrow> emits (wfor xs f) (concat (map enc xs))"
  unfolding wfor_def by (induction xs) (simp_all add: emits_wseq_Nil emits_wseq_Cons)

lemma emits_compact_string [emits_intros]:
  "emits (write_compact_string s) (compact_string (bytes_of_chars s))"
proof -
  have "emits (write_compact_string s)
      (write_unsigned_varint (u32_of_size (length s) + 1) @ bytes_of_chars s @ [])"
    unfolding write_compact_string_def by (intro emits_intros)
  then show ?thesis by (simp add: compact_string_def)
qed

lemma emits_if [emits_intros]:
  "emits a bs \<Longrightarrow> emits b cs \<Longrightarrow> emits (if c then a else b) (if c then bs else cs)"
  by simp

section \<open>Filling a fresh buffer\<close>

text \<open>
  \<open>std::vector<uint8_t> buf(n)\<close>, the writes, \<open>return buf\<close>.
\<close>

definition fill :: "size_t \<Rightarrow> writing \<Rightarrow> bytes option" where
  "fill n a = map_option wr_data (a (ByteWriter (replicate n 0)))"

lemma fill_emits:
  "emits a bs \<Longrightarrow>
   fill n a = (if length bs \<le> n then Some (bs @ replicate (n - length bs) 0) else None)"
  by (auto simp: fill_def ByteWriter_def emitsD store_def)

lemma fill_exact: "emits a bs \<Longrightarrow> n = length bs \<Longrightarrow> fill n a = Some bs"
  by (simp add: fill_emits)

end
