(* ===== verification/Serializer.thy ===== *)
theory Serializer
  imports Byte_Writer Protocol
begin

text \<open>
  The response serializer of \<open>src/src/protocol/serializer.cpp\<close>. For every response type the
  source first computes the size of the body, allocates a buffer of that size plus four, and then
  writes the length prefix and the fields. Both halves are modelled as they stand: \<open>size_X\<close> is
  the size computation and \<open>serialize_X\<close> allocates and writes. A write that does not fit is
  \<open>None\<close>.
\<close>

section \<open>Helpers\<close>

definition kResponseHeaderV1Size :: size_t where
  "kResponseHeaderV1Size = 5"

definition write_compact_int32_array :: "int32_t list \<Rightarrow> writing" where
  "write_compact_int32_array arr =
     wseq [write_varint (u32_of_size (length arr) + 1), wfor arr write_int32]"

definition compact_int32_array_size :: "int32_t list \<Rightarrow> size_t" where
  "compact_int32_array_size arr =
     varint_encoded_size (u32_of_size (length arr) + 1) + length arr * 4"

definition partition_entry_size :: "PartitionMetadata \<Rightarrow> size_t" where
  "partition_entry_size p =
     14 + compact_int32_array_size (pm_replica_nodes p) + compact_int32_array_size (pm_isr_nodes p)
     + compact_int32_array_size (pm_eligible_leader_replicas p)
     + compact_int32_array_size (pm_last_known_elr p)
     + compact_int32_array_size (pm_offline_replicas p) + 1"

text \<open>\<open>varint_encoded_size(s.size() + 1) + s.size()\<close>, and the variant for strings that are
  written as null when they are empty.\<close>

definition string_size :: "'a list \<Rightarrow> size_t" where
  "string_size s = varint_encoded_size (u32_of_size (length s) + 1) + length s"

definition nullable_string_size :: "'a list \<Rightarrow> size_t" where
  "nullable_string_size s =
     varint_encoded_size (if s = [] then 0 else u32_of_size (length s) + 1) + length s"

definition write_nullable_string :: "string \<Rightarrow> writing" where
  "write_nullable_string s = (if s = [] then write_varint 0 else write_compact_string s)"

text \<open>\<open>if (!data.empty()) writer.write_bytes(data);\<close>\<close>

definition write_nonempty_bytes :: "bytes \<Rightarrow> writing" where
  "write_nonempty_bytes bs = (if bs = [] then wseq [] else write_bytes bs)"

section \<open>One serializer per response\<close>

definition size_api_versions :: "ApiVersionsResponse \<Rightarrow> size_t" where
  "size_api_versions r =
     4 + 2 + varint_encoded_size (u32_of_size (length (avr_api_keys r)) + 1)
     + length (avr_api_keys r) * 7 + 4 + 1"

definition serialize_api_versions :: "ApiVersionsResponse \<Rightarrow> bytes option" where
  "serialize_api_versions r =
     fill (4 + size_api_versions r) (wseq
       [write_int32 (word_of_nat (size_api_versions r)),
        write_int32 (avr_correlation_id r),
        write_int16 (avr_error_code r),
        write_varint (u32_of_size (length (avr_api_keys r)) + 1),
        wfor (avr_api_keys r) (\<lambda>e. wseq
          [write_int16 (ave_api_key e),
           write_int16 (ave_min_version e),
           write_int16 (ave_max_version e),
           write_int8 0]),
        write_int32 (avr_throttle_time_ms r),
        write_int8 0])"

definition size_describe_topic :: "TopicMetadata \<Rightarrow> size_t" where
  "size_describe_topic t =
     2 + varint_encoded_size (u32_of_size (length (tm_topic_name t)) + 1)
     + length (tm_topic_name t) + 16 + 1 + 4 + 1
     + (if tm_partitions t = [] then 1
        else varint_encoded_size (u32_of_size (length (tm_partitions t)) + 1)
             + (\<Sum>p\<leftarrow>tm_partitions t. partition_entry_size p))"

definition size_describe :: "DescribeTopicPartitionsResponse \<Rightarrow> size_t" where
  "size_describe r =
     kResponseHeaderV1Size + 4 + 1 + (\<Sum>t\<leftarrow>dtr_topics r. size_describe_topic t) + 2"

definition write_describe_partition :: "PartitionMetadata \<Rightarrow> writing" where
  "write_describe_partition p = wseq
     [write_int16 (pm_error_code p),
      write_int32 (pm_partition_index p),
      write_int32 (pm_leader_id p),
      write_int32 (pm_leader_epoch p),
      write_compact_int32_array (pm_replica_nodes p),
      write_compact_int32_array (pm_isr_nodes p),
      write_compact_int32_array (pm_eligible_leader_replicas p),
      write_compact_int32_array (pm_last_known_elr p),
      write_compact_int32_array (pm_offline_replicas p),
      write_int8 0]"

definition write_describe_topic :: "TopicMetadata \<Rightarrow> writing" where
  "write_describe_topic t = wseq
     [write_int16 (tm_error_code t),
      write_compact_string (tm_topic_name t),
      write_bytes (tm_topic_id t),
      write_int8 (if tm_is_internal t then 1 else 0),
      if tm_partitions t = [] then write_int8 1
      else wseq [write_varint (u32_of_size (length (tm_partitions t)) + 1),
                 wfor (tm_partitions t) write_describe_partition],
      write_int32 (tm_authorized_operations t),
      write_int8 0]"

definition serialize_describe :: "DescribeTopicPartitionsResponse \<Rightarrow> bytes option" where
  "serialize_describe r =
     fill (4 + size_describe r) (wseq
       [write_int32 (word_of_nat (size_describe r)),
        write_int32 (dtr_correlation_id r),
        write_int8 0,
        write_int32 (dtr_throttle_time_ms r),
        write_varint (u32_of_size (length (dtr_topics r)) + 1),
        wfor (dtr_topics r) write_describe_topic,
        write_int8 0xFF,
        write_int8 0])"

definition size_fetch_partition :: "FetchPartitionResponse \<Rightarrow> size_t" where
  "size_fetch_partition p =
     35 + varint_encoded_size (u32_of_size (length (fpr_records p)) + 1)
     + length (fpr_records p) + 1"

definition size_fetch_topic :: "FetchTopicResponse \<Rightarrow> size_t" where
  "size_fetch_topic t =
     16 + varint_encoded_size (u32_of_size (length (ftr_partitions t)) + 1)
     + (\<Sum>p\<leftarrow>ftr_partitions t. size_fetch_partition p) + 1"

definition size_fetch :: "FetchResponse \<Rightarrow> size_t" where
  "size_fetch r =
     4 + 1 + 4 + 2 + 4 + varint_encoded_size (u32_of_size (length (fr_responses r)) + 1)
     + (\<Sum>t\<leftarrow>fr_responses r. size_fetch_topic t) + 1"

definition write_fetch_partition :: "FetchPartitionResponse \<Rightarrow> writing" where
  "write_fetch_partition p = wseq
     [write_int32 (fpr_partition_index p),
      write_int16 (fpr_error_code p),
      write_int64 0,
      write_int64 0,
      write_int64 0,
      write_varint 1,
      write_int32 0,
      write_varint (u32_of_size (length (fpr_records p)) + 1),
      write_nonempty_bytes (fpr_records p),
      write_int8 0]"

definition write_fetch_topic :: "FetchTopicResponse \<Rightarrow> writing" where
  "write_fetch_topic t = wseq
     [write_bytes (ftr_topic_id t),
      write_varint (u32_of_size (length (ftr_partitions t)) + 1),
      wfor (ftr_partitions t) write_fetch_partition,
      write_int8 0]"

definition serialize_fetch :: "FetchResponse \<Rightarrow> bytes option" where
  "serialize_fetch r =
     fill (4 + size_fetch r) (wseq
       [write_int32 (word_of_nat (size_fetch r)),
        write_int32 (fr_correlation_id r),
        write_int8 0,
        write_int32 (fr_throttle_time_ms r),
        write_int16 (fr_error_code r),
        write_int32 (fr_session_id r),
        write_varint (u32_of_size (length (fr_responses r)) + 1),
        wfor (fr_responses r) write_fetch_topic,
        write_int8 0])"

definition size_metadata_broker :: "MetadataBroker \<Rightarrow> size_t" where
  "size_metadata_broker b =
     4 + string_size (mb_host b) + 4 + nullable_string_size (mb_rack b) + 1"

definition size_metadata_partition :: "PartitionMetadata \<Rightarrow> size_t" where
  "size_metadata_partition p =
     2 + 4 + 4 + 4 + compact_int32_array_size (pm_replica_nodes p)
     + compact_int32_array_size (pm_isr_nodes p) + compact_int32_array_size (pm_offline_replicas p)
     + compact_int32_array_size (pm_eligible_leader_replicas p)
     + compact_int32_array_size (pm_last_known_elr p) + 1"

definition size_metadata_topic :: "MetadataTopicResponse \<Rightarrow> size_t" where
  "size_metadata_topic t =
     2 + nullable_string_size (mtr_topic_name t) + 16 + 1 + 4
     + varint_encoded_size (u32_of_size (length (mtr_partitions t)) + 1)
     + (\<Sum>p\<leftarrow>mtr_partitions t. size_metadata_partition p) + 1"

definition size_metadata :: "MetadataResponse \<Rightarrow> size_t" where
  "size_metadata r =
     4 + 1 + 4
     + varint_encoded_size (u32_of_size (length (mr_brokers r)) + 1)
     + (\<Sum>b\<leftarrow>mr_brokers r. size_metadata_broker b)
     + nullable_string_size (mr_cluster_id r)
     + 4
     + varint_encoded_size (u32_of_size (length (mr_topics r)) + 1)
     + (\<Sum>t\<leftarrow>mr_topics r. size_metadata_topic t)
     + 4 + 1"

definition write_metadata_broker :: "MetadataBroker \<Rightarrow> writing" where
  "write_metadata_broker b = wseq
     [write_int32 (mb_node_id b),
      write_compact_string (mb_host b),
      write_int32 (mb_port b),
      write_nullable_string (mb_rack b),
      write_int8 0]"

definition write_metadata_partition :: "PartitionMetadata \<Rightarrow> writing" where
  "write_metadata_partition p = wseq
     [write_int16 (pm_error_code p),
      write_int32 (pm_partition_index p),
      write_int32 (pm_leader_id p),
      write_int32 (pm_leader_epoch p),
      write_compact_int32_array (pm_replica_nodes p),
      write_compact_int32_array (pm_isr_nodes p),
      write_compact_int32_array (pm_offline_replicas p),
      write_compact_int32_array (pm_eligible_leader_replicas p),
      write_compact_int32_array (pm_last_known_elr p),
      write_int8 0]"

definition write_metadata_topic :: "MetadataTopicResponse \<Rightarrow> writing" where
  "write_metadata_topic t = wseq
     [write_int16 (mtr_error_code t),
      write_nullable_string (mtr_topic_name t),
      write_bytes (mtr_topic_id t),
      write_int8 (if mtr_is_internal t then 1 else 0),
      write_varint (u32_of_size (length (mtr_partitions t)) + 1),
      wfor (mtr_partitions t) write_metadata_partition,
      write_int32 (mtr_topic_authorized_operations t),
      write_int8 0]"

definition serialize_metadata :: "MetadataResponse \<Rightarrow> bytes option" where
  "serialize_metadata r =
     fill (4 + size_metadata r) (wseq
       [write_int32 (word_of_nat (size_metadata r)),
        write_int32 (mr_correlation_id r),
        write_int8 0,
        write_int32 (mr_throttle_time_ms r),
        write_varint (u32_of_size (length (mr_brokers r)) + 1),
        wfor (mr_brokers r) write_metadata_broker,
        write_nullable_string (mr_cluster_id r),
        write_int32 (mr_controller_id r),
        write_varint (u32_of_size (length (mr_topics r)) + 1),
        wfor (mr_topics r) write_metadata_topic,
        write_int32 (mr_cluster_authorized_operations r),
        write_int8 0])"

definition size_find_coordinator :: "FindCoordinatorResponse \<Rightarrow> size_t" where
  "size_find_coordinator r =
     4 + 1 + 4 + 2 + nullable_string_size (fcr_error_message r) + 4 + string_size (fcr_host r) + 4 + 1"

definition serialize_find_coordinator :: "FindCoordinatorResponse \<Rightarrow> bytes option" where
  "serialize_find_coordinator r =
     fill (4 + size_find_coordinator r) (wseq
       [write_int32 (word_of_nat (size_find_coordinator r)),
        write_int32 (fcr_correlation_id r),
        write_int8 0,
        write_int32 (fcr_throttle_time_ms r),
        write_int16 (fcr_error_code r),
        write_nullable_string (fcr_error_message r),
        write_int32 (fcr_node_id r),
        write_compact_string (fcr_host r),
        write_int32 (fcr_port r),
        write_int8 0])"

definition size_offset_commit_topic :: "OffsetCommitTopicResponse \<Rightarrow> size_t" where
  "size_offset_commit_topic t =
     string_size (octr_topic_name t)
     + varint_encoded_size (u32_of_size (length (octr_partitions t)) + 1)
     + (\<Sum>p\<leftarrow>octr_partitions t. 4 + 2 + 4 + string_size (ocpr_committed_metadata p) + 1) + 1"

definition size_offset_commit :: "OffsetCommitResponse \<Rightarrow> size_t" where
  "size_offset_commit r =
     4 + 1 + 4 + varint_encoded_size (u32_of_size (length (ocr_topics r)) + 1)
     + (\<Sum>t\<leftarrow>ocr_topics r. size_offset_commit_topic t) + 1"

definition write_offset_commit_partition :: "OffsetCommitPartitionResponse \<Rightarrow> writing" where
  "write_offset_commit_partition p = wseq
     [write_int32 (ocpr_partition_index p),
      write_int16 (ocpr_error_code p),
      write_int32 (ocpr_committed_leader_epoch p),
      write_nullable_string (ocpr_committed_metadata p),
      write_int8 0]"

definition write_offset_commit_topic :: "OffsetCommitTopicResponse \<Rightarrow> writing" where
  "write_offset_commit_topic t = wseq
     [write_compact_string (octr_topic_name t),
      write_varint (u32_of_size (length (octr_partitions t)) + 1),
      wfor (octr_partitions t) write_offset_commit_partition,
      write_int8 0]"

definition serialize_offset_commit :: "OffsetCommitResponse \<Rightarrow> bytes option" where
  "serialize_offset_commit r =
     fill (4 + size_offset_commit r) (wseq
       [write_int32 (word_of_nat (size_offset_commit r)),
        write_int32 (ocr_correlation_id r),
        write_int8 0,
        write_int32 (ocr_throttle_time_ms r),
        write_varint (u32_of_size (length (ocr_topics r)) + 1),
        wfor (ocr_topics r) write_offset_commit_topic,
        write_int8 0])"

definition size_offset_fetch_topic :: "OffsetFetchTopicResponse \<Rightarrow> size_t" where
  "size_offset_fetch_topic t =
     string_size (oftr_topic_name t)
     + varint_encoded_size (u32_of_size (length (oftr_partitions t)) + 1)
     + (\<Sum>p\<leftarrow>oftr_partitions t. 4 + 8 + 4 + string_size (ofpr_committed_metadata p) + 2 + 1) + 1"

definition size_offset_fetch :: "OffsetFetchResponse \<Rightarrow> size_t" where
  "size_offset_fetch r =
     4 + 1 + 4 + varint_encoded_size (u32_of_size (length (ofr_topics r)) + 1)
     + (\<Sum>t\<leftarrow>ofr_topics r. size_offset_fetch_topic t) + 1"

definition write_offset_fetch_partition :: "OffsetFetchPartitionResponse \<Rightarrow> writing" where
  "write_offset_fetch_partition p = wseq
     [write_int32 (ofpr_partition_index p),
      write_int64 (ofpr_committed_offset p),
      write_int32 (ofpr_committed_leader_epoch p),
      write_nullable_string (ofpr_committed_metadata p),
      write_int16 (ofpr_error_code p),
      write_int8 0]"

definition write_offset_fetch_topic :: "OffsetFetchTopicResponse \<Rightarrow> writing" where
  "write_offset_fetch_topic t = wseq
     [write_compact_string (oftr_topic_name t),
      write_varint (u32_of_size (length (oftr_partitions t)) + 1),
      wfor (oftr_partitions t) write_offset_fetch_partition,
      write_int8 0]"

definition serialize_offset_fetch :: "OffsetFetchResponse \<Rightarrow> bytes option" where
  "serialize_offset_fetch r =
     fill (4 + size_offset_fetch r) (wseq
       [write_int32 (word_of_nat (size_offset_fetch r)),
        write_int32 (ofr_correlation_id r),
        write_int8 0,
        write_int32 (ofr_throttle_time_ms r),
        write_varint (u32_of_size (length (ofr_topics r)) + 1),
        wfor (ofr_topics r) write_offset_fetch_topic,
        write_int8 0])"

definition size_list_offsets_topic :: "ListOffsetsTopicResponse \<Rightarrow> size_t" where
  "size_list_offsets_topic t =
     string_size (lotr_topic_name t)
     + varint_encoded_size (u32_of_size (length (lotr_partitions t)) + 1)
     + length (lotr_partitions t) * (4 + 2 + 8 + 8 + 1) + 1"

definition size_list_offsets :: "ListOffsetsResponse \<Rightarrow> size_t" where
  "size_list_offsets r =
     4 + 1 + 4 + varint_encoded_size (u32_of_size (length (lor_topics r)) + 1)
     + (\<Sum>t\<leftarrow>lor_topics r. size_list_offsets_topic t) + 1"

definition write_list_offsets_partition :: "ListOffsetsPartitionResponse \<Rightarrow> writing" where
  "write_list_offsets_partition p = wseq
     [write_int32 (lopr_partition_index p),
      write_int16 (lopr_error_code p),
      write_int64 (lopr_offset p),
      write_int64 (lopr_timestamp p),
      write_int8 0]"

definition write_list_offsets_topic :: "ListOffsetsTopicResponse \<Rightarrow> writing" where
  "write_list_offsets_topic t = wseq
     [write_compact_string (lotr_topic_name t),
      write_varint (u32_of_size (length (lotr_partitions t)) + 1),
      wfor (lotr_partitions t) write_list_offsets_partition,
      write_int8 0]"

definition serialize_list_offsets :: "ListOffsetsResponse \<Rightarrow> bytes option" where
  "serialize_list_offsets r =
     fill (4 + size_list_offsets r) (wseq
       [write_int32 (word_of_nat (size_list_offsets r)),
        write_int32 (lor_correlation_id r),
        write_int8 0,
        write_int32 (lor_throttle_time_ms r),
        write_varint (u32_of_size (length (lor_topics r)) + 1),
        wfor (lor_topics r) write_list_offsets_topic,
        write_int8 0])"

definition size_join_group :: "JoinGroupResponse \<Rightarrow> size_t" where
  "size_join_group r =
     4 + 1 + 4 + 2 + 4
     + nullable_string_size (jgr_protocol_name r)
     + string_size (jgr_leader r)
     + string_size (jgr_member_id r)
     + varint_encoded_size (u32_of_size (length (jgr_members r)) + 1)
     + (\<Sum>m\<leftarrow>jgr_members r. string_size (jgm_member_id m) + string_size (jgm_metadata m) + 1) + 1"

definition write_join_group_member :: "JoinGroupMember \<Rightarrow> writing" where
  "write_join_group_member m = wseq
     [write_compact_string (jgm_member_id m),
      write_varint (u32_of_size (length (jgm_metadata m)) + 1),
      write_nonempty_bytes (jgm_metadata m),
      write_int8 0]"

definition serialize_join_group :: "JoinGroupResponse \<Rightarrow> bytes option" where
  "serialize_join_group r =
     fill (4 + size_join_group r) (wseq
       [write_int32 (word_of_nat (size_join_group r)),
        write_int32 (jgr_correlation_id r),
        write_int8 0,
        write_int32 (jgr_throttle_time_ms r),
        write_int16 (jgr_error_code r),
        write_int32 (jgr_generation_id r),
        write_nullable_string (jgr_protocol_name r),
        write_compact_string (jgr_leader r),
        write_compact_string (jgr_member_id r),
        write_varint (u32_of_size (length (jgr_members r)) + 1),
        wfor (jgr_members r) write_join_group_member,
        write_int8 0])"

definition serialize_heartbeat :: "HeartbeatResponse \<Rightarrow> bytes option" where
  "serialize_heartbeat r =
     (let body_size = 4 + 1 + 4 + 2 + 1 in
      fill (4 + body_size) (wseq
        [write_int32 (word_of_nat body_size),
         write_int32 (hbr_correlation_id r),
         write_int8 0,
         write_int32 (hbr_throttle_time_ms r),
         write_int16 (hbr_error_code r),
         write_int8 0]))"

definition serialize_leave_group :: "LeaveGroupResponse \<Rightarrow> bytes option" where
  "serialize_leave_group r =
     (let body_size = 4 + 1 + 4 + 2 + 1 in
      fill (4 + body_size) (wseq
        [write_int32 (word_of_nat body_size),
         write_int32 (lgr_correlation_id r),
         write_int8 0,
         write_int32 (lgr_throttle_time_ms r),
         write_int16 (lgr_error_code r),
         write_int8 0]))"

definition size_sync_group :: "SyncGroupResponse \<Rightarrow> size_t" where
  "size_sync_group r =
     4 + 1 + 4 + 2 + nullable_string_size (sgr_protocol_type r)
     + nullable_string_size (sgr_protocol_name r) + string_size (sgr_assignment r) + 1"

definition serialize_sync_group :: "SyncGroupResponse \<Rightarrow> bytes option" where
  "serialize_sync_group r =
     fill (4 + size_sync_group r) (wseq
       [write_int32 (word_of_nat (size_sync_group r)),
        write_int32 (sgr_correlation_id r),
        write_int8 0,
        write_int32 (sgr_throttle_time_ms r),
        write_int16 (sgr_error_code r),
        write_nullable_string (sgr_protocol_type r),
        write_nullable_string (sgr_protocol_name r),
        write_varint (u32_of_size (length (sgr_assignment r)) + 1),
        write_nonempty_bytes (sgr_assignment r),
        write_int8 0])"

definition size_produce_topic :: "ProduceTopicResponse \<Rightarrow> size_t" where
  "size_produce_topic t =
     string_size (ptr_topic_name t) + 1
     + (if ptr_partitions t = [] then 1
        else varint_encoded_size (u32_of_size (length (ptr_partitions t)) + 1)
             + length (ptr_partitions t) * (4 + 2 + 8 + 8 + 8 + 1 + 1 + 1))"

definition size_produce :: "ProduceResponse \<Rightarrow> size_t" where
  "size_produce r =
     4 + 1 + varint_encoded_size (u32_of_size (length (pr_responses r)) + 1)
     + (\<Sum>t\<leftarrow>pr_responses r. size_produce_topic t) + 4 + 1"

definition write_produce_partition :: "ProducePartitionResponse \<Rightarrow> writing" where
  "write_produce_partition p = wseq
     [write_int32 (ppr_partition_index p),
      write_int16 (ppr_error_code p),
      write_int64 (ppr_base_offset p),
      write_int64 (ppr_log_append_time_ms p),
      write_int64 (ppr_log_start_offset p),
      write_int8 1,
      write_int8 0,
      write_int8 0]"

definition write_produce_topic :: "ProduceTopicResponse \<Rightarrow> writing" where
  "write_produce_topic t = wseq
     [write_compact_string (ptr_topic_name t),
      write_varint (u32_of_size (length (ptr_partitions t)) + 1),
      wfor (ptr_partitions t) write_produce_partition,
      write_int8 0]"

definition serialize_produce :: "ProduceResponse \<Rightarrow> bytes option" where
  "serialize_produce r =
     fill (4 + size_produce r) (wseq
       [write_int32 (word_of_nat (size_produce r)),
        write_int32 (pr_correlation_id r),
        write_int8 0,
        write_varint (u32_of_size (length (pr_responses r)) + 1),
        wfor (pr_responses r) write_produce_topic,
        write_int32 (pr_throttle_time_ms r),
        write_int8 0])"

fun serialize :: "Response \<Rightarrow> bytes option" where
  "serialize (ApiVersionsR r) = serialize_api_versions r"
| "serialize (DescribeTopicPartitionsR r) = serialize_describe r"
| "serialize (FetchR r) = serialize_fetch r"
| "serialize (MetadataR r) = serialize_metadata r"
| "serialize (FindCoordinatorR r) = serialize_find_coordinator r"
| "serialize (OffsetCommitR r) = serialize_offset_commit r"
| "serialize (OffsetFetchR r) = serialize_offset_fetch r"
| "serialize (ListOffsetsR r) = serialize_list_offsets r"
| "serialize (JoinGroupR r) = serialize_join_group r"
| "serialize (HeartbeatR r) = serialize_heartbeat r"
| "serialize (LeaveGroupR r) = serialize_leave_group r"
| "serialize (SyncGroupR r) = serialize_sync_group r"
| "serialize (ProduceR r) = serialize_produce r"

end
