(* ===== verification/Parser.thy ===== *)
theory Parser
  imports Byte_Reader Protocol
begin

text \<open>
  The request parser of \<open>src/src/protocol/parser.cpp\<close>. Each \<open>case\<close> of the \<open>switch\<close> over
  the interface key is a definition of its own, a chain of reader operations in the order of the
  source that stops at the first error. Pieces the source repeats in every case (the client header,
  a compact array, a compact byte string) are helpers here. \<open>std::vector::reserve\<close> does not
  change the value of a vector and is left out.

  The theory shows that every parser stays within its buffer and that bytes behind a request do not
  change how it is read; the wire format itself and the round trip are in \<open>Wire_Format\<close>.
\<close>

section \<open>Repeated pieces\<close>

text \<open>The client id, skipped, and the tag buffer that ends the request header.\<close>

definition skip_client_header :: "unit reading" where
  "skip_client_header =
     rbind read_int16 (\<lambda>client_id_len.
     rbind (if 0 <s client_id_len then skip (size_of_signed client_id_len) else rreturn ()) (\<lambda>_.
     skip 1))"

text \<open>\<open>len > 0 ? len - 1 : 0\<close>\<close>

definition compact_count :: "uint32_t \<Rightarrow> nat" where
  "compact_count len = unat (if len > 0 then len - 1 else 0)"

definition read_compact_array :: "'a reading \<Rightarrow> 'a list reading" where
  "read_compact_array p = rbind read_varint (\<lambda>len. read_times (compact_count len) p)"

definition read_compact_bytes :: "bytes reading" where
  "read_compact_bytes =
     rbind read_varint (\<lambda>len. if len > 1 then read_bytes (unat (len - 1)) else rreturn [])"

definition skip_compact_bytes :: "unit reading" where
  "skip_compact_bytes =
     rbind read_varint (\<lambda>len. if len > 1 then skip (unat (len - 1)) else rreturn ())"

text \<open>
  A read whose outcome is kept as a value and not checked, and the dereference of that value, which
  is undefined when the read failed.
\<close>

definition rtry :: "'a reading \<Rightarrow> 'a expected reading" where
  "rtry p r = (case p r of Inl e \<Rightarrow> Inr (Inl e, r) | Inr (x, r') \<Rightarrow> Inr (Inr x, r'))"

definition rderef :: "'a expected \<Rightarrow> 'a reading" where
  "rderef v = (case v of Inl e \<Rightarrow> rfail undefined_behavior | Inr x \<Rightarrow> rreturn x)"

section \<open>One parser per interface\<close>

definition parse_describe_topic_partitions :: "RequestHeader \<Rightarrow> Request reading" where
  "parse_describe_topic_partitions hdr =
     rbind skip_client_header (\<lambda>_.
     rbind read_varint (\<lambda>array_len.
     rbind (read_times (unat (array_len - 1))
              (rbind read_compact_string (\<lambda>name. rbind (skip 1) (\<lambda>_. rreturn name)))) (\<lambda>topic_names.
     rbind read_int32 (\<lambda>partition_limit.
     rbind read_int8 (\<lambda>cursor_flag.
     rbind (if cursor_flag \<noteq> 0xFF
            then rbind read_compact_string (\<lambda>cursor_name.
                 rbind read_int32 (\<lambda>cursor_partition. skip 1))
            else rreturn ()) (\<lambda>_.
     rbind (skip 1) (\<lambda>_.
     rreturn (DescribeTopicPartitions \<lparr>dtp_header = hdr, dtp_topic_names = topic_names\<rparr>))))))))"

text \<open>
  In the partition loop of a fetch request the outcome of reading \<open>max_bytes\<close> is not the one the
  next statement checks.
\<close>

definition parse_fetch_partition :: "FetchPartitionRequest reading" where
  "parse_fetch_partition =
     rbind read_int32 (\<lambda>part_idx.
     rbind (skip 4) (\<lambda>_.
     rbind read_int64 (\<lambda>fetch_off.
     rbind (skip 4) (\<lambda>_.
     rbind (skip 8) (\<lambda>_.
     rbind (rtry read_int32) (\<lambda>part_max_bytes.
     rbind (skip 1) (\<lambda>_.
     rbind (rderef part_max_bytes) (\<lambda>mb.
     rreturn \<lparr>fp_partition_index = part_idx, fp_fetch_offset = fetch_off, fp_max_bytes = mb\<rparr>))))))))"

definition parse_fetch_topic :: "FetchTopicRequest reading" where
  "parse_fetch_topic =
     rbind (read_bytes 16) (\<lambda>tid.
     rbind (read_compact_array parse_fetch_partition) (\<lambda>parts.
     rbind (skip 1) (\<lambda>_.
     rreturn \<lparr>ft_topic_id = tid, ft_partitions = parts\<rparr>)))"

definition skip_forgotten_topic :: "unit reading" where
  "skip_forgotten_topic =
     rbind (skip 16) (\<lambda>_.
     rbind read_varint (\<lambda>fpart_len.
     rbind (skip (compact_count fpart_len * 4)) (\<lambda>_.
     skip 1)))"

definition parse_fetch :: "RequestHeader \<Rightarrow> Request reading" where
  "parse_fetch hdr =
     rbind skip_client_header (\<lambda>_.
     rbind read_int32 (\<lambda>max_wait_ms.
     rbind read_int32 (\<lambda>min_bytes.
     rbind read_int32 (\<lambda>max_bytes.
     rbind read_int8 (\<lambda>isolation_level.
     rbind read_int32 (\<lambda>session_id.
     rbind read_int32 (\<lambda>session_epoch.
     rbind (read_compact_array parse_fetch_topic) (\<lambda>topics.
     rbind (read_compact_array skip_forgotten_topic) (\<lambda>_.
     rbind skip_compact_bytes (\<lambda>_.
     rbind (skip 1) (\<lambda>_.
     rreturn (Fetch \<lparr>fetch_header = hdr, fetch_topics = topics,
                     fetch_max_bytes = max_bytes\<rparr>))))))))))))"

definition parse_list_offsets_partition :: "ListOffsetsPartitionRequest reading" where
  "parse_list_offsets_partition =
     rbind read_int32 (\<lambda>part_idx.
     rbind read_int64 (\<lambda>timestamp.
     rbind (skip 1) (\<lambda>_.
     rreturn \<lparr>lop_partition_index = part_idx, lop_timestamp = timestamp\<rparr>)))"

definition parse_list_offsets_topic :: "ListOffsetsTopicRequest reading" where
  "parse_list_offsets_topic =
     rbind read_compact_string (\<lambda>name.
     rbind (read_compact_array parse_list_offsets_partition) (\<lambda>parts.
     rbind (skip 1) (\<lambda>_.
     rreturn \<lparr>lot_topic_name = name, lot_partitions = parts\<rparr>)))"

definition parse_list_offsets :: "RequestHeader \<Rightarrow> Request reading" where
  "parse_list_offsets hdr =
     rbind skip_client_header (\<lambda>_.
     rbind read_int32 (\<lambda>replica_id.
     rbind read_int8 (\<lambda>isolation_level.
     rbind (read_compact_array parse_list_offsets_topic) (\<lambda>topics.
     rbind (skip 1) (\<lambda>_.
     rreturn (ListOffsets \<lparr>lo_header = hdr, lo_replica_id = replica_id,
                           lo_isolation_level = isolation_level, lo_topics = topics\<rparr>))))))"

text \<open>A name of length zero or less adds no entry to the list of topics.\<close>

definition parse_metadata_name :: "string list reading" where
  "parse_metadata_name =
     rbind read_int16 (\<lambda>name_len.
     if 0 <s name_len
     then rbind (read_bytes (size_of_signed name_len)) (\<lambda>name_bytes.
          rreturn [chars_of_bytes name_bytes])
     else rreturn [])"

definition parse_metadata :: "RequestHeader \<Rightarrow> Request reading" where
  "parse_metadata hdr =
     rbind skip_client_header (\<lambda>_.
     rbind read_int32 (\<lambda>topics_array_len.
     rbind (if 0 <s topics_array_len
            then read_times (size_of_signed topics_array_len) parse_metadata_name
            else rreturn []) (\<lambda>names.
     rbind read_int8 (\<lambda>allow_create.
     rreturn (Metadata \<lparr>md_header = hdr, md_topics = concat names,
                        md_allow_auto_topic_creation = (allow_create \<noteq> 0)\<rparr>)))))"

definition parse_produce_partition :: "ProducePartitionRequest reading" where
  "parse_produce_partition =
     rbind read_int32 (\<lambda>part_idx.
     rbind read_compact_bytes (\<lambda>records.
     rbind (skip 1) (\<lambda>_.
     rreturn \<lparr>pp_partition_index = part_idx, pp_records = records\<rparr>)))"

definition parse_produce_topic :: "ProduceTopicRequest reading" where
  "parse_produce_topic =
     rbind read_compact_string (\<lambda>name.
     rbind (read_compact_array parse_produce_partition) (\<lambda>parts.
     rbind (skip 1) (\<lambda>_.
     rreturn \<lparr>pt_topic_name = name, pt_partitions = parts\<rparr>)))"

definition parse_produce :: "RequestHeader \<Rightarrow> Request reading" where
  "parse_produce hdr =
     rbind skip_client_header (\<lambda>_.
     rbind skip_compact_bytes (\<lambda>_.
     rbind read_int16 (\<lambda>acks.
     rbind read_int32 (\<lambda>timeout.
     rbind (read_compact_array parse_produce_topic) (\<lambda>topics.
     rbind (skip 1) (\<lambda>_.
     rreturn (Produce \<lparr>produce_header = hdr, produce_topics = topics\<rparr>)))))))"

definition parse_offset_commit_partition :: "OffsetCommitPartitionRequest reading" where
  "parse_offset_commit_partition =
     rbind read_int32 (\<lambda>part_idx.
     rbind read_int64 (\<lambda>committed_offset.
     rbind (skip 1) (\<lambda>_.
     rreturn \<lparr>ocp_partition_index = part_idx, ocp_committed_offset = committed_offset\<rparr>)))"

definition parse_offset_commit_topic :: "OffsetCommitTopicRequest reading" where
  "parse_offset_commit_topic =
     rbind read_compact_string (\<lambda>name.
     rbind (read_compact_array parse_offset_commit_partition) (\<lambda>parts.
     rbind (skip 1) (\<lambda>_.
     rreturn \<lparr>oct_topic_name = name, oct_partitions = parts\<rparr>)))"

definition parse_offset_commit :: "RequestHeader \<Rightarrow> Request reading" where
  "parse_offset_commit hdr =
     rbind skip_client_header (\<lambda>_.
     rbind read_compact_string (\<lambda>group_id.
     rbind read_compact_string (\<lambda>member_id.
     rbind read_int32 (\<lambda>generation_id.
     rbind (read_compact_array parse_offset_commit_topic) (\<lambda>topics.
     rbind (skip 1) (\<lambda>_.
     rreturn (OffsetCommit \<lparr>oc_header = hdr, oc_group_id = group_id, oc_member_id = member_id,
                            oc_generation_id = generation_id, oc_topics = topics\<rparr>)))))))"

definition parse_offset_fetch_topic :: "OffsetFetchTopicRequest reading" where
  "parse_offset_fetch_topic =
     rbind read_compact_string (\<lambda>name.
     rbind (read_compact_array read_int32) (\<lambda>partition_indexes.
     rbind (skip 1) (\<lambda>_.
     rreturn \<lparr>oft_topic_name = name, oft_partition_indexes = partition_indexes\<rparr>)))"

definition parse_offset_fetch :: "RequestHeader \<Rightarrow> Request reading" where
  "parse_offset_fetch hdr =
     rbind skip_client_header (\<lambda>_.
     rbind read_compact_string (\<lambda>group_id.
     rbind (read_compact_array parse_offset_fetch_topic) (\<lambda>topics.
     rbind (skip 1) (\<lambda>_.
     rreturn (OffsetFetch \<lparr>of_header = hdr, of_group_id = group_id, of_topics = topics\<rparr>)))))"

definition parse_find_coordinator :: "RequestHeader \<Rightarrow> Request reading" where
  "parse_find_coordinator hdr =
     rbind skip_client_header (\<lambda>_.
     rbind read_compact_string (\<lambda>key.
     rbind read_int8 (\<lambda>key_type.
     rbind (skip 1) (\<lambda>_.
     rreturn (FindCoordinator \<lparr>fc_header = hdr, fc_coordinator_key = key,
                               fc_key_type = key_type\<rparr>)))))"

definition parse_join_group_protocol :: "JoinGroupProtocol reading" where
  "parse_join_group_protocol =
     rbind read_compact_string (\<lambda>name.
     rbind read_compact_bytes (\<lambda>metadata.
     rbind (skip 1) (\<lambda>_.
     rreturn \<lparr>jgp_name = name, jgp_metadata = metadata\<rparr>)))"

definition parse_join_group :: "RequestHeader \<Rightarrow> Request reading" where
  "parse_join_group hdr =
     rbind skip_client_header (\<lambda>_.
     rbind read_compact_string (\<lambda>group_id.
     rbind read_int32 (\<lambda>session_timeout.
     rbind read_compact_string (\<lambda>member_id.
     rbind read_compact_string (\<lambda>protocol_type.
     rbind (read_compact_array parse_join_group_protocol) (\<lambda>protocols.
     rbind (skip 1) (\<lambda>_.
     rreturn (JoinGroup \<lparr>jg_header = hdr, jg_group_id = group_id,
                         jg_session_timeout_ms = session_timeout, jg_member_id = member_id,
                         jg_protocol_type = protocol_type, jg_protocols = protocols\<rparr>))))))))"

definition parse_heartbeat :: "RequestHeader \<Rightarrow> Request reading" where
  "parse_heartbeat hdr =
     rbind skip_client_header (\<lambda>_.
     rbind read_compact_string (\<lambda>group_id.
     rbind read_int32 (\<lambda>generation_id.
     rbind read_compact_string (\<lambda>member_id.
     rbind read_compact_string (\<lambda>group_instance_id.
     rbind (skip 1) (\<lambda>_.
     rreturn (Heartbeat \<lparr>hb_header = hdr, hb_group_id = group_id,
                         hb_generation_id = generation_id, hb_member_id = member_id,
                         hb_group_instance_id = group_instance_id\<rparr>)))))))"

definition parse_leave_group :: "RequestHeader \<Rightarrow> Request reading" where
  "parse_leave_group hdr =
     rbind skip_client_header (\<lambda>_.
     rbind read_compact_string (\<lambda>group_id.
     rbind read_compact_string (\<lambda>member_id.
     rbind (skip 1) (\<lambda>_.
     rreturn (LeaveGroup \<lparr>lg_header = hdr, lg_group_id = group_id,
                          lg_member_id = member_id\<rparr>)))))"

definition parse_sync_group_assignment :: "SyncGroupAssignment reading" where
  "parse_sync_group_assignment =
     rbind read_compact_string (\<lambda>mid.
     rbind read_compact_bytes (\<lambda>assign_bytes.
     rbind (skip 1) (\<lambda>_.
     rreturn \<lparr>sga_member_id = mid, sga_assignment = assign_bytes\<rparr>)))"

definition parse_sync_group :: "RequestHeader \<Rightarrow> Request reading" where
  "parse_sync_group hdr =
     rbind skip_client_header (\<lambda>_.
     rbind read_compact_string (\<lambda>group_id.
     rbind read_int32 (\<lambda>generation_id.
     rbind read_compact_string (\<lambda>member_id.
     rbind (read_compact_array parse_sync_group_assignment) (\<lambda>assignments.
     rbind (skip 1) (\<lambda>_.
     rreturn (SyncGroup \<lparr>sg_header = hdr, sg_group_id = group_id,
                         sg_generation_id = generation_id, sg_member_id = member_id,
                         sg_assignments = assignments\<rparr>)))))))"

section \<open>The parser\<close>

definition parse_body :: "RequestHeader \<Rightarrow> Request reading" where
  "parse_body hdr =
     (let key = api_key hdr in
      if key = 18 then rreturn (ApiVersions \<lparr>av_header = hdr\<rparr>)
      else if key = 75 then parse_describe_topic_partitions hdr
      else if key = 1 then parse_fetch hdr
      else if key = 2 then parse_list_offsets hdr
      else if key = 3 then parse_metadata hdr
      else if key = 0 then parse_produce hdr
      else if key = 8 then parse_offset_commit hdr
      else if key = 9 then parse_offset_fetch hdr
      else if key = 10 then parse_find_coordinator hdr
      else if key = 11 then parse_join_group hdr
      else if key = 12 then parse_heartbeat hdr
      else if key = 13 then parse_leave_group hdr
      else if key = 14 then parse_sync_group hdr
      else rfail function_not_supported)"

definition request_parser :: "Request reading" where
  "request_parser =
     rbind read_int16 (\<lambda>api_key.
     rbind read_int16 (\<lambda>api_version.
     rbind read_int32 (\<lambda>correlation_id.
     parse_body \<lparr>api_key = api_key, api_version = api_version,
                  correlation_id = correlation_id\<rparr>)))"

definition parse_request :: "bytes \<Rightarrow> Request expected" where
  "parse_request buf =
     (case request_parser (ByteReader buf) of Inl e \<Rightarrow> Inl e | Inr (req, _) \<Rightarrow> Inr req)"

section \<open>Staying within the buffer\<close>

lemma well_behaved_cong:
  assumes "\<And>r x r'. p r = Inr (x, r') \<longleftrightarrow> q r = Inr (x, r')" and "well_behaved q"
  shows "well_behaved p"
  using assms(2) unfolding well_behaved_def tame_def prefix_stable_def assms(1) .

lemma rbind_eq_Inr:
  "rbind p f r = Inr (y, r'') \<longleftrightarrow> (\<exists>x r'. p r = Inr (x, r') \<and> f x r' = Inr (y, r''))"
  by (auto simp: rbind_def split: sum.splits)

text \<open>Where it succeeds, the unchecked read behaves like a checked one.\<close>

lemma rtry_rderef_eq_Inr:
  "rbind (rtry p) (\<lambda>v. rbind q (\<lambda>u. rbind (rderef v) f)) r = Inr (y, r'')
     \<longleftrightarrow> rbind p (\<lambda>x. rbind q (\<lambda>u. f x)) r = Inr (y, r'')"
  by (auto simp: rbind_def rtry_def rderef_def rfail_def rreturn_def split: sum.splits)

lemma well_behaved_rtry [tame_intros]:
  "well_behaved p \<Longrightarrow> well_behaved q \<Longrightarrow> (\<And>x. well_behaved (f x)) \<Longrightarrow>
   well_behaved (rbind (rtry p) (\<lambda>v. rbind q (\<lambda>u. rbind (rderef v) f)))"
  by (rule well_behaved_cong [OF rtry_rderef_eq_Inr]) (intro well_behaved_rbind)

lemma well_behaved_pieces [tame_intros]:
  shows "well_behaved skip_client_header" and "well_behaved read_compact_bytes"
    and "well_behaved skip_compact_bytes"
    and "well_behaved p \<Longrightarrow> well_behaved (read_compact_array p)"
  unfolding skip_client_header_def read_compact_bytes_def skip_compact_bytes_def
    read_compact_array_def
  by (intro tame_intros; assumption)+

lemma well_behaved_parse_fetch_partition [tame_intros]: "well_behaved parse_fetch_partition"
  unfolding parse_fetch_partition_def
  by (intro well_behaved_rtry well_behaved_fixed well_behaved_rreturn
      well_behaved_rbind [where p = read_int32] well_behaved_rbind [where p = read_int64]
      well_behaved_rbind [where p = "skip n" for n])

lemma well_behaved_elements [tame_intros]:
  shows "well_behaved parse_fetch_topic" and "well_behaved skip_forgotten_topic"
    and "well_behaved parse_list_offsets_partition" and "well_behaved parse_list_offsets_topic"
    and "well_behaved parse_metadata_name" and "well_behaved parse_produce_partition"
    and "well_behaved parse_produce_topic" and "well_behaved parse_offset_commit_partition"
    and "well_behaved parse_offset_commit_topic" and "well_behaved parse_offset_fetch_topic"
    and "well_behaved parse_join_group_protocol" and "well_behaved parse_sync_group_assignment"
  unfolding parse_fetch_topic_def skip_forgotten_topic_def parse_list_offsets_partition_def
    parse_list_offsets_topic_def parse_metadata_name_def parse_produce_partition_def
    parse_produce_topic_def parse_offset_commit_partition_def parse_offset_commit_topic_def
    parse_offset_fetch_topic_def parse_join_group_protocol_def parse_sync_group_assignment_def
  by (intro tame_intros)+

lemmas parse_case_defs = parse_describe_topic_partitions_def parse_fetch_def
  parse_list_offsets_def parse_metadata_def parse_produce_def parse_offset_commit_def
  parse_offset_fetch_def parse_find_coordinator_def parse_join_group_def parse_heartbeat_def
  parse_leave_group_def parse_sync_group_def

lemma well_behaved_parse_body [tame_intros]: "well_behaved (parse_body hdr)"
  unfolding parse_body_def Let_def parse_case_defs by (intro tame_intros)

lemma well_behaved_request_parser: "well_behaved request_parser"
  unfolding request_parser_def by (intro tame_intros)

lemma request_parser_bounds:
  "request_parser (ByteReader buf) = Inr (req, r) \<Longrightarrow>
   rd_data r = buf \<and> rd_offset r \<le> length buf"
  using well_behaved_request_parser tameD [of request_parser "ByteReader buf" req r]
  by (simp add: well_behaved_def ByteReader_def)

lemma parse_request_append:
  assumes "parse_request buf = Inr req"
  shows "parse_request (buf @ ext) = Inr req"
proof -
  obtain r where "request_parser (ByteReader buf) = Inr (req, r)"
    using assms by (auto simp: parse_request_def split: sum.splits)
  then have "request_parser (with_suffix ext (ByteReader buf)) = Inr (req, with_suffix ext r)"
    using well_behaved_request_parser
    by (simp add: well_behaved_def prefix_stable_def ByteReader_def)
  then show ?thesis by (simp add: parse_request_def with_suffix_ByteReader)
qed

section \<open>Which errors are reported\<close>

text \<open>
  \<open>fails_with E p\<close>: every error of \<open>p\<close> lies in \<open>E\<close>.
\<close>

definition fails_with :: "errc set \<Rightarrow> 'a reading \<Rightarrow> bool" where
  "fails_with E p \<longleftrightarrow> (\<forall>r e. p r = Inl e \<longrightarrow> e \<in> E)"

named_theorems fails_intros \<open>which errors a parser reports\<close>

lemma fails_rreturn [fails_intros]: "fails_with E (rreturn x)"
  by (simp add: fails_with_def rreturn_def)

lemma fails_rfail [fails_intros]: "e \<in> E \<Longrightarrow> fails_with E (rfail e)"
  by (simp add: fails_with_def rfail_def)

lemma fails_rbind [fails_intros]:
  "fails_with E p \<Longrightarrow> (\<And>x. fails_with E (f x)) \<Longrightarrow> fails_with E (rbind p f)"
  unfolding fails_with_def rbind_def by (auto split: sum.splits prod.splits)

lemma fails_if [fails_intros]:
  "fails_with E p \<Longrightarrow> fails_with E q \<Longrightarrow> fails_with E (if c then p else q)"
  by simp

lemma fails_read_times [fails_intros]: "fails_with E p \<Longrightarrow> fails_with E (read_times n p)"
  by (induction n) (auto intro!: fails_intros)

lemma view_errors:
  shows "read_unsigned_varint buf = Inl e \<Longrightarrow> e = message_size"
    and "read_compact_string_view buf = Inl e \<Longrightarrow> e = message_size"
proof -
  have loop: "read_varint_loop buf v s = Inl e \<Longrightarrow> e = message_size" for v s
    by (induction buf v s rule: read_varint_loop.induct) (auto simp: Let_def split: if_splits)
  then show *: "read_unsigned_varint buf = Inl e \<Longrightarrow> e = message_size"
    by (simp add: read_unsigned_varint_def)
  show "read_compact_string_view buf = Inl e \<Longrightarrow> e = message_size"
    by (auto simp: read_compact_string_view_def Let_def dest: * split: if_splits sum.splits)
qed

lemma fails_ops [fails_intros]:
  assumes "message_size \<in> E"
  shows "fails_with E read_int8" and "fails_with E read_int16" and "fails_with E read_int32"
    and "fails_with E read_int64" and "fails_with E (read_bytes n)" and "fails_with E (skip n)"
    and "fails_with E read_varint" and "fails_with E read_compact_string"
  using assms
  by (auto simp: fails_with_def read_op_defs Let_def dest!: view_errors
      split: if_splits sum.splits)

lemma fails_pieces [fails_intros]:
  assumes "message_size \<in> E"
  shows "fails_with E skip_client_header" and "fails_with E read_compact_bytes"
    and "fails_with E skip_compact_bytes"
    and "fails_with E p \<Longrightarrow> fails_with E (read_compact_array p)"
  unfolding skip_client_header_def read_compact_bytes_def skip_compact_bytes_def
    read_compact_array_def
  using assms by (auto intro!: fails_intros)

lemma fails_unchecked [fails_intros]:
  "undefined_behavior \<in> E \<Longrightarrow> fails_with E (rderef v)" "fails_with E (rtry p)"
  by (auto simp: fails_with_def rtry_def rderef_def rfail_def rreturn_def split: sum.splits)

lemma fails_elements [fails_intros]:
  assumes "message_size \<in> E"
  shows "fails_with E skip_forgotten_topic"
    and "fails_with E parse_list_offsets_partition" and "fails_with E parse_list_offsets_topic"
    and "fails_with E parse_metadata_name" and "fails_with E parse_produce_partition"
    and "fails_with E parse_produce_topic" and "fails_with E parse_offset_commit_partition"
    and "fails_with E parse_offset_commit_topic" and "fails_with E parse_offset_fetch_topic"
    and "fails_with E parse_join_group_protocol" and "fails_with E parse_sync_group_assignment"
    and "undefined_behavior \<in> E \<Longrightarrow> fails_with E parse_fetch_topic"
  unfolding parse_fetch_topic_def skip_forgotten_topic_def parse_list_offsets_partition_def
    parse_list_offsets_topic_def parse_metadata_name_def parse_produce_partition_def
    parse_produce_topic_def parse_offset_commit_partition_def parse_offset_commit_topic_def
    parse_offset_fetch_topic_def parse_join_group_protocol_def parse_sync_group_assignment_def
    parse_fetch_partition_def
  using assms by (auto intro!: fails_intros)

definition supported_keys :: "int16_t set" where
  "supported_keys = ave_api_key ` set kSupportedApis"

lemma parse_body_errors:
  "fails_with
     (if api_key hdr \<notin> supported_keys then {function_not_supported}
      else if api_key hdr = 1 then {message_size, undefined_behavior}
      else {message_size})
     (parse_body hdr)"
  unfolding parse_body_def Let_def parse_case_defs supported_keys_def kSupportedApis_def
  by (auto intro!: fails_intros)

end
