(* ===== verification/Wire_Format.thy ===== *)
theory Wire_Format
  imports Parser
begin

text \<open>
  The wire format of the thirteen request types, as the encoder of a client: one function per
  struct, in the order in which the parser reads. Fields of the format that the parser reads and
  drops (wait times, epochs, isolation levels, forgotten topics, the rack) are zero or empty. The
  parser inverts the encoder on every request whose strings, arrays and byte blocks are shorter
  than \<open>2 ^ 28 - 1\<close>, the range of a readable varint.
\<close>

section \<open>Building blocks\<close>

definition compact_array :: "('a \<Rightarrow> bytes) \<Rightarrow> 'a list \<Rightarrow> bytes" where
  "compact_array enc xs = write_unsigned_varint (u32_of_size (length xs) + 1) @ concat (map enc xs)"

definition enc_string :: "string \<Rightarrow> bytes" where
  "enc_string s = compact_string (bytes_of_chars s)"

text \<open>A client id may be absent, which is written as length -1.\<close>

definition enc_client :: "bytes option \<Rightarrow> bytes" where
  "enc_client client =
     (case client of
        None \<Rightarrow> write_int16_be (- 1) @ [0]
      | Some cid \<Rightarrow> write_int16_be (word_of_nat (length cid)) @ cid @ [0])"

definition client_ok :: "bytes option \<Rightarrow> bool" where
  "client_ok client \<longleftrightarrow> (case client of None \<Rightarrow> True | Some cid \<Rightarrow> length cid < 2 ^ 15)"

definition short :: "'a list \<Rightarrow> bool" where
  "short xs \<longleftrightarrow> length xs < 2 ^ 28 - 1"

definition enc_header :: "RequestHeader \<Rightarrow> bytes" where
  "enc_header hdr =
     write_int16_be (api_key hdr) @ write_int16_be (api_version hdr)
       @ write_int32_be (correlation_id hdr)"

section \<open>Elements\<close>

definition enc_fetch_partition :: "FetchPartitionRequest \<Rightarrow> bytes" where
  "enc_fetch_partition p =
     write_int32_be (fp_partition_index p) @ write_int32_be 0 @ write_int64_be (fp_fetch_offset p)
       @ write_int32_be 0 @ write_int64_be 0 @ write_int32_be (fp_max_bytes p) @ [0]"

definition enc_fetch_topic :: "FetchTopicRequest \<Rightarrow> bytes" where
  "enc_fetch_topic t = ft_topic_id t @ compact_array enc_fetch_partition (ft_partitions t) @ [0]"

definition enc_list_offsets_partition :: "ListOffsetsPartitionRequest \<Rightarrow> bytes" where
  "enc_list_offsets_partition p =
     write_int32_be (lop_partition_index p) @ write_int64_be (lop_timestamp p) @ [0]"

definition enc_list_offsets_topic :: "ListOffsetsTopicRequest \<Rightarrow> bytes" where
  "enc_list_offsets_topic t =
     enc_string (lot_topic_name t) @ compact_array enc_list_offsets_partition (lot_partitions t) @ [0]"

definition enc_produce_partition :: "ProducePartitionRequest \<Rightarrow> bytes" where
  "enc_produce_partition p =
     write_int32_be (pp_partition_index p) @ compact_string (pp_records p) @ [0]"

definition enc_produce_topic :: "ProduceTopicRequest \<Rightarrow> bytes" where
  "enc_produce_topic t =
     enc_string (pt_topic_name t) @ compact_array enc_produce_partition (pt_partitions t) @ [0]"

definition enc_offset_commit_partition :: "OffsetCommitPartitionRequest \<Rightarrow> bytes" where
  "enc_offset_commit_partition p =
     write_int32_be (ocp_partition_index p) @ write_int64_be (ocp_committed_offset p) @ [0]"

definition enc_offset_commit_topic :: "OffsetCommitTopicRequest \<Rightarrow> bytes" where
  "enc_offset_commit_topic t =
     enc_string (oct_topic_name t) @ compact_array enc_offset_commit_partition (oct_partitions t) @ [0]"

definition enc_offset_fetch_topic :: "OffsetFetchTopicRequest \<Rightarrow> bytes" where
  "enc_offset_fetch_topic t =
     enc_string (oft_topic_name t) @ compact_array write_int32_be (oft_partition_indexes t) @ [0]"

definition enc_join_group_protocol :: "JoinGroupProtocol \<Rightarrow> bytes" where
  "enc_join_group_protocol p = enc_string (jgp_name p) @ compact_string (jgp_metadata p) @ [0]"

definition enc_sync_group_assignment :: "SyncGroupAssignment \<Rightarrow> bytes" where
  "enc_sync_group_assignment a =
     enc_string (sga_member_id a) @ compact_string (sga_assignment a) @ [0]"

definition enc_metadata_name :: "string \<Rightarrow> bytes" where
  "enc_metadata_name s = write_int16_be (word_of_nat (length s)) @ bytes_of_chars s"

section \<open>Requests\<close>

fun enc_body :: "Request \<Rightarrow> bytes" where
  "enc_body (ApiVersions r) = []"
| "enc_body (DescribeTopicPartitions r) =
     compact_array (\<lambda>s. enc_string s @ [0]) (dtp_topic_names r) @ write_int32_be 0 @ [0xFF] @ [0]"
| "enc_body (Fetch r) =
     write_int32_be 0 @ write_int32_be 0 @ write_int32_be (fetch_max_bytes r) @ [0]
       @ write_int32_be 0 @ write_int32_be 0 @ compact_array enc_fetch_topic (fetch_topics r)
       @ compact_array (\<lambda>_ :: unit. []) [] @ compact_string [] @ [0]"
| "enc_body (ListOffsets r) =
     write_int32_be (lo_replica_id r) @ [lo_isolation_level r]
       @ compact_array enc_list_offsets_topic (lo_topics r) @ [0]"
| "enc_body (Metadata r) =
     write_int32_be (word_of_nat (length (md_topics r))) @ concat (map enc_metadata_name (md_topics r))
       @ [if md_allow_auto_topic_creation r then 1 else 0]"
| "enc_body (Produce r) =
     compact_string [] @ write_int16_be 0 @ write_int32_be 0
       @ compact_array enc_produce_topic (produce_topics r) @ [0]"
| "enc_body (OffsetCommit r) =
     enc_string (oc_group_id r) @ enc_string (oc_member_id r) @ write_int32_be (oc_generation_id r)
       @ compact_array enc_offset_commit_topic (oc_topics r) @ [0]"
| "enc_body (OffsetFetch r) =
     enc_string (of_group_id r) @ compact_array enc_offset_fetch_topic (of_topics r) @ [0]"
| "enc_body (FindCoordinator r) = enc_string (fc_coordinator_key r) @ [fc_key_type r] @ [0]"
| "enc_body (JoinGroup r) =
     enc_string (jg_group_id r) @ write_int32_be (jg_session_timeout_ms r)
       @ enc_string (jg_member_id r) @ enc_string (jg_protocol_type r)
       @ compact_array enc_join_group_protocol (jg_protocols r) @ [0]"
| "enc_body (Heartbeat r) =
     enc_string (hb_group_id r) @ write_int32_be (hb_generation_id r) @ enc_string (hb_member_id r)
       @ enc_string (hb_group_instance_id r) @ [0]"
| "enc_body (LeaveGroup r) = enc_string (lg_group_id r) @ enc_string (lg_member_id r) @ [0]"
| "enc_body (SyncGroup r) =
     enc_string (sg_group_id r) @ write_int32_be (sg_generation_id r) @ enc_string (sg_member_id r)
       @ compact_array enc_sync_group_assignment (sg_assignments r) @ [0]"

definition encode_request :: "bytes option \<Rightarrow> Request \<Rightarrow> bytes" where
  "encode_request client req =
     enc_header (request_header req)
       @ (case req of ApiVersions _ \<Rightarrow> [] | _ \<Rightarrow> enc_client client @ enc_body req)"

text \<open>Sizes a request may have on the wire, and the key that belongs to its type.\<close>

fun wire_ok :: "Request \<Rightarrow> bool" where
  "wire_ok (ApiVersions r) = True"
| "wire_ok (DescribeTopicPartitions r) =
     (short (dtp_topic_names r) \<and> list_all short (dtp_topic_names r))"
| "wire_ok (Fetch r) =
     (short (fetch_topics r) \<and>
      list_all (\<lambda>t. length (ft_topic_id t) = 16 \<and> short (ft_partitions t)) (fetch_topics r))"
| "wire_ok (ListOffsets r) =
     (short (lo_topics r) \<and>
      list_all (\<lambda>t. short (lot_topic_name t) \<and> short (lot_partitions t)) (lo_topics r))"
| "wire_ok (Metadata r) =
     (length (md_topics r) < 2 ^ 31 \<and> list_all (\<lambda>s. s \<noteq> [] \<and> length s < 2 ^ 15) (md_topics r))"
| "wire_ok (Produce r) =
     (short (produce_topics r) \<and>
      list_all (\<lambda>t. short (pt_topic_name t) \<and> short (pt_partitions t) \<and>
        list_all (\<lambda>p. short (pp_records p)) (pt_partitions t)) (produce_topics r))"
| "wire_ok (OffsetCommit r) =
     (short (oc_group_id r) \<and> short (oc_member_id r) \<and> short (oc_topics r) \<and>
      list_all (\<lambda>t. short (oct_topic_name t) \<and> short (oct_partitions t)) (oc_topics r))"
| "wire_ok (OffsetFetch r) =
     (short (of_group_id r) \<and> short (of_topics r) \<and>
      list_all (\<lambda>t. short (oft_topic_name t) \<and> short (oft_partition_indexes t)) (of_topics r))"
| "wire_ok (FindCoordinator r) = short (fc_coordinator_key r)"
| "wire_ok (JoinGroup r) =
     (short (jg_group_id r) \<and> short (jg_member_id r) \<and> short (jg_protocol_type r) \<and>
      short (jg_protocols r) \<and>
      list_all (\<lambda>p. short (jgp_name p) \<and> short (jgp_metadata p)) (jg_protocols r))"
| "wire_ok (Heartbeat r) =
     (short (hb_group_id r) \<and> short (hb_member_id r) \<and> short (hb_group_instance_id r))"
| "wire_ok (LeaveGroup r) = (short (lg_group_id r) \<and> short (lg_member_id r))"
| "wire_ok (SyncGroup r) =
     (short (sg_group_id r) \<and> short (sg_member_id r) \<and> short (sg_assignments r) \<and>
      list_all (\<lambda>a. short (sga_member_id a) \<and> short (sga_assignment a)) (sg_assignments r))"

fun request_key :: "Request \<Rightarrow> int16_t" where
  "request_key (ApiVersions r) = 18"
| "request_key (DescribeTopicPartitions r) = 75"
| "request_key (Fetch r) = 1"
| "request_key (ListOffsets r) = 2"
| "request_key (Metadata r) = 3"
| "request_key (Produce r) = 0"
| "request_key (OffsetCommit r) = 8"
| "request_key (OffsetFetch r) = 9"
| "request_key (FindCoordinator r) = 10"
| "request_key (JoinGroup r) = 11"
| "request_key (Heartbeat r) = 12"
| "request_key (LeaveGroup r) = 13"
| "request_key (SyncGroup r) = 14"

section \<open>Reading the pieces back\<close>

lemma compact_count_eq: "n < 2 ^ 32 - 1 \<Longrightarrow> compact_count (u32_of_size n + 1) = n"
  using unat_u32_of_size_Suc [of n]
  by (auto simp: compact_count_def word_greater_zero_iff unat_u32_of_size)

lemma short_prefix: "short xs \<Longrightarrow> unat (u32_of_size (length xs) + 1) < 2 ^ 28"
  by (simp add: short_def unat_u32_of_size_Suc)

lemma reads_enc_string [reads_intros]: "short s \<Longrightarrow> reads read_compact_string (enc_string s) s"
  unfolding enc_string_def short_def by (rule reads_compact_string)

lemma reads_compact_bytes [reads_intros]:
  assumes "short bs"
  shows "reads read_compact_bytes (compact_string bs) bs"
proof (cases "bs = []")
  case True
  then show ?thesis
    unfolding read_compact_bytes_def compact_string_def
    by (intro reads_rbind) (auto simp: u32_of_size_def intro: reads_intros)
next
  case False
  have "1 < u32_of_size (length bs) + 1"
    using False assms by (simp add: word_less_nat_alt unat_u32_of_size_Suc short_def)
  moreover have "unat (u32_of_size (length bs) + 1 - 1) = length bs"
    using assms by (simp add: short_def unat_u32_of_size)
  ultimately show ?thesis
    unfolding read_compact_bytes_def compact_string_def
    using short_prefix [OF assms] by (intro reads_rbind) (auto intro: reads_intros)
qed

lemma reads_skip_compact_Nil [reads_intros]: "reads skip_compact_bytes (compact_string []) ()"
  unfolding skip_compact_bytes_def compact_string_def
  by (intro reads_rbind) (auto simp: u32_of_size_def intro: reads_intros)

lemma reads_client [reads_intros]:
  "client_ok client \<Longrightarrow> reads skip_client_header (enc_client client) ()"
proof (cases client)
  case None
  have "\<not> (0 :: int16_t) <s - 1" by (simp add: word_sless_alt)
  with None show ?thesis
    unfolding skip_client_header_def enc_client_def
    by (simp, intro reads_rbind [where x = "- 1"]) (auto intro: reads_intros)
next
  case (Some cid)
  assume "client_ok client"
  with Some have len: "length cid < 2 ^ (LENGTH(16) - 1)" by (simp add: client_ok_def)
  have *: "reads (if 0 <s (word_of_nat (length cid) :: int16_t)
      then skip (size_of_signed (word_of_nat (length cid) :: int16_t)) else rreturn ()) cid ()"
    using len by (auto simp: sless_word_of_nat size_of_signed_word_of_nat intro: reads_intros)
  show ?thesis
    unfolding skip_client_header_def enc_client_def Some option.case
    by (rule reads_rbind, rule reads_int16, rule reads_rbind, rule *, rule reads_skip) simp
qed

lemma reads_rbind_rreturn: "reads (f x) bs y \<Longrightarrow> reads (rbind (rreturn x) f) bs y"
  by simp

lemma reads_rbind_rderef: "reads (f x) bs y \<Longrightarrow> reads (rbind (rderef (Inr x)) f) bs y"
  by (simp add: rderef_def)

lemma reads_rtry: "reads p bs x \<Longrightarrow> reads (rtry p) bs (Inr x)"
  by (auto simp: reads_def rtry_def)

context codec
begin

lemma decodes_compact_array:
  assumes "short xs" and "list_all valid xs"
  shows "reads (read_compact_array dec) (compact_array enc xs) xs"
  unfolding read_compact_array_def compact_array_def
proof (rule reads_rbind)
  show "reads read_varint (write_unsigned_varint (u32_of_size (length xs) + 1))
      (u32_of_size (length xs) + 1)"
    using assms(1) by (intro reads_varint short_prefix)
  have "compact_count (u32_of_size (length xs) + 1) = length xs"
    using assms(1) by (intro compact_count_eq) (simp add: short_def)
  with decodes_list [OF assms(2)]
  show "reads (read_times (compact_count (u32_of_size (length xs) + 1)) dec) (concat (map enc xs)) xs"
    by simp
qed

end

lemma list_all_True [simp]: "list_all (\<lambda>_. True) xs"
  by (simp add: list_all_iff)

text \<open>The order in which a chain of reads is matched with its encoding.\<close>

lemmas reads_chain = reads_rbind_rreturn reads_rbind_rderef reads_rbind reads_rbind_last
  reads_rreturn_eq reads_rtry reads_int8 reads_int16 reads_int32 reads_int64 reads_enc_string
  reads_compact_bytes reads_skip_compact_Nil reads_bytes reads_skip reads_client

interpretation fetch_partition: codec enc_fetch_partition parse_fetch_partition "\<lambda>_. True"
proof unfold_locales
  show "reads parse_fetch_partition (enc_fetch_partition x) x" for x
    unfolding parse_fetch_partition_def enc_fetch_partition_def
    by (rule reads_chain | simp)+
qed (rule tame_intros)

interpretation fetch_topic: codec enc_fetch_topic parse_fetch_topic
  "\<lambda>x. length (ft_topic_id x) = 16 \<and> short (ft_partitions x)"
proof unfold_locales
  fix x :: FetchTopicRequest assume "length (ft_topic_id x) = 16 \<and> short (ft_partitions x)"
  then show "reads parse_fetch_topic (enc_fetch_topic x) x"
    unfolding parse_fetch_topic_def enc_fetch_topic_def
    by - (rule reads_chain fetch_partition.decodes_compact_array | simp)+
qed (rule tame_intros)

interpretation list_offsets_partition: codec enc_list_offsets_partition parse_list_offsets_partition "\<lambda>_. True"
proof unfold_locales
  show "reads parse_list_offsets_partition (enc_list_offsets_partition x) x" for x
    unfolding parse_list_offsets_partition_def enc_list_offsets_partition_def by (rule reads_chain | simp)+
qed (rule tame_intros)

interpretation list_offsets_topic: codec enc_list_offsets_topic parse_list_offsets_topic
  "\<lambda>x. short (lot_topic_name x) \<and> short (lot_partitions x)"
proof unfold_locales
  fix x :: ListOffsetsTopicRequest assume "short (lot_topic_name x) \<and> short (lot_partitions x)"
  then show "reads parse_list_offsets_topic (enc_list_offsets_topic x) x"
    unfolding parse_list_offsets_topic_def enc_list_offsets_topic_def
    by - (rule reads_chain list_offsets_partition.decodes_compact_array | simp)+
qed (rule tame_intros)

interpretation produce_partition: codec enc_produce_partition parse_produce_partition
  "\<lambda>x. short (pp_records x)"
proof unfold_locales
  fix x :: ProducePartitionRequest assume "short (pp_records x)"
  then show "reads parse_produce_partition (enc_produce_partition x) x"
    unfolding parse_produce_partition_def enc_produce_partition_def
    by - (rule reads_chain | simp)+
qed (rule tame_intros)

interpretation produce_topic: codec enc_produce_topic parse_produce_topic
  "\<lambda>x. short (pt_topic_name x) \<and> short (pt_partitions x) \<and> list_all (\<lambda>p. short (pp_records p)) (pt_partitions x)"
proof unfold_locales
  fix x :: ProduceTopicRequest assume "short (pt_topic_name x) \<and> short (pt_partitions x) \<and> list_all (\<lambda>p. short (pp_records p)) (pt_partitions x)"
  then show "reads parse_produce_topic (enc_produce_topic x) x"
    unfolding parse_produce_topic_def enc_produce_topic_def
    by - (rule reads_chain produce_partition.decodes_compact_array | simp)+
qed (rule tame_intros)

interpretation offset_commit_partition: codec enc_offset_commit_partition parse_offset_commit_partition "\<lambda>_. True"
proof unfold_locales
  show "reads parse_offset_commit_partition (enc_offset_commit_partition x) x" for x
    unfolding parse_offset_commit_partition_def enc_offset_commit_partition_def by (rule reads_chain | simp)+
qed (rule tame_intros)

interpretation offset_commit_topic: codec enc_offset_commit_topic parse_offset_commit_topic
  "\<lambda>x. short (oct_topic_name x) \<and> short (oct_partitions x)"
proof unfold_locales
  fix x :: OffsetCommitTopicRequest assume "short (oct_topic_name x) \<and> short (oct_partitions x)"
  then show "reads parse_offset_commit_topic (enc_offset_commit_topic x) x"
    unfolding parse_offset_commit_topic_def enc_offset_commit_topic_def
    by - (rule reads_chain offset_commit_partition.decodes_compact_array | simp)+
qed (rule tame_intros)

interpretation offset_fetch_topic: codec enc_offset_fetch_topic parse_offset_fetch_topic
  "\<lambda>x. short (oft_topic_name x) \<and> short (oft_partition_indexes x)"
proof unfold_locales
  fix x :: OffsetFetchTopicRequest assume "short (oft_topic_name x) \<and> short (oft_partition_indexes x)"
  then show "reads parse_offset_fetch_topic (enc_offset_fetch_topic x) x"
    unfolding parse_offset_fetch_topic_def enc_offset_fetch_topic_def
    by - (rule reads_chain int32.decodes_compact_array | simp)+
qed (rule tame_intros)

interpretation join_group_protocol: codec enc_join_group_protocol parse_join_group_protocol
  "\<lambda>x. short (jgp_name x) \<and> short (jgp_metadata x)"
proof unfold_locales
  fix x :: JoinGroupProtocol assume "short (jgp_name x) \<and> short (jgp_metadata x)"
  then show "reads parse_join_group_protocol (enc_join_group_protocol x) x"
    unfolding parse_join_group_protocol_def enc_join_group_protocol_def
    by - (rule reads_chain | simp)+
qed (rule tame_intros)

interpretation sync_group_assignment: codec enc_sync_group_assignment parse_sync_group_assignment
  "\<lambda>x. short (sga_member_id x) \<and> short (sga_assignment x)"
proof unfold_locales
  fix x :: SyncGroupAssignment assume "short (sga_member_id x) \<and> short (sga_assignment x)"
  then show "reads parse_sync_group_assignment (enc_sync_group_assignment x) x"
    unfolding parse_sync_group_assignment_def enc_sync_group_assignment_def
    by - (rule reads_chain | simp)+
qed (rule tame_intros)

lemma reads_no_forgotten_topics:
  "reads (read_compact_array skip_forgotten_topic) (compact_array (\<lambda>_ :: unit. []) []) []"
  unfolding read_compact_array_def compact_array_def
  by (rule reads_rbind [where x = 1])
    (auto simp: compact_count_def u32_of_size_def intro: reads_intros)

lemma reads_topic_names:
  assumes "short names" and "list_all short names"
  shows "reads (rbind read_varint (\<lambda>array_len. read_times (unat (array_len - 1))
      (rbind read_compact_string (\<lambda>name. rbind (skip 1) (\<lambda>_. rreturn name)))))
    (compact_array (\<lambda>s. enc_string s @ [0]) names) names"
  unfolding compact_array_def
proof (rule reads_rbind)
  show "reads read_varint (write_unsigned_varint (u32_of_size (length names) + 1))
      (u32_of_size (length names) + 1)"
    using assms(1) by (intro reads_varint short_prefix)
  have "reads (rbind read_compact_string (\<lambda>name. rbind (skip 1) (\<lambda>_. rreturn name)))
      (enc_string s @ [0]) s" if "s \<in> set names" for s
    using assms(2) that by - (rule reads_chain | simp add: list_all_iff)+
  moreover have "unat (u32_of_size (length names) + 1 - 1) = length names"
    using assms(1) by (simp add: short_def unat_u32_of_size)
  ultimately show "reads (read_times (unat (u32_of_size (length names) + 1 - 1))
      (rbind read_compact_string (\<lambda>name. rbind (skip 1) (\<lambda>_. rreturn name))))
      (concat (map (\<lambda>s. enc_string s @ [0]) names)) names"
    by (intro reads_times) simp_all
qed

lemma reads_metadata_name:
  assumes "s \<noteq> []" and "length s < 2 ^ 15"
  shows "reads parse_metadata_name (enc_metadata_name s) [s]"
  unfolding parse_metadata_name_def enc_metadata_name_def
proof (rule reads_rbind, rule reads_int16)
  have len: "length s < 2 ^ (LENGTH(16) - 1)" using assms(2) by simp
  have "reads (rbind (read_bytes (length s)) (\<lambda>bs. rreturn [chars_of_bytes bs]))
      (bytes_of_chars s) [s]"
    by (rule reads_rbind_last, rule reads_bytes) (simp_all add: reads_rreturn_eq)
  then show "reads (if 0 <s (word_of_nat (length s) :: int16_t)
      then rbind (read_bytes (size_of_signed (word_of_nat (length s) :: int16_t)))
        (\<lambda>bs. rreturn [chars_of_bytes bs])
      else rreturn []) (bytes_of_chars s) [s]"
    using len assms(1) by (simp add: sless_word_of_nat size_of_signed_word_of_nat)
qed

lemma reads_metadata_names:
  assumes "length names < 2 ^ 31" and "list_all (\<lambda>s. s \<noteq> [] \<and> length s < 2 ^ 15) names"
  shows "reads (if 0 <s (word_of_nat (length names) :: int32_t)
      then read_times (size_of_signed (word_of_nat (length names) :: int32_t)) parse_metadata_name
      else rreturn []) (concat (map enc_metadata_name names)) (map (\<lambda>s. [s]) names)"
proof -
  have len: "length names < 2 ^ (LENGTH(32) - 1)" using assms(1) by simp
  have "reads (read_times (length names) parse_metadata_name)
      (concat (map (enc_metadata_name \<circ> hd) (map (\<lambda>s. [s]) names))) (map (\<lambda>s. [s]) names)"
    using assms(2)
    by (intro reads_times) (auto simp: list_all_iff intro!: reads_metadata_name)
  then show ?thesis
    using len by (auto simp: o_def sless_word_of_nat size_of_signed_word_of_nat
        intro: reads_rreturn_eq)
qed

section \<open>The round trip\<close>

lemma rbind_assoc: "rbind (rbind p f) g = rbind p (\<lambda>x. rbind (f x) g)"
  by (auto simp: rbind_def fun_eq_iff split: sum.splits prod.splits)

lemma parse_describe_eq:
  "parse_describe_topic_partitions hdr =
     rbind skip_client_header (\<lambda>_.
     rbind (rbind read_varint (\<lambda>array_len. read_times (unat (array_len - 1))
              (rbind read_compact_string (\<lambda>name. rbind (skip 1) (\<lambda>_. rreturn name))))) (\<lambda>topic_names.
     rbind read_int32 (\<lambda>partition_limit.
     rbind read_int8 (\<lambda>cursor_flag.
     rbind (if cursor_flag \<noteq> 0xFF
            then rbind read_compact_string (\<lambda>cursor_name.
                 rbind read_int32 (\<lambda>cursor_partition. skip 1))
            else rreturn ()) (\<lambda>_.
     rbind (skip 1) (\<lambda>_.
     rreturn (DescribeTopicPartitions \<lparr>dtp_header = hdr, dtp_topic_names = topic_names\<rparr>)))))))"
  by (simp only: parse_describe_topic_partitions_def rbind_assoc)

lemma reads_describe:
  assumes "client_ok client" and "wire_ok (DescribeTopicPartitions r)"
  shows "reads (parse_describe_topic_partitions (dtp_header r))
    (enc_client client @ enc_body (DescribeTopicPartitions r)) (DescribeTopicPartitions r)"
proof -
  have cursor: "reads (rbind (if (0xFF :: uint8_t) \<noteq> 0xFF then p else rreturn ()) f) bs y"
    if "reads (f ()) bs y" for p f and bs :: bytes and y :: Request
    using that by simp
  show ?thesis
    using assms unfolding parse_describe_eq enc_body.simps
    by - (rule reads_rbind, rule reads_client, simp, rule reads_rbind, rule reads_topic_names,
      simp, simp, rule reads_rbind, rule reads_int32, rule reads_rbind, rule reads_int8, rule cursor,
      (rule reads_chain | simp)+)
qed

lemma reads_metadata:
  assumes "client_ok client" and "wire_ok (Metadata r)"
  shows "reads (parse_metadata (md_header r)) (enc_client client @ enc_body (Metadata r)) (Metadata r)"
  using assms unfolding parse_metadata_def enc_body.simps
  by - (rule reads_rbind, rule reads_client, simp, rule reads_rbind, rule reads_int32,
    rule reads_rbind, rule reads_metadata_names, simp, simp, rule reads_rbind_last,
    rule reads_int8, rule reads_rreturn_eq, simp)

lemmas reads_arrays = fetch_topic.decodes_compact_array list_offsets_topic.decodes_compact_array
  produce_topic.decodes_compact_array offset_commit_topic.decodes_compact_array
  offset_fetch_topic.decodes_compact_array join_group_protocol.decodes_compact_array
  sync_group_assignment.decodes_compact_array reads_no_forgotten_topics

lemma reads_cases:
  assumes "client_ok client"
  shows "wire_ok (Fetch r0) \<Longrightarrow> reads (parse_fetch (fetch_header r0))
      (enc_client client @ enc_body (Fetch r0)) (Fetch r0)"
    and "wire_ok (ListOffsets r1) \<Longrightarrow> reads (parse_list_offsets (lo_header r1))
      (enc_client client @ enc_body (ListOffsets r1)) (ListOffsets r1)"
    and "wire_ok (Produce r2) \<Longrightarrow> reads (parse_produce (produce_header r2))
      (enc_client client @ enc_body (Produce r2)) (Produce r2)"
    and "wire_ok (OffsetCommit r3) \<Longrightarrow> reads (parse_offset_commit (oc_header r3))
      (enc_client client @ enc_body (OffsetCommit r3)) (OffsetCommit r3)"
    and "wire_ok (OffsetFetch r4) \<Longrightarrow> reads (parse_offset_fetch (of_header r4))
      (enc_client client @ enc_body (OffsetFetch r4)) (OffsetFetch r4)"
    and "wire_ok (FindCoordinator r5) \<Longrightarrow> reads (parse_find_coordinator (fc_header r5))
      (enc_client client @ enc_body (FindCoordinator r5)) (FindCoordinator r5)"
    and "wire_ok (JoinGroup r6) \<Longrightarrow> reads (parse_join_group (jg_header r6))
      (enc_client client @ enc_body (JoinGroup r6)) (JoinGroup r6)"
    and "wire_ok (Heartbeat r7) \<Longrightarrow> reads (parse_heartbeat (hb_header r7))
      (enc_client client @ enc_body (Heartbeat r7)) (Heartbeat r7)"
    and "wire_ok (LeaveGroup r8) \<Longrightarrow> reads (parse_leave_group (lg_header r8))
      (enc_client client @ enc_body (LeaveGroup r8)) (LeaveGroup r8)"
    and "wire_ok (SyncGroup r9) \<Longrightarrow> reads (parse_sync_group (sg_header r9))
      (enc_client client @ enc_body (SyncGroup r9)) (SyncGroup r9)"
  using assms unfolding parse_case_defs enc_body.simps
  by - ((rule reads_chain reads_arrays | simp)+)

lemma reads_parse_body:
  assumes "client_ok client" and "wire_ok req" and "api_key (request_header req) = request_key req"
  shows "reads (parse_body (request_header req))
    (case req of ApiVersions _ \<Rightarrow> [] | _ \<Rightarrow> enc_client client @ enc_body req) req"
  using assms
  by (cases req)
    (simp_all add: parse_body_def Let_def reads_cases reads_describe reads_metadata reads_rreturn_eq
      del: enc_body.simps wire_ok.simps)

lemma reads_encode_request:
  assumes "client_ok client" and "wire_ok req" and "api_key (request_header req) = request_key req"
  shows "reads request_parser (encode_request client req) req"
proof -
  have hdr: "\<lparr>api_key = api_key hdr, api_version = api_version hdr,
      correlation_id = correlation_id hdr\<rparr> = hdr" for hdr :: RequestHeader by simp
  show ?thesis
    unfolding request_parser_def encode_request_def enc_header_def append_assoc
    by (rule reads_rbind, rule reads_int16, rule reads_rbind, rule reads_int16, rule reads_rbind,
      rule reads_int32, simp only: hdr, rule reads_parse_body [OF assms])
qed

lemma parse_encode_request:
  assumes "client_ok client" and "wire_ok req" and "api_key (request_header req) = request_key req"
  shows "parse_request (encode_request client req @ ext) = Inr req"
  using readsD [OF reads_encode_request [OF assms], of "ByteReader (encode_request client req @ ext)" ext]
  by (simp add: parse_request_def)

end
