(* ===== verification/Response_Format.thy ===== *)
theory Response_Format
  imports Serializer Wire_Format
begin

text \<open>
  The wire format of the thirteen response types as a specification: one encoder per struct,
  built by concatenation and with no buffer, no size computation and no offset. The serializer
  implements it: the size it computes in advance is the length of the encoding, no write leaves
  the buffer, and the result is the length-prefixed encoding. The one exception is the
  DescribeTopicPartitions response, whose size computation counts one byte for the number of
  topics.
\<close>

section \<open>The format\<close>

definition frame :: "bytes \<Rightarrow> bytes" where
  "frame body = write_int32_be (word_of_nat (length body)) @ body"

definition enc_nullable_string :: "string \<Rightarrow> bytes" where
  "enc_nullable_string s = (if s = [] then [0] else enc_string s)"

definition enc_bool :: "bool \<Rightarrow> bytes" where
  "enc_bool b = [if b then 1 else 0]"

definition enc_api_version_entry :: "ApiVersionEntry \<Rightarrow> bytes" where
  "enc_api_version_entry e =
     write_int16_be (ave_api_key e) @ write_int16_be (ave_min_version e)
       @ write_int16_be (ave_max_version e) @ [0]"

definition enc_partition_ids :: "PartitionMetadata \<Rightarrow> bytes" where
  "enc_partition_ids p =
     write_int16_be (pm_error_code p) @ write_int32_be (pm_partition_index p)
       @ write_int32_be (pm_leader_id p) @ write_int32_be (pm_leader_epoch p)"

definition enc_describe_partition :: "PartitionMetadata \<Rightarrow> bytes" where
  "enc_describe_partition p =
     enc_partition_ids p @ concat (map (compact_array write_int32_be)
       [pm_replica_nodes p, pm_isr_nodes p, pm_eligible_leader_replicas p, pm_last_known_elr p,
        pm_offline_replicas p]) @ [0]"

definition enc_metadata_partition :: "PartitionMetadata \<Rightarrow> bytes" where
  "enc_metadata_partition p =
     enc_partition_ids p @ concat (map (compact_array write_int32_be)
       [pm_replica_nodes p, pm_isr_nodes p, pm_offline_replicas p, pm_eligible_leader_replicas p,
        pm_last_known_elr p]) @ [0]"

definition enc_describe_topic :: "TopicMetadata \<Rightarrow> bytes" where
  "enc_describe_topic t =
     write_int16_be (tm_error_code t) @ enc_string (tm_topic_name t) @ tm_topic_id t
       @ enc_bool (tm_is_internal t) @ compact_array enc_describe_partition (tm_partitions t)
       @ write_int32_be (tm_authorized_operations t) @ [0]"

definition enc_fetch_partition_response :: "FetchPartitionResponse \<Rightarrow> bytes" where
  "enc_fetch_partition_response p =
     write_int32_be (fpr_partition_index p) @ write_int16_be (fpr_error_code p)
       @ write_int64_be 0 @ write_int64_be 0 @ write_int64_be 0
       @ compact_array (\<lambda>_ :: unit. []) [] @ write_int32_be 0 @ compact_string (fpr_records p) @ [0]"

definition enc_fetch_topic_response :: "FetchTopicResponse \<Rightarrow> bytes" where
  "enc_fetch_topic_response t =
     ftr_topic_id t @ compact_array enc_fetch_partition_response (ftr_partitions t) @ [0]"

definition enc_metadata_broker :: "MetadataBroker \<Rightarrow> bytes" where
  "enc_metadata_broker b =
     write_int32_be (mb_node_id b) @ enc_string (mb_host b) @ write_int32_be (mb_port b)
       @ enc_nullable_string (mb_rack b) @ [0]"

definition enc_metadata_topic :: "MetadataTopicResponse \<Rightarrow> bytes" where
  "enc_metadata_topic t =
     write_int16_be (mtr_error_code t) @ enc_nullable_string (mtr_topic_name t) @ mtr_topic_id t
       @ enc_bool (mtr_is_internal t) @ compact_array enc_metadata_partition (mtr_partitions t)
       @ write_int32_be (mtr_topic_authorized_operations t) @ [0]"

definition enc_offset_commit_topic_response :: "OffsetCommitTopicResponse \<Rightarrow> bytes" where
  "enc_offset_commit_topic_response t =
     enc_string (octr_topic_name t) @ compact_array (\<lambda>p.
       write_int32_be (ocpr_partition_index p) @ write_int16_be (ocpr_error_code p)
         @ write_int32_be (ocpr_committed_leader_epoch p)
         @ enc_nullable_string (ocpr_committed_metadata p) @ [0]) (octr_partitions t) @ [0]"

definition enc_offset_fetch_topic_response :: "OffsetFetchTopicResponse \<Rightarrow> bytes" where
  "enc_offset_fetch_topic_response t =
     enc_string (oftr_topic_name t) @ compact_array (\<lambda>p.
       write_int32_be (ofpr_partition_index p) @ write_int64_be (ofpr_committed_offset p)
         @ write_int32_be (ofpr_committed_leader_epoch p)
         @ enc_nullable_string (ofpr_committed_metadata p)
         @ write_int16_be (ofpr_error_code p) @ [0]) (oftr_partitions t) @ [0]"

definition enc_list_offsets_topic_response :: "ListOffsetsTopicResponse \<Rightarrow> bytes" where
  "enc_list_offsets_topic_response t =
     enc_string (lotr_topic_name t) @ compact_array (\<lambda>p.
       write_int32_be (lopr_partition_index p) @ write_int16_be (lopr_error_code p)
         @ write_int64_be (lopr_offset p) @ write_int64_be (lopr_timestamp p) @ [0])
       (lotr_partitions t) @ [0]"

definition enc_produce_topic_response :: "ProduceTopicResponse \<Rightarrow> bytes" where
  "enc_produce_topic_response t =
     enc_string (ptr_topic_name t) @ compact_array (\<lambda>p.
       write_int32_be (ppr_partition_index p) @ write_int16_be (ppr_error_code p)
         @ write_int64_be (ppr_base_offset p) @ write_int64_be (ppr_log_append_time_ms p)
         @ write_int64_be (ppr_log_start_offset p) @ [1, 0, 0]) (ptr_partitions t) @ [0]"

definition enc_join_group_member :: "JoinGroupMember \<Rightarrow> bytes" where
  "enc_join_group_member m = enc_string (jgm_member_id m) @ compact_string (jgm_metadata m) @ [0]"

text \<open>Everything after the correlation id.\<close>

fun enc_response :: "Response \<Rightarrow> bytes" where
  "enc_response (ApiVersionsR r) =
     write_int16_be (avr_error_code r) @ compact_array enc_api_version_entry (avr_api_keys r)
       @ write_int32_be (avr_throttle_time_ms r) @ [0]"
| "enc_response (DescribeTopicPartitionsR r) =
     [0] @ write_int32_be (dtr_throttle_time_ms r) @ compact_array enc_describe_topic (dtr_topics r)
       @ [0xFF, 0]"
| "enc_response (FetchR r) =
     [0] @ write_int32_be (fr_throttle_time_ms r) @ write_int16_be (fr_error_code r)
       @ write_int32_be (fr_session_id r) @ compact_array enc_fetch_topic_response (fr_responses r)
       @ [0]"
| "enc_response (MetadataR r) =
     [0] @ write_int32_be (mr_throttle_time_ms r) @ compact_array enc_metadata_broker (mr_brokers r)
       @ enc_nullable_string (mr_cluster_id r) @ write_int32_be (mr_controller_id r)
       @ compact_array enc_metadata_topic (mr_topics r)
       @ write_int32_be (mr_cluster_authorized_operations r) @ [0]"
| "enc_response (FindCoordinatorR r) =
     [0] @ write_int32_be (fcr_throttle_time_ms r) @ write_int16_be (fcr_error_code r)
       @ enc_nullable_string (fcr_error_message r) @ write_int32_be (fcr_node_id r)
       @ enc_string (fcr_host r) @ write_int32_be (fcr_port r) @ [0]"
| "enc_response (OffsetCommitR r) =
     [0] @ write_int32_be (ocr_throttle_time_ms r)
       @ compact_array enc_offset_commit_topic_response (ocr_topics r) @ [0]"
| "enc_response (OffsetFetchR r) =
     [0] @ write_int32_be (ofr_throttle_time_ms r)
       @ compact_array enc_offset_fetch_topic_response (ofr_topics r) @ [0]"
| "enc_response (ListOffsetsR r) =
     [0] @ write_int32_be (lor_throttle_time_ms r)
       @ compact_array enc_list_offsets_topic_response (lor_topics r) @ [0]"
| "enc_response (JoinGroupR r) =
     [0] @ write_int32_be (jgr_throttle_time_ms r) @ write_int16_be (jgr_error_code r)
       @ write_int32_be (jgr_generation_id r) @ enc_nullable_string (jgr_protocol_name r)
       @ enc_string (jgr_leader r) @ enc_string (jgr_member_id r)
       @ compact_array enc_join_group_member (jgr_members r) @ [0]"
| "enc_response (HeartbeatR r) =
     [0] @ write_int32_be (hbr_throttle_time_ms r) @ write_int16_be (hbr_error_code r) @ [0]"
| "enc_response (LeaveGroupR r) =
     [0] @ write_int32_be (lgr_throttle_time_ms r) @ write_int16_be (lgr_error_code r) @ [0]"
| "enc_response (SyncGroupR r) =
     [0] @ write_int32_be (sgr_throttle_time_ms r) @ write_int16_be (sgr_error_code r)
       @ enc_nullable_string (sgr_protocol_type r) @ enc_nullable_string (sgr_protocol_name r)
       @ compact_string (sgr_assignment r) @ [0]"
| "enc_response (ProduceR r) =
     [0] @ compact_array enc_produce_topic_response (pr_responses r)
       @ write_int32_be (pr_throttle_time_ms r) @ [0]"

definition response_frame :: "Response \<Rightarrow> bytes" where
  "response_frame r = frame (write_int32_be (response_correlation_id r) @ enc_response r)"

text \<open>The topic identifiers are arrays of sixteen bytes in the source.\<close>

fun uuids_ok :: "Response \<Rightarrow> bool" where
  "uuids_ok (DescribeTopicPartitionsR r) = list_all (\<lambda>t. length (tm_topic_id t) = 16) (dtr_topics r)"
| "uuids_ok (FetchR r) = list_all (\<lambda>t. length (ftr_topic_id t) = 16) (fr_responses r)"
| "uuids_ok (MetadataR r) = list_all (\<lambda>t. length (mtr_topic_id t) = 16) (mr_topics r)"
| "uuids_ok _ = True"

text \<open>The number of topics the serializer leaves room for.\<close>

fun describe_fits :: "Response \<Rightarrow> bool" where
  "describe_fits (DescribeTopicPartitionsR r) = (length (dtr_topics r) < 127)"
| "describe_fits _ = True"

section \<open>What the writes of the serializer emit\<close>

lemma emits_eq: "emits a bs \<Longrightarrow> bs = cs \<Longrightarrow> emits a cs"
  by simp

lemma varint_0: "write_unsigned_varint 0 = [0]"
  by (subst write_unsigned_varint.simps) simp

lemma varint_1: "write_unsigned_varint 1 = [1]"
  by (subst write_unsigned_varint.simps) simp

lemma u32_of_size_0: "u32_of_size 0 = 0"
  by (simp add: u32_of_size_def)

lemma emits_nullable_string [emits_intros]:
  "emits (write_nullable_string s) (enc_nullable_string s)"
  unfolding write_nullable_string_def enc_nullable_string_def enc_string_def
  by (rule emits_if) (rule emits_eq [OF _ varint_0], intro emits_intros, intro emits_intros)

lemma emits_nonempty_bytes [emits_intros]: "emits (write_nonempty_bytes bs) bs"
  unfolding write_nonempty_bytes_def
  by (rule emits_eq, (rule emits_intros)+) simp

lemma emits_compact_int32_array [emits_intros]:
  "emits (write_compact_int32_array xs) (compact_array write_int32_be xs)"
  unfolding write_compact_int32_array_def compact_array_def
  by (rule emits_eq, (rule emits_intros)+) simp

lemmas block_defs = compact_array_def compact_string_def enc_string_def enc_bool_def varint_1
  u32_of_size_0

lemma emits_describe_partition [emits_intros]:
  "emits (write_describe_partition p) (enc_describe_partition p)"
  unfolding write_describe_partition_def
  by (rule emits_eq, (rule emits_intros)+) (simp add: enc_describe_partition_def enc_partition_ids_def)

lemma emits_metadata_partition [emits_intros]:
  "emits (write_metadata_partition p) (enc_metadata_partition p)"
  unfolding write_metadata_partition_def
  by (rule emits_eq, (rule emits_intros)+) (simp add: enc_metadata_partition_def enc_partition_ids_def)

lemma emits_describe_topic [emits_intros]:
  "emits (write_describe_topic t) (enc_describe_topic t)"
  unfolding write_describe_topic_def
  by (rule emits_eq, (rule emits_intros)+) (simp add: enc_describe_topic_def block_defs)

lemma emits_fetch_partition [emits_intros]:
  "emits (write_fetch_partition p) (enc_fetch_partition_response p)"
  unfolding write_fetch_partition_def
  by (rule emits_eq, (rule emits_intros)+) (simp add: enc_fetch_partition_response_def block_defs)

lemma emits_fetch_topic [emits_intros]:
  "emits (write_fetch_topic t) (enc_fetch_topic_response t)"
  unfolding write_fetch_topic_def
  by (rule emits_eq, (rule emits_intros)+) (simp add: enc_fetch_topic_response_def block_defs)

lemma emits_metadata_broker [emits_intros]:
  "emits (write_metadata_broker b) (enc_metadata_broker b)"
  unfolding write_metadata_broker_def
  by (rule emits_eq, (rule emits_intros)+) (simp add: enc_metadata_broker_def block_defs)

lemma emits_metadata_topic [emits_intros]:
  "emits (write_metadata_topic t) (enc_metadata_topic t)"
  unfolding write_metadata_topic_def
  by (rule emits_eq, (rule emits_intros)+) (simp add: enc_metadata_topic_def block_defs)

lemma emits_offset_commit_topic [emits_intros]:
  "emits (write_offset_commit_topic t) (enc_offset_commit_topic_response t)"
  unfolding write_offset_commit_topic_def write_offset_commit_partition_def
  by (rule emits_eq, (rule emits_intros)+) (simp add: enc_offset_commit_topic_response_def block_defs)

lemma emits_offset_fetch_topic [emits_intros]:
  "emits (write_offset_fetch_topic t) (enc_offset_fetch_topic_response t)"
  unfolding write_offset_fetch_topic_def write_offset_fetch_partition_def
  by (rule emits_eq, (rule emits_intros)+) (simp add: enc_offset_fetch_topic_response_def block_defs)

lemma emits_list_offsets_topic [emits_intros]:
  "emits (write_list_offsets_topic t) (enc_list_offsets_topic_response t)"
  unfolding write_list_offsets_topic_def write_list_offsets_partition_def
  by (rule emits_eq, (rule emits_intros)+) (simp add: enc_list_offsets_topic_response_def block_defs)

lemma emits_produce_topic [emits_intros]:
  "emits (write_produce_topic t) (enc_produce_topic_response t)"
  unfolding write_produce_topic_def write_produce_partition_def
  by (rule emits_eq, (rule emits_intros)+) (simp add: enc_produce_topic_response_def block_defs)

lemma emits_join_group_member [emits_intros]:
  "emits (write_join_group_member m) (enc_join_group_member m)"
  unfolding write_join_group_member_def
  by (rule emits_eq, (rule emits_intros)+) (simp add: enc_join_group_member_def block_defs)

section \<open>The size computations\<close>

text \<open>
  Every size function is the length of the encoding, element by element.
\<close>

lemma varint_encoded_size_0_1: "varint_encoded_size 0 = 1" "varint_encoded_size 1 = 1"
  using length_write_unsigned_varint [of 0] length_write_unsigned_varint [of 1]
  by (simp_all add: varint_0 varint_1)

lemma string_size_eq: "string_size s = length (compact_string s)"
  "length (enc_string cs) = string_size cs"
  by (simp_all add: string_size_def compact_string_def enc_string_def)

lemma nullable_string_size_eq: "nullable_string_size s = length (enc_nullable_string s)"
  by (simp add: nullable_string_size_def enc_nullable_string_def enc_string_def compact_string_def
      varint_encoded_size_0_1)

lemma length_compact_array:
  "length (compact_array enc xs) =
     varint_encoded_size (u32_of_size (length xs) + 1) + (\<Sum>x\<leftarrow>xs. length (enc x))"
  by (simp add: compact_array_def length_concat comp_def)

lemma compact_int32_array_size_eq: "compact_int32_array_size xs = length (compact_array write_int32_be xs)"
  by (simp add: compact_int32_array_size_def length_compact_array sum_list_triv)

lemmas size_eqs = nullable_string_size_eq compact_int32_array_size_eq [symmetric]
  length_compact_array string_size_def enc_bool_def compact_string_def enc_string_def
  u32_of_size_0 varint_encoded_size_0_1 sum_list_triv

lemma size_describe_partition_eq: "length (enc_describe_partition p) = partition_entry_size p"
  by (simp add: enc_describe_partition_def enc_partition_ids_def partition_entry_size_def
      compact_int32_array_size_eq)

lemma size_metadata_partition_eq: "length (enc_metadata_partition p) = size_metadata_partition p"
  by (simp add: enc_metadata_partition_def enc_partition_ids_def size_metadata_partition_def
      compact_int32_array_size_eq)

lemma size_describe_topic_eq:
  "length (tm_topic_id t) = 16 \<Longrightarrow> length (enc_describe_topic t) = size_describe_topic t"
  by (simp add: enc_describe_topic_def size_describe_topic_def size_describe_partition_eq size_eqs)

lemma size_fetch_partition_eq: "length (enc_fetch_partition_response p) = size_fetch_partition p"
  by (simp add: enc_fetch_partition_response_def size_fetch_partition_def size_eqs)

lemma size_fetch_topic_eq:
  "length (ftr_topic_id t) = 16 \<Longrightarrow> length (enc_fetch_topic_response t) = size_fetch_topic t"
  by (simp add: enc_fetch_topic_response_def size_fetch_topic_def size_fetch_partition_eq size_eqs)

lemma size_metadata_broker_eq: "length (enc_metadata_broker b) = size_metadata_broker b"
  by (simp add: enc_metadata_broker_def size_metadata_broker_def size_eqs)

lemma size_metadata_topic_eq:
  "length (mtr_topic_id t) = 16 \<Longrightarrow> length (enc_metadata_topic t) = size_metadata_topic t"
  by (simp add: enc_metadata_topic_def size_metadata_topic_def size_metadata_partition_eq size_eqs)

text \<open>The metadata string of a partition is sized as a plain string and written as a nullable one;
  both take one byte when it is empty.\<close>

lemma length_enc_nullable_string: "length (enc_nullable_string s) = string_size s"
  by (simp add: enc_nullable_string_def size_eqs)

lemma size_offset_commit_topic_eq:
  "length (enc_offset_commit_topic_response t) = size_offset_commit_topic t"
  by (simp add: enc_offset_commit_topic_response_def size_offset_commit_topic_def
      length_enc_nullable_string length_compact_array string_size_eq ac_simps)

lemma size_offset_fetch_topic_eq:
  "length (enc_offset_fetch_topic_response t) = size_offset_fetch_topic t"
  by (simp add: enc_offset_fetch_topic_response_def size_offset_fetch_topic_def
      length_enc_nullable_string length_compact_array string_size_eq ac_simps)

lemma size_list_offsets_topic_eq:
  "length (enc_list_offsets_topic_response t) = size_list_offsets_topic t"
  by (simp add: enc_list_offsets_topic_response_def size_list_offsets_topic_def size_eqs)

lemma size_produce_topic_eq: "length (enc_produce_topic_response t) = size_produce_topic t"
  by (simp add: enc_produce_topic_response_def size_produce_topic_def size_eqs)

lemma size_join_group_member_eq:
  "length (enc_join_group_member m) = string_size (jgm_member_id m) + string_size (jgm_metadata m) + 1"
  by (simp add: enc_join_group_member_def size_eqs)

lemmas element_size_eqs = size_metadata_broker_eq size_offset_commit_topic_eq
  size_offset_fetch_topic_eq size_list_offsets_topic_eq size_produce_topic_eq
  size_join_group_member_eq

lemma sum_list_map_cong_all:
  "list_all P xs \<Longrightarrow> (\<And>x. P x \<Longrightarrow> f x = g x) \<Longrightarrow> sum_list (map f xs) = sum_list (map g xs)"
  by (induction xs) simp_all

section \<open>The serializer implements the format\<close>

lemma fill_frame:
  assumes "emits a bs" and "bs = write_int32_be (word_of_nat n) @ body" and "length body = n"
  shows "fill (4 + n) a = Some (frame body)"
  using assms by (simp add: fill_exact frame_def)

lemma serialize_api_versions_eq:
  "serialize_api_versions r = Some (response_frame (ApiVersionsR r))"
  unfolding serialize_api_versions_def response_frame_def
  by (rule fill_frame, (rule emits_intros)+)
    (simp_all add: block_defs enc_api_version_entry_def [abs_def] size_api_versions_def length_concat
      comp_def sum_list_triv)

lemma serialize_describe_eq:
  assumes "uuids_ok (DescribeTopicPartitionsR r)" and "length (dtr_topics r) < 127"
  shows "serialize_describe r = Some (response_frame (DescribeTopicPartitionsR r))"
proof -
  have one: "varint_encoded_size (u32_of_size (length (dtr_topics r)) + 1) = 1"
    using assms(2) by (subst varint_encoded_size_rec) (simp add: word_le_nat_alt unat_u32_of_size_Suc)
  show ?thesis
    unfolding serialize_describe_def response_frame_def
    apply (rule fill_frame, (rule emits_intros)+)
    using assms one by (simp_all add: block_defs size_describe_def length_concat comp_def
      kResponseHeaderV1Size_def sum_list_map_cong_all [OF _ size_describe_topic_eq])
qed

lemma serialize_fetch_eq:
  assumes "uuids_ok (FetchR r)"
  shows "serialize_fetch r = Some (response_frame (FetchR r))"
  unfolding serialize_fetch_def response_frame_def
  apply (rule fill_frame, (rule emits_intros)+)
  using assms
  by (simp_all add: block_defs size_fetch_def length_concat comp_def
      sum_list_map_cong_all [OF _ size_fetch_topic_eq])

lemma serialize_metadata_eq:
  assumes "uuids_ok (MetadataR r)"
  shows "serialize_metadata r = Some (response_frame (MetadataR r))"
  unfolding serialize_metadata_def response_frame_def
  apply (rule fill_frame, (rule emits_intros)+)
  using assms
  by (simp_all add: block_defs size_metadata_def length_concat comp_def element_size_eqs
      nullable_string_size_eq sum_list_map_cong_all [OF _ size_metadata_topic_eq])

lemma serialize_find_coordinator_eq:
  "serialize_find_coordinator r = Some (response_frame (FindCoordinatorR r))"
  unfolding serialize_find_coordinator_def response_frame_def
  by (rule fill_frame, (rule emits_intros)+)
    (simp_all add: block_defs size_find_coordinator_def nullable_string_size_eq string_size_def)

lemma serialize_offset_commit_eq:
  "serialize_offset_commit r = Some (response_frame (OffsetCommitR r))"
  unfolding serialize_offset_commit_def response_frame_def
  by (rule fill_frame, (rule emits_intros)+)
    (simp_all add: block_defs size_offset_commit_def length_concat comp_def element_size_eqs)

lemma serialize_offset_fetch_eq:
  "serialize_offset_fetch r = Some (response_frame (OffsetFetchR r))"
  unfolding serialize_offset_fetch_def response_frame_def
  by (rule fill_frame, (rule emits_intros)+)
    (simp_all add: block_defs size_offset_fetch_def length_concat comp_def element_size_eqs)

lemma serialize_list_offsets_eq:
  "serialize_list_offsets r = Some (response_frame (ListOffsetsR r))"
  unfolding serialize_list_offsets_def response_frame_def
  by (rule fill_frame, (rule emits_intros)+)
    (simp_all add: block_defs size_list_offsets_def length_concat comp_def element_size_eqs)

lemma serialize_join_group_eq:
  "serialize_join_group r = Some (response_frame (JoinGroupR r))"
  unfolding serialize_join_group_def response_frame_def
  by (rule fill_frame, (rule emits_intros)+)
    (simp_all add: block_defs size_join_group_def length_concat comp_def element_size_eqs
      nullable_string_size_eq string_size_def)

lemma serialize_heartbeat_eq:
  "serialize_heartbeat r = Some (response_frame (HeartbeatR r))"
  unfolding serialize_heartbeat_def response_frame_def Let_def
  by (rule fill_frame, (rule emits_intros)+) simp_all

lemma serialize_leave_group_eq:
  "serialize_leave_group r = Some (response_frame (LeaveGroupR r))"
  unfolding serialize_leave_group_def response_frame_def Let_def
  by (rule fill_frame, (rule emits_intros)+) simp_all

lemma serialize_sync_group_eq:
  "serialize_sync_group r = Some (response_frame (SyncGroupR r))"
  unfolding serialize_sync_group_def response_frame_def
  by (rule fill_frame, (rule emits_intros)+)
    (simp_all add: block_defs size_sync_group_def nullable_string_size_eq string_size_def)

lemma serialize_produce_eq:
  "serialize_produce r = Some (response_frame (ProduceR r))"
  unfolding serialize_produce_def response_frame_def
  by (rule fill_frame, (rule emits_intros)+)
    (simp_all add: block_defs size_produce_def length_concat comp_def element_size_eqs)

lemmas serialize_eqs = serialize_api_versions_eq serialize_describe_eq serialize_fetch_eq
  serialize_metadata_eq serialize_find_coordinator_eq serialize_offset_commit_eq
  serialize_offset_fetch_eq serialize_list_offsets_eq serialize_join_group_eq
  serialize_heartbeat_eq serialize_leave_group_eq serialize_sync_group_eq serialize_produce_eq

lemma serialize_response_frame:
  assumes "uuids_ok r" and "describe_fits r"
  shows "serialize r = Some (response_frame r)"
  using assms by (cases r) (simp_all add: serialize_eqs)

text \<open>C39: With 127 topics or more the serializer of DescribeTopicPartitions writes past the end of
  its buffer: it leaves one byte for the number of topics, which then needs two.\<close>

theorem serialize_describe_overflow:
  assumes "uuids_ok (DescribeTopicPartitionsR r)" and "127 \<le> length (dtr_topics r)"
    and "length (dtr_topics r) < 2 ^ 32 - 1"
  shows "serialize_describe r = None"
proof -
  let ?v = "u32_of_size (length (dtr_topics r)) + 1"
  have two: "1 < varint_encoded_size ?v"
    using assms(2,3) varint_encoded_size_pos [of "drop_bit 7 ?v"]
    by (subst varint_encoded_size_rec) (simp add: word_le_nat_alt unat_u32_of_size_Suc)
  show ?thesis
    unfolding serialize_describe_def
    apply (subst fill_emits, (rule emits_intros)+)
    using assms(1) two by (simp add: size_describe_def length_concat comp_def
      kResponseHeaderV1Size_def sum_list_map_cong_all [OF _ size_describe_topic_eq])
qed

theorem serialize_describe_overflow_witness:
  "serialize_describe \<lparr>dtr_correlation_id = 1, dtr_throttle_time_ms = 0,
     dtr_topics = replicate 127 \<lparr>tm_error_code = 3, tm_topic_name = [], tm_topic_id = replicate 16 0,
       tm_is_internal = False, tm_authorized_operations = 0, tm_partitions = []\<rparr>\<rparr> = None"
  by (rule serialize_describe_overflow) (simp_all add: list_all_iff)

text \<open>What a client sees first: the length prefix and the correlation id.\<close>

lemma frame_length_prefix:
  "length body < 2 ^ 31 \<Longrightarrow> sint (decode_int32_be (take 4 (frame body))) = int (length (frame body)) - 4"
  by (simp add: frame_def sint_word_of_nat)

end
