(* ===== verification/Broker.thy ===== *)
theory Broker
  imports Group_Coordinator Metadata_Handler Record_Handler Response_Format
begin

text \<open>
  The broker of \<open>src/src/broker/broker.cpp\<close>: one dispatch over the request types to the metadata
  handler, the record handler of the reactor and the shared group coordinator. An exception thrown
  inside a handler is an error value.
\<close>

section \<open>Dispatch\<close>

record broker_state =
  bk_store :: log_store
  bk_coordinator :: GroupCoordinator

text \<open>What a request meets in its environment: the steady clock and the operating system.\<close>

record broker_env =
  env_now :: int
  env_clock :: "nat \<Rightarrow> int"
  env_os :: request_answers

definition with_coordinator ::
    "('r \<Rightarrow> Response) \<Rightarrow> GroupCoordinator \<times> 'r \<Rightarrow> broker_state \<Rightarrow> Response expected \<times> broker_state" where
  "with_coordinator f cr s = (Inr (f (snd cr)), s\<lparr>bk_coordinator := fst cr\<rparr>)"

definition with_store ::
    "('r \<Rightarrow> Response) \<Rightarrow> 'r expected \<times> log_store \<Rightarrow> broker_state \<Rightarrow> Response expected \<times> broker_state" where
  "with_store f rs s = (map_sum id f (fst rs), s\<lparr>bk_store := snd rs\<rparr>)"

fun handle :: "RecordHandler \<Rightarrow> broker_env \<Rightarrow> Request \<Rightarrow> broker_state \<Rightarrow> Response expected \<times> broker_state" where
  "handle h e (ApiVersions r) s = (Inr (ApiVersionsR (handle_api_versions r)), s)"
| "handle h e (FindCoordinator r) s = (Inr (FindCoordinatorR (handle_find_coordinator r)), s)"
| "handle h e (OffsetCommit r) s =
     with_coordinator OffsetCommitR (handle_offset_commit r (bk_coordinator s)) s"
| "handle h e (OffsetFetch r) s =
     with_coordinator OffsetFetchR (handle_offset_fetch r (bk_coordinator s)) s"
| "handle h e (JoinGroup r) s =
     with_coordinator JoinGroupR (handle_join_group (env_now e) r (bk_coordinator s)) s"
| "handle h e (Heartbeat r) s =
     with_coordinator HeartbeatR (handle_heartbeat (env_now e) r (bk_coordinator s)) s"
| "handle h e (LeaveGroup r) s =
     with_coordinator LeaveGroupR (handle_leave_group r (bk_coordinator s)) s"
| "handle h e (SyncGroup r) s =
     with_coordinator SyncGroupR (handle_sync_group (env_clock e) r (bk_coordinator s)) s"
| "handle h e (Metadata r) s = (Inr (MetadataR (handle_metadata (rh_metadata h) r)), s)"
| "handle h e (ListOffsets r) s = with_store ListOffsetsR (handle_list_offsets h r (bk_store s)) s"
| "handle h e (DescribeTopicPartitions r) s =
     (Inr (DescribeTopicPartitionsR (handle_describe_topic_partitions (rh_metadata h) r)), s)"
| "handle h e (Produce r) s = with_store ProduceR (handle_produce h (env_os e) r (bk_store s)) s"
| "handle h e (Fetch r) s = with_store FetchR (handle_fetch h (env_os e) r (bk_store s)) s"

section \<open>Every answer belongs to its request\<close>

text \<open>The interface key a response type belongs to.\<close>

fun response_key :: "Response \<Rightarrow> int16_t" where
  "response_key (ApiVersionsR _) = 18"
| "response_key (DescribeTopicPartitionsR _) = 75"
| "response_key (FetchR _) = 1"
| "response_key (FindCoordinatorR _) = 10"
| "response_key (HeartbeatR _) = 12"
| "response_key (JoinGroupR _) = 11"
| "response_key (LeaveGroupR _) = 13"
| "response_key (ListOffsetsR _) = 2"
| "response_key (MetadataR _) = 3"
| "response_key (OffsetCommitR _) = 8"
| "response_key (OffsetFetchR _) = 9"
| "response_key (ProduceR _) = 0"
| "response_key (SyncGroupR _) = 14"

definition answers_kind :: "Request \<Rightarrow> Response \<Rightarrow> bool" where
  "answers_kind req resp \<longleftrightarrow> response_key resp = request_key req"

lemma coordinator_correlation [simp]:
  "ocr_correlation_id (snd (handle_offset_commit r1 c)) = correlation_id (oc_header r1)"
  "ofr_correlation_id (snd (handle_offset_fetch r2 c)) = correlation_id (of_header r2)"
  "jgr_correlation_id (snd (handle_join_group now r3 c)) = correlation_id (jg_header r3)"
  "hbr_correlation_id (snd (handle_heartbeat now r4 c)) = correlation_id (hb_header r4)"
  "lgr_correlation_id (snd (handle_leave_group r5 c)) = correlation_id (lg_header r5)"
  "sgr_correlation_id (snd (handle_sync_group clock r6 c)) = correlation_id (sg_header r6)"
  by (simp_all add: handle_offset_commit_def handle_offset_fetch_def handle_join_group_def
      handle_heartbeat_def handle_leave_group_def handle_sync_group_def sync_response_def Let_def
      split: option.splits prod.splits)

lemma record_correlation:
  "fst (handle_produce h an r1 s) = Inr x \<Longrightarrow> pr_correlation_id x = correlation_id (produce_header r1)"
  "fst (handle_list_offsets h r2 s) = Inr y \<Longrightarrow> lor_correlation_id y = correlation_id (lo_header r2)"
  "fst (handle_fetch h an r3 s) = Inr z \<Longrightarrow> fr_correlation_id z = correlation_id (fetch_header r3)"
  by (auto simp: handle_produce_def handle_list_offsets_def handle_fetch_def case_prod_beta
      map_sum_def split: sum.splits)

lemma handle_answers:
  assumes "handle h e req s = (Inr resp, s')"
  shows "answers_kind req resp \<and> response_correlation_id resp = correlation_id (request_header req)"
  using assms
  by (cases req)
    (auto simp: answers_kind_def with_coordinator_def with_store_def handle_api_versions_def
      handle_find_coordinator_def
      handle_metadata_def handle_describe_topic_partitions_def map_sum_def
      dest: record_correlation split: sum.splits)

text \<open>Only Fetch can end in an exception.\<close>

lemma handle_total:
  assumes "\<nexists>r. req = Fetch r"
  shows "\<exists>resp s'. handle h e req s = (Inr resp, s')"
proof (cases req)
  case (Produce r)
  with produce_answers [of h "env_os e" r "bk_store s"] show ?thesis by (auto simp: with_store_def)
next
  case (ListOffsets r)
  with list_offsets_answers [of h r "bk_store s"] show ?thesis by (auto simp: with_store_def)
qed (use assms in \<open>simp_all add: with_coordinator_def\<close>)

lemma handle_errors:
  assumes "handle h e req s = (Inl err, s')"
  shows "(\<exists>r. req = Fetch r) \<and> err \<in> fetch_exceptions"
proof -
  have "\<exists>r. req = Fetch r" using assms handle_total [of req h e s] by fastforce
  then obtain r where r: "req = Fetch r" by blast
  then have "fst (handle_fetch h (env_os e) r (bk_store s)) = Inl err"
    using assms by (auto simp: with_store_def map_sum_def split: sum.splits)
  with r fetch_errors show ?thesis by blast
qed

section \<open>Every answer can be serialized\<close>

definition request_ids_ok :: "Request \<Rightarrow> bool" where
  "request_ids_ok req \<longleftrightarrow>
     (case req of Fetch r \<Rightarrow> list_all (\<lambda>t. length (ft_topic_id t) = 16) (fetch_topics r) | _ \<Rightarrow> True)"

lemma fetch_topic_ids:
  assumes "fst (each (fetch_topic_step h an) k ts s) = Inr rs"
  shows "map ftr_topic_id rs = map ft_topic_id ts"
  using assms
proof (induction ts arbitrary: k s rs)
  case (Cons t ts)
  have "ftr_topic_id y = ft_topic_id t" if "fst (fetch_topic_step h an k t s) = Inr y" for y k s
    using that by (auto simp: fetch_topic_step_def case_prod_beta map_sum_def
        split: option.splits sum.splits)
  with Cons show ?case
    by (auto split: sum.splits prod.splits) (metis fst_conv)+
qed simp

lemma handle_ids:
  assumes "handle h e req s = (Inr resp, s')" and "request_ids_ok req"
    and "metadata_ok (rh_metadata h)" and "ids_sized (rh_metadata h)"
  shows "uuids_ok resp"
proof (cases req)
  case (Fetch r)
  then obtain x where x: "resp = FetchR x" "fst (handle_fetch h (env_os e) r (bk_store s)) = Inr x"
    using assms(1) by (auto simp: with_store_def map_sum_def split: sum.splits)
  then have "map ftr_topic_id (fr_responses x) = map ft_topic_id (fetch_topics r)"
    by (auto simp: handle_fetch_def case_prod_beta map_sum_def dest: fetch_topic_ids split: sum.splits)
  then have "length ` set (map ftr_topic_id (fr_responses x)) = length ` set (map ft_topic_id (fetch_topics r))"
    by simp
  with assms(2) Fetch x show ?thesis
    by (auto simp: request_ids_ok_def list_all_iff)
next
  case (Metadata r)
  with assms show ?thesis
    by (auto simp: handle_metadata_def metadata_topic_response_def list_all_iff build_topic_metadata_id)
next
  case (DescribeTopicPartitions r)
  with assms show ?thesis
    by (auto simp: handle_describe_topic_partitions_def list_all_iff build_topic_metadata_id)
qed (use assms in \<open>auto simp: with_coordinator_def with_store_def map_sum_def split: sum.splits\<close>)

end
