(* ===== verification/Pipeline.thy ===== *)
theory Pipeline
  imports Broker Parser
begin

text \<open>
  From the bytes of a request to the bytes of its answer: what \<open>Reactor::handle_read\<close>
  (\<open>src/src/net/reactor.cpp\<close>) does with a complete request that the reactor answers itself,
  \<open>parse_request\<close>, \<open>Broker::handle\<close>, \<open>serialize\<close>. What the parser promises about
  the requests it returns is what the broker and the serializer need to produce a frame.
\<close>

section \<open>What a parser returns\<close>

definition returns :: "('a \<Rightarrow> bool) \<Rightarrow> 'a reading \<Rightarrow> bool" where
  "returns P p \<longleftrightarrow> (\<forall>r x r'. p r = Inr (x, r') \<longrightarrow> P x)"

named_theorems returns_intros \<open>what a parser returns\<close>

lemma returns_any: "returns (\<lambda>_. True) p"
  by (simp add: returns_def)

lemma returns_rreturn: "P x \<Longrightarrow> returns P (rreturn x)"
  by (simp add: returns_def rreturn_def)

lemma returns_rfail: "returns P (rfail e)"
  by (simp add: returns_def rfail_def)

lemma returns_rbind:
  "returns Q p \<Longrightarrow> (\<And>x. Q x \<Longrightarrow> returns P (f x)) \<Longrightarrow> returns P (rbind p f)"
  unfolding returns_def rbind_eq_Inr by blast

lemma returns_rbind_any: "(\<And>x. returns P (f x)) \<Longrightarrow> returns P (rbind p f)"
  by (rule returns_rbind [OF returns_any])

lemma returns_if: "returns P p \<Longrightarrow> returns P q \<Longrightarrow> returns P (if c then p else q)"
  by simp

lemmas returns_steps = returns_if returns_rfail returns_rbind_any returns_rreturn

lemma returns_read_times: "returns P p \<Longrightarrow> returns (list_all P) (read_times n p)"
proof (induction n)
  case (Suc n)
  then show ?case
    unfolding read_times.simps
    by (intro returns_rbind [of P p] returns_rbind [of "list_all P" "read_times n p"])
      (simp_all add: returns_rreturn)
qed (simp add: returns_rreturn)

lemma returns_compact_array: "returns P p \<Longrightarrow> returns (list_all P) (read_compact_array p)"
  unfolding read_compact_array_def by (intro returns_rbind_any returns_read_times)

lemma returns_read_bytes: "returns (\<lambda>bs. length bs = n) (read_bytes n)"
  by (auto simp: returns_def read_bytes_def remaining_eq split: if_splits)

lemma returns_fetch_topic: "returns (\<lambda>t. length (ft_topic_id t) = 16) parse_fetch_topic"
  unfolding parse_fetch_topic_def
  by (rule returns_rbind [OF returns_read_bytes]) (intro returns_steps, simp)

section \<open>What the request parser promises\<close>

definition request_tagged :: "RequestHeader \<Rightarrow> Request \<Rightarrow> bool" where
  "request_tagged hdr req \<longleftrightarrow>
     request_header req = hdr \<and> request_key req = api_key hdr \<and> request_ids_ok req"

lemma returns_parse_fetch:
  assumes "api_key hdr = 1"
  shows "returns (request_tagged hdr) (parse_fetch hdr)"
proof -
  have "list_all (\<lambda>t. length (ft_topic_id t) = 16) ts"
    if "read_compact_array parse_fetch_topic r = Inr (ts, r')" for r ts r'
    using that returns_compact_array [OF returns_fetch_topic] by (auto simp: returns_def)
  then show ?thesis
    using assms by (auto simp: returns_def parse_fetch_def rbind_eq_Inr rreturn_def
        request_tagged_def request_ids_ok_def)
qed

lemma returns_parse_body: "returns (request_tagged hdr) (parse_body hdr)"
proof (cases "api_key hdr = 1")
  case True
  then show ?thesis by (simp add: parse_body_def returns_parse_fetch)
next
  case False
  then show ?thesis
    unfolding parse_body_def Let_def parse_case_defs
    by (auto simp: request_tagged_def request_ids_ok_def intro!: returns_steps)
qed

text \<open>The first eight bytes of a request, as the parser reads them.\<close>

definition buffer_header :: "bytes \<Rightarrow> RequestHeader" where
  "buffer_header buf =
     \<lparr>api_key = decode_int16_be (take 2 buf), api_version = decode_int16_be (take 2 (drop 2 buf)),
      correlation_id = decode_int32_be (take 4 (drop 4 buf))\<rparr>"

lemma request_parser_header:
  "8 \<le> length buf \<Longrightarrow>
   request_parser (ByteReader buf) = parse_body (buffer_header buf) (advance 8 (ByteReader buf))"
  by (auto simp: request_parser_def rbind_def read_int16_def read_int32_def remaining_eq buffer_header_def)

lemma parse_request_tagged:
  assumes "parse_request buf = Inr req"
  shows "request_tagged (buffer_header buf) req"
proof -
  have "\<exists>r r'. parse_body (buffer_header buf) r = Inr (req, r')"
    using assms
    by (auto simp: parse_request_def request_parser_def rbind_eq_Inr read_int16_def read_int32_def
        buffer_header_def split: sum.splits if_splits) blast
  then show ?thesis using returns_parse_body by (auto simp: returns_def)
qed

section \<open>From request bytes to response bytes\<close>

lemma request_answered:
  assumes "parse_request buf = Inr req" and "handle h e req s = (Inr resp, s')"
    and "rh_metadata h = parse_cluster_metadata_file log" and "describe_fits resp"
  shows "serialize resp = Some (response_frame resp) \<and>
    response_correlation_id resp = correlation_id (buffer_header buf) \<and>
    response_key resp = api_key (buffer_header buf)"
proof -
  have tagged: "request_tagged (buffer_header buf) req" using assms(1) by (rule parse_request_tagged)
  have "metadata_ok (rh_metadata h)" "ids_sized (rh_metadata h)"
    unfolding assms(3) by (rule metadata_ok_file, rule ids_sized_file)
  with assms(2) tagged have "uuids_ok resp"
    by (intro handle_ids [of h e req s resp s']) (simp_all add: request_tagged_def)
  with assms(4) have "serialize resp = Some (response_frame resp)" by (intro serialize_response_frame)
  with handle_answers [OF assms(2)] tagged show ?thesis
    by (simp add: request_tagged_def answers_kind_def)
qed

end
