(* ===== verification/Shard.thy ===== *)
theory Shard
  imports Interfaces Protocol
begin

text \<open>
  The sharding layer of \<open>src/src/shard/\<close>: the router that assigns a partition to a reactor, and
  the pair of queues through which reactors hand requests and responses to each other.
  \<open>std::hash\<close> is a parameter. Each queue operation holds the mutex of its queue, so it is one
  atomic function; the interleaving of producers and consumers is an arbitrary sequence of
  operations.
\<close>

section \<open>The router\<close>

record ShardRouter =
  sr_reactor_count :: uint64_t

definition route_hash :: "uint64_t \<Rightarrow> int32_t \<Rightarrow> uint64_t" where
  "route_hash h part =
     h XOR (scast part + 0x9e3779b9 + push_bit 6 h + drop_bit 2 h)"

text \<open>The remainder by zero, which the language does not define, is \<open>None\<close>.\<close>

definition route :: "(string \<Rightarrow> uint64_t) \<Rightarrow> ShardRouter \<Rightarrow> string \<Rightarrow> int32_t \<Rightarrow> uint64_t option" where
  "route hash s topic_name part =
     (if sr_reactor_count s = 0 then None
      else Some (route_hash (hash topic_name) part mod sr_reactor_count s))"

text \<open>Routing is total and in range: with at least one reactor, every partition is routed to a
  reactor that exists, whatever the hash function of the library returns.\<close>

lemma route_in_range:
  assumes "0 < sr_reactor_count s"
  shows "\<exists>i. route hash s topic part = Some i \<and> i < sr_reactor_count s"
  using assms by (auto simp: route_def word_less_nat_alt unat_mod word_neq_0_conv)

section \<open>The queues\<close>

record ForwardedRequest =
  fq_client_fd :: int32_t
  fq_source_reactor_id :: uint64_t
  fq_request :: Request

record ForwardedResponse =
  fs_client_fd :: int32_t
  fs_data :: bytes
  fs_splice_fd :: int32_t
  fs_splice_len :: uint32_t

text \<open>\<open>cq_signals\<close> counts the writes of \<open>wake\<close> to the event descriptor.\<close>

record CrossReactorQueues =
  cq_requests :: "ForwardedRequest list"
  cq_responses :: "ForwardedResponse list"
  cq_wakeup_fd :: int32_t
  cq_signals :: nat

definition new_queues :: CrossReactorQueues where
  "new_queues = \<lparr>cq_requests = [], cq_responses = [], cq_wakeup_fd = - 1, cq_signals = 0\<rparr>"

definition set_wakeup_fd :: "int32_t \<Rightarrow> CrossReactorQueues \<Rightarrow> CrossReactorQueues" where
  "set_wakeup_fd fd q = q\<lparr>cq_wakeup_fd := fd\<rparr>"

definition wake :: "CrossReactorQueues \<Rightarrow> CrossReactorQueues" where
  "wake q = (if 0 \<le>s cq_wakeup_fd q then q\<lparr>cq_signals := cq_signals q + 1\<rparr> else q)"

definition push_request :: "ForwardedRequest \<Rightarrow> CrossReactorQueues \<Rightarrow> CrossReactorQueues" where
  "push_request req q = wake (q\<lparr>cq_requests := cq_requests q @ [req]\<rparr>)"

definition try_pop_request :: "CrossReactorQueues \<Rightarrow> (ForwardedRequest \<times> CrossReactorQueues) option" where
  "try_pop_request q =
     (case cq_requests q of [] \<Rightarrow> None | x # xs \<Rightarrow> Some (x, q\<lparr>cq_requests := xs\<rparr>))"

definition push_response :: "ForwardedResponse \<Rightarrow> CrossReactorQueues \<Rightarrow> CrossReactorQueues" where
  "push_response resp q = wake (q\<lparr>cq_responses := cq_responses q @ [resp]\<rparr>)"

definition try_pop_response :: "CrossReactorQueues \<Rightarrow> (ForwardedResponse \<times> CrossReactorQueues) option" where
  "try_pop_response q =
     (case cq_responses q of [] \<Rightarrow> None | x # xs \<Rightarrow> Some (x, q\<lparr>cq_responses := xs\<rparr>))"

lemma wake_fields [simp]:
  "cq_requests (wake q) = cq_requests q" "cq_responses (wake q) = cq_responses q"
  "cq_wakeup_fd (wake q) = cq_wakeup_fd q"
  by (simp_all add: wake_def)

interpretation requests: fifo push_request try_pop_request cq_requests
  by unfold_locales (auto simp: push_request_def try_pop_request_def split: list.splits)

interpretation responses: fifo push_response try_pop_response cq_responses
  by unfold_locales (auto simp: push_response_def try_pop_response_def split: list.splits)

text \<open>An operation on the queues by some thread, and a sequence of them with what was popped.\<close>

datatype queue_op =
    PushRequest ForwardedRequest
  | PopRequest
  | PushResponse ForwardedResponse
  | PopResponse

fun queue_step ::
    "queue_op \<Rightarrow> CrossReactorQueues \<Rightarrow> ForwardedRequest list \<times> ForwardedResponse list \<times> CrossReactorQueues" where
  "queue_step (PushRequest r) q = ([], [], push_request r q)"
| "queue_step (PushResponse r) q = ([], [], push_response r q)"
| "queue_step PopRequest q =
     (case try_pop_request q of None \<Rightarrow> ([], [], q) | Some (r, q') \<Rightarrow> ([r], [], q'))"
| "queue_step PopResponse q =
     (case try_pop_response q of None \<Rightarrow> ([], [], q) | Some (r, q') \<Rightarrow> ([], [r], q'))"

fun queue_run ::
    "queue_op list \<Rightarrow> CrossReactorQueues \<Rightarrow> ForwardedRequest list \<times> ForwardedResponse list \<times> CrossReactorQueues" where
  "queue_run [] q = ([], [], q)"
| "queue_run (op # ops) q =
     (let (a, b, q1) = queue_step op q; (as, bs, q2) = queue_run ops q1 in (a @ as, b @ bs, q2))"

fun pushed_requests :: "queue_op list \<Rightarrow> ForwardedRequest list" where
  "pushed_requests [] = []"
| "pushed_requests (PushRequest r # ops) = r # pushed_requests ops"
| "pushed_requests (_ # ops) = pushed_requests ops"

fun pushed_responses :: "queue_op list \<Rightarrow> ForwardedResponse list" where
  "pushed_responses [] = []"
| "pushed_responses (PushResponse r # ops) = r # pushed_responses ops"
| "pushed_responses (_ # ops) = pushed_responses ops"

lemma pop_other_queue:
  "try_pop_request q = Some (r, q') \<Longrightarrow> cq_responses q' = cq_responses q"
  "try_pop_response q = Some (s, q') \<Longrightarrow> cq_requests q' = cq_requests q"
  by (auto simp: try_pop_request_def try_pop_response_def split: list.splits)

lemma push_other_queue [simp]:
  "cq_responses (push_request r q) = cq_responses q"
  "cq_requests (push_response s q) = cq_requests q"
  by (simp_all add: push_request_def push_response_def)

lemma queue_step_order:
  "queue_step op q = (a, b, q') \<Longrightarrow>
   a @ cq_requests q' = cq_requests q @ pushed_requests [op] \<and>
   b @ cq_responses q' = cq_responses q @ pushed_responses [op]"
  by (cases op)
    (auto simp: requests.push_held responses.push_held pop_other_queue
      dest: requests.pop_some responses.pop_some split: option.splits)

lemma pushed_Cons:
  "pushed_requests (op # ops) = pushed_requests [op] @ pushed_requests ops"
  "pushed_responses (op # ops) = pushed_responses [op] @ pushed_responses ops"
  by (cases op; simp)+

text \<open>C31: The queues between reactors lose, duplicate and reorder nothing. Under every interleaving
  of the producers and consumers of both queues, what was popped followed by what is still inside
  is what was inside followed by what was pushed.\<close>

theorem queue_run_order:
  assumes "queue_run ops q = (as, bs, q')"
  shows "as @ cq_requests q' = cq_requests q @ pushed_requests ops \<and>
   bs @ cq_responses q' = cq_responses q @ pushed_responses ops"
  using assms
proof (induction ops arbitrary: q as bs q')
  case (Cons op ops)
  obtain a b q1 where s: "queue_step op q = (a, b, q1)" by (cases "queue_step op q") auto
  obtain as' bs' q2 where r: "queue_run ops q1 = (as', bs', q2)" by (cases "queue_run ops q1") auto
  have eqs: "as = a @ as'" "bs = b @ bs'" "q' = q2" using Cons.prems s r by simp_all
  have "a @ as' @ cq_requests q2 = (a @ cq_requests q1) @ pushed_requests ops"
    "b @ bs' @ cq_responses q2 = (b @ cq_responses q1) @ pushed_responses ops"
    using Cons.IH [OF r] by simp_all
  then show ?case
    unfolding eqs using queue_step_order [OF s] by (simp add: pushed_Cons [of op ops])
qed simp

theorem queue_run_order_witness:
  "\<exists>q'. queue_run [PopRequest, PushResponse \<lparr>fs_client_fd = 5, fs_data = [1], fs_splice_fd = - 1, fs_splice_len = 0\<rparr>,
       PopResponse] new_queues =
     ([], [\<lparr>fs_client_fd = 5, fs_data = [1], fs_splice_fd = - 1, fs_splice_len = 0\<rparr>], q') \<and> cq_responses q' = []"
proof -
  let ?r = "\<lparr>fs_client_fd = 5, fs_data = [1], fs_splice_fd = - 1, fs_splice_len = 0\<rparr>"
  obtain as q' where r: "queue_run [PopRequest, PushResponse ?r, PopResponse] new_queues = (as, [?r], q')"
    by (simp add: new_queues_def try_pop_request_def push_response_def try_pop_response_def wake_def word_sle_eq)
  from queue_run_order [OF r] r show ?thesis by (simp add: new_queues_def)
qed

text \<open>Every push is signalled once the event descriptor is set.\<close>

lemma push_signals:
  "0 \<le>s cq_wakeup_fd q \<Longrightarrow> cq_signals (push_request r q) = cq_signals q + 1"
  "0 \<le>s cq_wakeup_fd q \<Longrightarrow> cq_signals (push_response s q) = cq_signals q + 1"
  by (simp_all add: push_request_def push_response_def wake_def)

end
