(* ===== verification/Reactor.thy ===== *)
theory Reactor
  imports Socket Pipeline Shard
begin

text \<open>
  The worker reactor of \<open>src/src/net/reactor.cpp\<close>: the connections with their read and write
  buffers, the framing of requests, forwarding to the reactor that owns a partition, the queues
  between reactors, and one round of the event loop.

  What the reactor shares with its surroundings is part of its state here: the kernel's sockets and
  epoll registrations, the queues of all reactors, and the broker with the coordinator. Everything
  the kernel decides is an argument, one set of answers per event. \<open>Connection::resp_pool\<close> is
  overwritten before every use and moved out afterwards, so it is not part of the model; the log
  lines are not either. An exception that leaves a handler, and an access outside a vector, are
  error values.
\<close>

section \<open>State\<close>

record BrokerMetrics =
  requests_total :: uint64_t
  bytes_received :: uint64_t
  bytes_sent :: uint64_t
  errors_total :: uint64_t

definition new_metrics :: BrokerMetrics where
  "new_metrics = \<lparr>requests_total = 0, bytes_received = 0, bytes_sent = 0, errors_total = 0\<rparr>"

record Connection =
  cn_read_buf :: bytes
  cn_expected_len :: size_t
  cn_have_header :: bool
  cn_write_buf :: bytes
  cn_write_offset :: size_t
  cn_write_queue :: "bytes list"
  cn_splice_fd :: int32_t
  cn_splice_len :: uint32_t
  cn_splice_pending :: bool

definition new_connection :: Connection where
  "new_connection = \<lparr>cn_read_buf = [], cn_expected_len = 0, cn_have_header = False,
     cn_write_buf = [], cn_write_offset = 0, cn_write_queue = [], cn_splice_fd = - 1,
     cn_splice_len = 0, cn_splice_pending = False\<rparr>"

text \<open>The kernel: open sockets, what epoll watches each descriptor for, and the splices submitted
  to the ring as source, destination and length.\<close>

datatype interest = EpollIn | EpollInOut

record kernel =
  kn_socks :: "int32_t \<rightharpoonup> sock"
  kn_interest :: "int32_t \<rightharpoonup> interest"
  kn_splices :: "(int32_t \<times> int32_t \<times> uint32_t) list"

text \<open>The members that never change after construction, and those that do.\<close>

record ReactorConfig =
  rc_reactor_id :: size_t
  rc_hash :: "string \<Rightarrow> uint64_t"
  rc_router :: ShardRouter
  rc_handler :: RecordHandler
  rc_max_message_bytes :: uint32_t
  rc_max_write_buffer_bytes :: size_t
  rc_server_fd :: int32_t
  rc_wakeup_fd :: int32_t

record WorkerReactor =
  wr_connections :: "int32_t \<rightharpoonup> Connection"
  wr_broker :: broker_state
  wr_queues :: "CrossReactorQueues list"
  wr_metrics :: BrokerMetrics
  wr_kernel :: kernel

text \<open>\<open>connections_[fd]\<close> creates the connection when it is missing.\<close>

definition conn_at :: "WorkerReactor \<Rightarrow> int32_t \<Rightarrow> Connection" where
  "conn_at r fd = (case wr_connections r fd of Some c \<Rightarrow> c | None \<Rightarrow> new_connection)"

definition put_conn :: "int32_t \<Rightarrow> Connection \<Rightarrow> WorkerReactor \<Rightarrow> WorkerReactor" where
  "put_conn fd c r = r\<lparr>wr_connections := (wr_connections r)(fd \<mapsto> c)\<rparr>"

definition add_error :: "WorkerReactor \<Rightarrow> WorkerReactor" where
  "add_error r = r\<lparr>wr_metrics := (wr_metrics r)\<lparr>errors_total := errors_total (wr_metrics r) + 1\<rparr>\<rparr>"

definition add_sent :: "nat \<Rightarrow> WorkerReactor \<Rightarrow> WorkerReactor" where
  "add_sent n r =
     r\<lparr>wr_metrics := (wr_metrics r)\<lparr>bytes_sent := bytes_sent (wr_metrics r) + word_of_nat n\<rparr>\<rparr>"

definition add_request :: "nat \<Rightarrow> WorkerReactor \<Rightarrow> WorkerReactor" where
  "add_request n r =
     r\<lparr>wr_metrics := (wr_metrics r)\<lparr>requests_total := requests_total (wr_metrics r) + 1,
        bytes_received := bytes_received (wr_metrics r) + word_of_nat n\<rparr>\<rparr>"

section \<open>System calls\<close>

text \<open>\<open>recv_all\<close> and \<open>send_all\<close> on a descriptor; one that is not open gives \<open>EBADF\<close>, but an
  empty range is sent without a call.\<close>

definition recv_fd :: "io_answers \<Rightarrow> int32_t \<Rightarrow> nat \<Rightarrow> kernel \<Rightarrow> bytes io_result \<times> kernel" where
  "recv_fd an fd n k =
     (case kn_socks k fd of
        None \<Rightarrow> (Inl 9, k)
      | Some sk \<Rightarrow> (let (res, sk') = recv_all an n sk
                   in (res, k\<lparr>kn_socks := (kn_socks k)(fd \<mapsto> sk')\<rparr>)))"

definition send_fd :: "io_answers \<Rightarrow> int32_t \<Rightarrow> bytes \<Rightarrow> kernel \<Rightarrow> nat io_result \<times> kernel" where
  "send_fd an fd data k =
     (case kn_socks k fd of
        None \<Rightarrow> (if data = [] then Inr 0 else Inl 9, k)
      | Some sk \<Rightarrow> (let (res, sk') = send_all an data sk
                   in (res, k\<lparr>kn_socks := (kn_socks k)(fd \<mapsto> sk')\<rparr>)))"

text \<open>\<open>EPOLL_CTL_MOD\<close> succeeds for a registered descriptor only.\<close>

definition epoll_mod :: "int32_t \<Rightarrow> interest \<Rightarrow> kernel \<Rightarrow> kernel" where
  "epoll_mod fd i k =
     (case kn_interest k fd of None \<Rightarrow> k | Some _ \<Rightarrow> k\<lparr>kn_interest := (kn_interest k)(fd \<mapsto> i)\<rparr>)"

definition kernel_close :: "int32_t \<Rightarrow> kernel \<Rightarrow> kernel" where
  "kernel_close fd k =
     k\<lparr>kn_socks := (kn_socks k)(fd := None), kn_interest := (kn_interest k)(fd := None)\<rparr>"

definition set_interest :: "int32_t \<Rightarrow> interest \<Rightarrow> WorkerReactor \<Rightarrow> WorkerReactor" where
  "set_interest fd i r = r\<lparr>wr_kernel := epoll_mod fd i (wr_kernel r)\<rparr>"

section \<open>Closing and accepting\<close>

definition close_connection :: "int32_t \<Rightarrow> WorkerReactor \<Rightarrow> WorkerReactor" where
  "close_connection fd r =
     r\<lparr>wr_kernel := kernel_close fd (wr_kernel r), wr_connections := (wr_connections r)(fd := None)\<rparr>"

record accept_answer =
  ac_fd :: int32_t
  ac_sock :: sock
  ac_flags_ok :: bool
  ac_epoll_ok :: bool

definition handle_accept :: "accept_answer \<Rightarrow> WorkerReactor \<Rightarrow> WorkerReactor" where
  "handle_accept a r =
     (if ac_fd a <s 0 \<or> \<not> ac_flags_ok a \<or> \<not> ac_epoll_ok a then r
      else r\<lparr>wr_kernel := (wr_kernel r)
               \<lparr>kn_socks := (kn_socks (wr_kernel r))(ac_fd a \<mapsto> ac_sock a),
                kn_interest := (kn_interest (wr_kernel r))(ac_fd a \<mapsto> EpollIn)\<rparr>,
             wr_connections := (wr_connections r)(ac_fd a \<mapsto> new_connection)\<rparr>)"

section \<open>Partition keys\<close>

record PartitionKey =
  pk_topic :: string
  pk_partition :: int32_t

definition lookup_topic_name :: "ClusterMetadata \<Rightarrow> uuid \<Rightarrow> string option" where
  "lookup_topic_name meta u = map_option (\<lambda>i. ti_name (cm_topics meta ! i)) (cm_uuid_to_topic meta u)"

fun extract_partition_key :: "Request \<Rightarrow> ClusterMetadata \<Rightarrow> PartitionKey option" where
  "extract_partition_key (Produce r) meta =
     (case produce_topics r of
        [] \<Rightarrow> None
      | t # _ \<Rightarrow> (case pt_partitions t of
          [] \<Rightarrow> None
        | p # _ \<Rightarrow> Some \<lparr>pk_topic = pt_topic_name t, pk_partition = pp_partition_index p\<rparr>))"
| "extract_partition_key (Fetch r) meta =
     (case fetch_topics r of
        [] \<Rightarrow> None
      | t # _ \<Rightarrow> (case ft_partitions t of
          [] \<Rightarrow> None
        | p # _ \<Rightarrow> map_option (\<lambda>name. \<lparr>pk_topic = name, pk_partition = fp_partition_index p\<rparr>)
                      (lookup_topic_name meta (ft_topic_id t))))"
| "extract_partition_key (ListOffsets r) meta =
     (case lo_topics r of
        [] \<Rightarrow> None
      | t # _ \<Rightarrow> (case lot_partitions t of
          [] \<Rightarrow> None
        | p # _ \<Rightarrow> Some \<lparr>pk_topic = lot_topic_name t, pk_partition = lop_partition_index p\<rparr>))"
| "extract_partition_key _ meta = None"

text \<open>The last partition of a fetch response that asks for a splice.\<close>

definition last_splice :: "Response \<Rightarrow> (int32_t \<times> uint32_t) option" where
  "last_splice resp =
     (case resp of
        FetchR fr \<Rightarrow>
          fold (\<lambda>tr. fold (\<lambda>pr acc.
                  if 0 \<le>s fpr_splice_fd pr
                  then Some (fpr_splice_fd pr, word_of_nat (fpr_splice_len pr)) else acc)
                (ftr_partitions tr)) (fr_responses fr) None
      | _ \<Rightarrow> None)"

definition set_splice :: "(int32_t \<times> uint32_t) option \<Rightarrow> Connection \<Rightarrow> Connection" where
  "set_splice sp c =
     (case sp of None \<Rightarrow> c | Some (fd, n) \<Rightarrow> c\<lparr>cn_splice_fd := fd, cn_splice_len := n\<rparr>)"

section \<open>Writing\<close>

definition was_idle :: "Connection \<Rightarrow> bool" where
  "was_idle c \<longleftrightarrow> cn_write_offset c = 0 \<and> cn_write_buf c = []"

definition enqueue :: "bytes \<Rightarrow> Connection \<Rightarrow> Connection" where
  "enqueue data c =
     (if was_idle c then c\<lparr>cn_write_buf := data, cn_write_offset := 0\<rparr>
      else c\<lparr>cn_write_queue := cn_write_queue c @ [data]\<rparr>)"

definition advance_write_queue :: "int32_t \<Rightarrow> WorkerReactor \<Rightarrow> WorkerReactor" where
  "advance_write_queue fd r =
     (let c = conn_at r fd in
      case cn_write_queue c of
        b # bs \<Rightarrow> put_conn fd (c\<lparr>cn_write_buf := b, cn_write_queue := bs, cn_write_offset := 0\<rparr>) r
      | [] \<Rightarrow> set_interest fd EpollIn (put_conn fd (c\<lparr>cn_write_buf := [], cn_write_offset := 0\<rparr>) r))"

definition submit_splice :: "int32_t \<Rightarrow> WorkerReactor \<Rightarrow> WorkerReactor" where
  "submit_splice fd r =
     (let c = conn_at r fd in
      put_conn fd (c\<lparr>cn_splice_pending := True, cn_splice_fd := - 1, cn_splice_len := 0\<rparr>)
        (r\<lparr>wr_kernel := (wr_kernel r)\<lparr>kn_splices := kn_splices (wr_kernel r)
             @ [(cn_splice_fd c, fd, cn_splice_len c)]\<rparr>\<rparr>))"

text \<open>The part of \<open>handle_write\<close> behind a successful send.\<close>

definition finish_write :: "bool \<Rightarrow> int32_t \<Rightarrow> WorkerReactor \<Rightarrow> WorkerReactor" where
  "finish_write sqe fd r =
     (let c = conn_at r fd in
      if length (cn_write_buf c) \<le> cn_write_offset c then
        if 0 \<le>s cn_splice_fd c \<and> \<not> cn_splice_pending c \<and> sqe then submit_splice fd r
        else if \<not> cn_splice_pending c then advance_write_queue fd r
        else r
      else r)"

definition handle_write :: "io_answers \<Rightarrow> bool \<Rightarrow> int32_t \<Rightarrow> WorkerReactor \<Rightarrow> WorkerReactor" where
  "handle_write an sqe fd r =
     (let c = conn_at r fd;
          (res, k) = send_fd an fd (drop (cn_write_offset c) (cn_write_buf c)) (wr_kernel r);
          r1 = put_conn fd c (r\<lparr>wr_kernel := k\<rparr>)
      in case res of
           Inl _ \<Rightarrow> close_connection fd (add_error r1)
         | Inr n \<Rightarrow> finish_write sqe fd
             (add_sent n (put_conn fd (c\<lparr>cn_write_offset := cn_write_offset c + n\<rparr>) r1)))"

section \<open>Reading\<close>

text \<open>Where a part of \<open>handle_read\<close> leaves the function, and where it goes on.\<close>

datatype 'a flow = Return 'a | Continue 'a

fun continue_with :: "WorkerReactor flow \<Rightarrow> (WorkerReactor \<Rightarrow> WorkerReactor flow) \<Rightarrow> WorkerReactor flow" where
  "continue_with (Return r) f = Return r"
| "continue_with (Continue r) f = f r"

text \<open>
  Growing the read buffer to the needed size and receiving into the new part. After an error the
  buffer is cut back to its old size; when nothing was received the connection is closed.
\<close>

definition fill_buffer :: "io_answers \<Rightarrow> int32_t \<Rightarrow> nat \<Rightarrow> WorkerReactor \<Rightarrow> WorkerReactor flow" where
  "fill_buffer an fd needed r =
     (let c = conn_at r fd;
          old = cn_read_buf c;
          (res, k) = recv_fd an fd (needed - length old) (wr_kernel r);
          r1 = r\<lparr>wr_kernel := k\<rparr>
      in case res of
           Inl _ \<Rightarrow> Return (put_conn fd c r1)
         | Inr bs \<Rightarrow>
             (let r2 = put_conn fd (c\<lparr>cn_read_buf := old @ bs\<rparr>) r1 in
              if bs = [] then Return (close_connection fd r2)
              else if length (old @ bs) < needed then Return r2
              else Continue r2))"

definition set_header :: "ReactorConfig \<Rightarrow> int32_t \<Rightarrow> WorkerReactor \<Rightarrow> WorkerReactor flow" where
  "set_header cfg fd r =
     (let c = conn_at r fd;
          len = size_of_signed (decode_int32_be (take 4 (cn_read_buf c)));
          c1 = c\<lparr>cn_expected_len := len\<rparr>
      in if unat (rc_max_message_bytes cfg) < len
         then Return (close_connection fd (add_error (put_conn fd c1 r)))
         else Continue (put_conn fd (c1\<lparr>cn_have_header := True\<rparr>) r))"

definition read_header :: "ReactorConfig \<Rightarrow> io_answers \<Rightarrow> int32_t \<Rightarrow> WorkerReactor \<Rightarrow> WorkerReactor flow" where
  "read_header cfg an fd r =
     (if cn_have_header (conn_at r fd) then Continue r
      else continue_with
        (if length (cn_read_buf (conn_at r fd)) < 4 then fill_buffer an fd 4 r else Continue r)
        (set_header cfg fd))"

definition read_body :: "io_answers \<Rightarrow> int32_t \<Rightarrow> WorkerReactor \<Rightarrow> WorkerReactor flow" where
  "read_body an fd r =
     (let total_needed = 4 + cn_expected_len (conn_at r fd) in
      if length (cn_read_buf (conn_at r fd)) < total_needed then fill_buffer an fd total_needed r
      else Continue r)"

text \<open>The connection is ready for the next request.\<close>

definition reset_read :: "Connection \<Rightarrow> Connection" where
  "reset_read c = c\<lparr>cn_have_header := False, cn_read_buf := []\<rparr>"

definition forward_request :: "int32_t \<Rightarrow> size_t \<Rightarrow> ReactorConfig \<Rightarrow> Request \<Rightarrow> WorkerReactor \<Rightarrow> WorkerReactor expected" where
  "forward_request fd target cfg req r =
     (let c = conn_at r fd;
          fwd = \<lparr>fq_client_fd = fd, fq_source_reactor_id = word_of_nat (rc_reactor_id cfg), fq_request = req\<rparr>;
          qs = wr_queues r
      in if target < length qs
         then Inr (put_conn fd (reset_read c) (add_request (4 + cn_expected_len c)
                (r\<lparr>wr_queues := qs[target := push_request fwd (qs ! target)]\<rparr>)))
         else Inl undefined_behavior)"

definition answer_locally :: "broker_env \<Rightarrow> ReactorConfig \<Rightarrow> int32_t \<Rightarrow> Request \<Rightarrow> WorkerReactor \<Rightarrow> WorkerReactor expected" where
  "answer_locally e cfg fd req r =
     (case handle (rc_handler cfg) e req (wr_broker r) of
        (Inl err, _) \<Rightarrow> Inl err
      | (Inr resp, b) \<Rightarrow>
          (case serialize resp of
             None \<Rightarrow> Inl undefined_behavior
           | Some resp_buf \<Rightarrow>
               (let c = set_splice (last_splice resp) (conn_at r fd);
                    r1 = put_conn fd c (r\<lparr>wr_broker := b\<rparr>)
                in if rc_max_write_buffer_bytes cfg < length resp_buf
                   then Inr (close_connection fd (add_error r1))
                   else
                     (let r2 = put_conn fd (reset_read (enqueue resp_buf c))
                                 (add_request (4 + cn_expected_len c) r1)
                      in Inr (if was_idle c then set_interest fd EpollInOut r2 else r2)))))"

definition process_request :: "broker_env \<Rightarrow> ReactorConfig \<Rightarrow> int32_t \<Rightarrow> WorkerReactor \<Rightarrow> WorkerReactor expected" where
  "process_request e cfg fd r =
     (case parse_request (drop 4 (cn_read_buf (conn_at r fd))) of
        Inl _ \<Rightarrow> Inr (close_connection fd (add_error r))
      | Inr req \<Rightarrow>
          (case extract_partition_key req (rh_metadata (rc_handler cfg)) of
             None \<Rightarrow> answer_locally e cfg fd req r
           | Some key \<Rightarrow>
               (case route (rc_hash cfg) (rc_router cfg) (pk_topic key) (pk_partition key) of
                  None \<Rightarrow> Inl undefined_behavior
                | Some target \<Rightarrow>
                    if unat target \<noteq> rc_reactor_id cfg
                    then forward_request fd (unat target) cfg req r
                    else answer_locally e cfg fd req r)))"

text \<open>The part of \<open>handle_read\<close> that collects a frame, and \<open>handle_read\<close>; the answers are those for
  receiving the header and the body.\<close>

definition read_frame ::
    "(nat \<Rightarrow> io_answers) \<Rightarrow> ReactorConfig \<Rightarrow> int32_t \<Rightarrow> WorkerReactor \<Rightarrow> WorkerReactor flow" where
  "read_frame an cfg fd r =
     continue_with (read_header cfg (an 0) fd (put_conn fd (conn_at r fd) r)) (read_body (an 1) fd)"

definition handle_read ::
    "(nat \<Rightarrow> io_answers) \<Rightarrow> broker_env \<Rightarrow> ReactorConfig \<Rightarrow> int32_t \<Rightarrow> WorkerReactor \<Rightarrow> WorkerReactor expected" where
  "handle_read an e cfg fd r =
     (case read_frame an cfg fd r of
        Return r' \<Rightarrow> Inr r'
      | Continue r' \<Rightarrow> process_request e cfg fd r')"

section \<open>The other reactors\<close>

text \<open>One round of each drain loop: the next message, if there is one.\<close>

definition drain_request :: "broker_env \<Rightarrow> ReactorConfig \<Rightarrow> WorkerReactor \<Rightarrow> (WorkerReactor expected) option" where
  "drain_request e cfg r =
     (case try_pop_request (wr_queues r ! rc_reactor_id cfg) of
        None \<Rightarrow> None
      | Some (fwd, q) \<Rightarrow>
          Some (case handle (rc_handler cfg) e (fq_request fwd) (wr_broker r) of
             (Inl err, _) \<Rightarrow> Inl err
           | (Inr resp, b) \<Rightarrow>
               (case serialize resp of
                  None \<Rightarrow> Inl undefined_behavior
                | Some serialized \<Rightarrow>
                    (let (sfd, slen) = (case last_splice resp of None \<Rightarrow> (- 1, 0) | Some p \<Rightarrow> p);
                         out = \<lparr>fs_client_fd = fq_client_fd fwd, fs_data = serialized,
                                fs_splice_fd = sfd, fs_splice_len = slen\<rparr>;
                         qs = (wr_queues r)[rc_reactor_id cfg := q];
                         src = unat (fq_source_reactor_id fwd)
                     in if src < length qs
                        then Inr (r\<lparr>wr_broker := b, wr_queues := qs[src := push_response out (qs ! src)]\<rparr>)
                        else Inl undefined_behavior))))"

definition deliver_response :: "ForwardedResponse \<Rightarrow> WorkerReactor \<Rightarrow> WorkerReactor" where
  "deliver_response resp r =
     (case wr_connections r (fs_client_fd resp) of
        None \<Rightarrow> r
      | Some conn \<Rightarrow>
          (let fd = fs_client_fd resp;
               c = (if 0 \<le>s fs_splice_fd resp then set_splice (Some (fs_splice_fd resp, fs_splice_len resp)) conn
                    else conn);
               r1 = put_conn fd (enqueue (fs_data resp) c) r
           in if was_idle c then set_interest fd EpollInOut r1 else r1))"

definition drain_response :: "ReactorConfig \<Rightarrow> WorkerReactor \<Rightarrow> WorkerReactor option" where
  "drain_response cfg r =
     (case try_pop_response (wr_queues r ! rc_reactor_id cfg) of
        None \<Rightarrow> None
      | Some (resp, q) \<Rightarrow>
          Some (deliver_response resp (r\<lparr>wr_queues := (wr_queues r)[rc_reactor_id cfg := q]\<rparr>)))"

lemma deliver_response_queues [simp]: "wr_queues (deliver_response resp r) = wr_queues r"
  by (simp add: deliver_response_def put_conn_def set_interest_def Let_def split: option.splits)

lemma drain_request_shrinks:
  assumes "drain_request e cfg r = Some (Inr r')"
  shows "length (cq_requests (wr_queues r' ! rc_reactor_id cfg)) < length (cq_requests (wr_queues r ! rc_reactor_id cfg))
    \<or> \<not> rc_reactor_id cfg < length (wr_queues r)"
proof (cases "rc_reactor_id cfg < length (wr_queues r)")
  case True
  obtain fwd q where pop: "try_pop_request (wr_queues r ! rc_reactor_id cfg) = Some (fwd, q)"
    using assms by (auto simp: drain_request_def split: option.splits)
  with assms obtain src out where "wr_queues r' =
      (wr_queues r)[rc_reactor_id cfg := q, src := push_response out ((wr_queues r)[rc_reactor_id cfg := q] ! src)]"
    by (auto simp: drain_request_def Let_def case_prod_beta split: option.splits sum.splits if_splits)
  with True have "cq_requests (wr_queues r' ! rc_reactor_id cfg) = cq_requests q"
    by (cases "src = rc_reactor_id cfg"; cases "src < length (wr_queues r)") simp_all
  then show ?thesis using requests.pop_some [OF pop] by simp
qed simp

lemma drain_response_shrinks:
  assumes "drain_response cfg r = Some r'" and "rc_reactor_id cfg < length (wr_queues r)"
  shows "length (cq_responses (wr_queues r' ! rc_reactor_id cfg)) < length (cq_responses (wr_queues r ! rc_reactor_id cfg))"
  using assms by (auto simp: drain_response_def dest!: responses.pop_some split: option.splits)

text \<open>
  The loops. They end because every round takes one message off the reactor's own queue and adds
  none to it. A message that another thread pushes meanwhile is one that was there before, or one
  that stays for the next round of the event loop.
\<close>

function drain_requests :: "(nat \<Rightarrow> broker_env) \<Rightarrow> nat \<Rightarrow> ReactorConfig \<Rightarrow> WorkerReactor \<Rightarrow> WorkerReactor expected" where
  "drain_requests e i cfg r =
     (if rc_reactor_id cfg < length (wr_queues r) then
        (case drain_request (e i) cfg r of
           None \<Rightarrow> Inr r
         | Some (Inl err) \<Rightarrow> Inl err
         | Some (Inr r') \<Rightarrow> drain_requests e (Suc i) cfg r')
      else Inl undefined_behavior)"
  by pat_completeness auto
termination
  by (relation "measure (\<lambda>(_, _, cfg, r). length (cq_requests (wr_queues r ! rc_reactor_id cfg)))")
    (auto dest: drain_request_shrinks)

function drain_responses :: "ReactorConfig \<Rightarrow> WorkerReactor \<Rightarrow> WorkerReactor expected" where
  "drain_responses cfg r =
     (if rc_reactor_id cfg < length (wr_queues r) then
        (case drain_response cfg r of None \<Rightarrow> Inr r | Some r' \<Rightarrow> drain_responses cfg r')
      else Inl undefined_behavior)"
  by pat_completeness auto
termination
  by (relation "measure (\<lambda>(cfg, r). length (cq_responses (wr_queues r ! rc_reactor_id cfg)))")
    (auto dest: drain_response_shrinks)

declare drain_requests.simps [simp del] drain_responses.simps [simp del]

section \<open>Completions and events\<close>

text \<open>A completion of the ring: the user data and the result. Zero and odd user data belong to
  file writes; the rest is a descriptor, shifted.\<close>

record completion =
  cqe_user_data :: uint64_t
  cqe_res :: int32_t

definition harvest_one :: "completion \<Rightarrow> WorkerReactor \<Rightarrow> WorkerReactor" where
  "harvest_one cqe r =
     (if cqe_user_data cqe = 0 \<or> cqe_user_data cqe AND 1 \<noteq> 0
      then (if cqe_res cqe <s 0 then add_error r else r)
      else
        (let fd = ucast (drop_bit 1 (cqe_user_data cqe)) in
         case wr_connections r fd of
           None \<Rightarrow> r
         | Some c \<Rightarrow>
             (let r1 = (if cqe_res cqe <s 0 then add_error r else add_sent (size_of_signed (cqe_res cqe)) r)
              in advance_write_queue fd (put_conn fd (c\<lparr>cn_splice_pending := False\<rparr>) r1))))"

definition harvest_io_completions :: "completion list \<Rightarrow> WorkerReactor \<Rightarrow> WorkerReactor" where
  "harvest_io_completions cqes r = fold harvest_one cqes r"

text \<open>What one event of \<open>epoll_wait\<close> carries, with the answers of the system calls it leads to.\<close>

record reactor_event =
  ev_fd :: int32_t
  ev_events :: uint32_t
  ev_accept :: accept_answer
  ev_recv :: "nat \<Rightarrow> io_answers"
  ev_send :: io_answers
  ev_sqe :: bool
  ev_env :: broker_env

definition EPOLLIN :: uint32_t where "EPOLLIN = 0x001"
definition EPOLLOUT :: uint32_t where "EPOLLOUT = 0x004"
definition EPOLLERR :: uint32_t where "EPOLLERR = 0x008"
definition EPOLLHUP :: uint32_t where "EPOLLHUP = 0x010"

text \<open>Reading the event descriptor takes its count.\<close>

definition clear_wakeup :: "ReactorConfig \<Rightarrow> WorkerReactor \<Rightarrow> WorkerReactor" where
  "clear_wakeup cfg r =
     r\<lparr>wr_queues := (wr_queues r)[rc_reactor_id cfg := (wr_queues r ! rc_reactor_id cfg)\<lparr>cq_signals := 0\<rparr>]\<rparr>"

definition dispatch_event :: "ReactorConfig \<Rightarrow> reactor_event \<Rightarrow> WorkerReactor \<Rightarrow> WorkerReactor expected" where
  "dispatch_event cfg ev r =
     (if ev_fd ev = rc_server_fd cfg then Inr (handle_accept (ev_accept ev) r)
      else if ev_fd ev = rc_wakeup_fd cfg then Inr (clear_wakeup cfg r)
      else if ev_events ev AND (EPOLLERR OR EPOLLHUP) \<noteq> 0
      then Inr (close_connection (ev_fd ev) (add_error r))
      else
        (case (if ev_events ev AND EPOLLIN \<noteq> 0
               then handle_read (ev_recv ev) (ev_env ev) cfg (ev_fd ev) r else Inr r) of
           Inl err \<Rightarrow> Inl err
         | Inr r' \<Rightarrow>
             Inr (if ev_events ev AND EPOLLOUT \<noteq> 0
                  then handle_write (ev_send ev) (ev_sqe ev) (ev_fd ev) r' else r')))"

fun dispatch_events :: "ReactorConfig \<Rightarrow> reactor_event list \<Rightarrow> WorkerReactor \<Rightarrow> WorkerReactor expected" where
  "dispatch_events cfg [] r = Inr r"
| "dispatch_events cfg (ev # evs) r =
     (case dispatch_event cfg ev r of Inl err \<Rightarrow> Inl err | Inr r' \<Rightarrow> dispatch_events cfg evs r')"

text \<open>One round of the loop in \<open>run\<close>.\<close>

definition loop_round ::
    "ReactorConfig \<Rightarrow> reactor_event list \<Rightarrow> (nat \<Rightarrow> broker_env) \<Rightarrow> completion list \<Rightarrow> WorkerReactor
      \<Rightarrow> WorkerReactor expected" where
  "loop_round cfg evs e cqes r =
     (case dispatch_events cfg evs r of
        Inl err \<Rightarrow> Inl err
      | Inr r1 \<Rightarrow>
          (case drain_requests e 0 cfg r1 of
             Inl err \<Rightarrow> Inl err
           | Inr r2 \<Rightarrow>
               (case drain_responses cfg r2 of
                  Inl err \<Rightarrow> Inl err
                | Inr r3 \<Rightarrow> Inr (harvest_io_completions cqes r3))))"

end
