(* ===== verification/Reactor_Invariant.thy ===== *)
theory Reactor_Invariant
  imports Reactor
begin

text \<open>
  The invariant of a reactor and its connections, and that every event, delivery and completion
  keeps it. It bounds the memory a peer can occupy with a partial request, and it says that output
  which is pending on a registered connection is always watched for.
\<close>

section \<open>The invariant of a connection\<close>

text \<open>
  Reading: without a header fewer than four bytes are buffered; with one, the announced length is
  within the limit and is the one in the buffer, and the request is incomplete. Writing: the offset
  is within the buffer, an empty buffer means an empty queue, and a splice is under way only when
  the buffer has been sent.
\<close>

definition read_ok :: "ReactorConfig \<Rightarrow> Connection \<Rightarrow> bool" where
  "read_ok cfg c \<longleftrightarrow>
     (if cn_have_header c
      then 4 \<le> length (cn_read_buf c) \<and> length (cn_read_buf c) < 4 + cn_expected_len c \<and>
        cn_expected_len c \<le> unat (rc_max_message_bytes cfg) \<and>
        cn_expected_len c = size_of_signed (decode_int32_be (take 4 (cn_read_buf c)))
      else length (cn_read_buf c) < 4)"

definition write_ok :: "Connection \<Rightarrow> bool" where
  "write_ok c \<longleftrightarrow>
     cn_write_offset c \<le> length (cn_write_buf c) \<and> (cn_write_buf c = [] \<longrightarrow> cn_write_queue c = []) \<and>
     list_all (\<lambda>b. b \<noteq> []) (cn_write_queue c) \<and>
     (cn_splice_pending c \<longrightarrow> cn_write_buf c \<noteq> [] \<and> cn_write_offset c = length (cn_write_buf c))"

definition interest_ok :: "kernel \<Rightarrow> int32_t \<Rightarrow> Connection \<Rightarrow> bool" where
  "interest_ok k fd c \<longleftrightarrow>
     (kn_interest k fd \<noteq> None \<longrightarrow> (kn_interest k fd = Some EpollInOut \<longleftrightarrow> cn_write_buf c \<noteq> []))"

definition reactor_ok :: "ReactorConfig \<Rightarrow> WorkerReactor \<Rightarrow> bool" where
  "reactor_ok cfg r \<longleftrightarrow>
     (\<forall>fd c. wr_connections r fd = Some c \<longrightarrow>
        read_ok cfg c \<and> write_ok c \<and> interest_ok (wr_kernel r) fd c) \<and>
     (\<forall>fd. wr_connections r fd = None \<longrightarrow> kn_interest (wr_kernel r) fd = None)"

lemma read_ok_new [simp]: "read_ok cfg new_connection"
  by (simp add: read_ok_def new_connection_def)

lemma write_ok_new [simp]: "write_ok new_connection"
  by (simp add: write_ok_def new_connection_def)

lemma reactor_okD:
  "reactor_ok cfg r \<Longrightarrow> wr_connections r fd = Some c \<Longrightarrow> read_ok cfg c"
  "reactor_ok cfg r \<Longrightarrow> wr_connections r fd = Some c \<Longrightarrow> write_ok c"
  "reactor_ok cfg r \<Longrightarrow> wr_connections r fd = Some c \<Longrightarrow> interest_ok (wr_kernel r) fd c"
  unfolding reactor_ok_def by blast+

lemma reactor_ok_missing:
  "reactor_ok cfg r \<Longrightarrow> wr_connections r fd = None \<Longrightarrow> kn_interest (wr_kernel r) fd = None"
  unfolding reactor_ok_def by blast

text \<open>Two reactors that agree on everything but one connection and its registration.\<close>

definition same_elsewhere :: "int32_t \<Rightarrow> WorkerReactor \<Rightarrow> WorkerReactor \<Rightarrow> bool" where
  "same_elsewhere fd r r' \<longleftrightarrow>
     (\<forall>fd'. fd' \<noteq> fd \<longrightarrow> wr_connections r' fd' = wr_connections r fd' \<and>
        kn_interest (wr_kernel r') fd' = kn_interest (wr_kernel r) fd')"

lemma same_elsewhere_refl [simp]: "same_elsewhere fd r r"
  by (simp add: same_elsewhere_def)

lemma same_elsewhere_trans [trans]:
  "same_elsewhere fd r r' \<Longrightarrow> same_elsewhere fd r' r'' \<Longrightarrow> same_elsewhere fd r r''"
  by (simp add: same_elsewhere_def)

lemma reactor_ok_local:
  assumes "reactor_ok cfg r" and "same_elsewhere fd r r'"
    and "\<And>c. wr_connections r' fd = Some c \<Longrightarrow> read_ok cfg c \<and> write_ok c \<and> interest_ok (wr_kernel r') fd c"
    and "wr_connections r' fd = None \<Longrightarrow> kn_interest (wr_kernel r') fd = None"
  shows "reactor_ok cfg r'"
  unfolding reactor_ok_def
proof (intro conjI allI impI)
  fix fd' c assume c: "wr_connections r' fd' = Some c"
  show "read_ok cfg c" "write_ok c" "interest_ok (wr_kernel r') fd' c"
    using assms(1-3) c unfolding reactor_ok_def same_elsewhere_def interest_ok_def
    by (cases "fd' = fd"; metis)+
next
  fix fd' assume "wr_connections r' fd' = None"
  then show "kn_interest (wr_kernel r') fd' = None"
    using assms(1,2,4) unfolding reactor_ok_def same_elsewhere_def by (cases "fd' = fd") metis+
qed

text \<open>What the small operations change.\<close>

lemma put_conn_simps [simp]:
  "wr_connections (put_conn fd c r) = (wr_connections r)(fd \<mapsto> c)"
  "wr_kernel (put_conn fd c r) = wr_kernel r" "wr_broker (put_conn fd c r) = wr_broker r"
  "wr_queues (put_conn fd c r) = wr_queues r" "conn_at (put_conn fd c r) fd = c"
  by (simp_all add: put_conn_def conn_at_def)

lemma metrics_simps [simp]:
  "wr_connections (add_error r) = wr_connections r" "wr_kernel (add_error r) = wr_kernel r"
  "wr_broker (add_error r) = wr_broker r" "wr_queues (add_error r) = wr_queues r"
  "wr_connections (add_sent n r) = wr_connections r" "wr_kernel (add_sent n r) = wr_kernel r"
  "wr_broker (add_sent n r) = wr_broker r" "wr_queues (add_sent n r) = wr_queues r"
  "wr_connections (add_request n r) = wr_connections r" "wr_kernel (add_request n r) = wr_kernel r"
  "wr_broker (add_request n r) = wr_broker r" "wr_queues (add_request n r) = wr_queues r"
  by (simp_all add: add_error_def add_sent_def add_request_def)

lemma conn_at_metrics [simp]:
  "conn_at (add_error r) fd = conn_at r fd" "conn_at (add_sent n r) fd = conn_at r fd"
  "conn_at (add_request n r) fd = conn_at r fd"
  by (simp_all add: conn_at_def)

lemma set_interest_simps [simp]:
  "wr_connections (set_interest fd i r) = wr_connections r" "wr_broker (set_interest fd i r) = wr_broker r"
  "wr_queues (set_interest fd i r) = wr_queues r" "conn_at (set_interest fd i r) fd' = conn_at r fd'"
  "kn_interest (wr_kernel (set_interest fd i r)) fd' =
     (if fd' = fd then map_option (\<lambda>_. i) (kn_interest (wr_kernel r) fd) else kn_interest (wr_kernel r) fd')"
  "kn_socks (wr_kernel (set_interest fd i r)) = kn_socks (wr_kernel r)"
  by (simp_all add: set_interest_def conn_at_def epoll_mod_def split: option.splits)

lemma close_connection_simps [simp]:
  "wr_connections (close_connection fd r) fd = None"
  "kn_interest (wr_kernel (close_connection fd r)) fd = None"
  "same_elsewhere fd r (close_connection fd r)"
  by (simp_all add: close_connection_def kernel_close_def same_elsewhere_def)

lemma reactor_ok_close: "reactor_ok cfg r \<Longrightarrow> reactor_ok cfg (close_connection fd r)"
  by (erule reactor_ok_local [of cfg r fd]) simp_all

lemma close_same_elsewhere: "same_elsewhere fd r r' \<Longrightarrow> same_elsewhere fd r (close_connection fd r')"
  by (erule same_elsewhere_trans) simp

lemma reactor_ok_closed:
  assumes "reactor_ok cfg r" and "same_elsewhere fd r r'"
  shows "reactor_ok cfg (close_connection fd r')"
  using assms by (intro reactor_ok_local [of cfg r fd "close_connection fd r'"] close_same_elsewhere) simp_all

section \<open>Responses are not empty\<close>

lemma fill_nonempty:
  assumes "fill (4 + n) a = Some bs" and "emits a cs"
  shows "bs \<noteq> []"
  using assms by (auto simp: fill_emits split: if_splits)

lemma serialize_not_Nil:
  assumes "serialize resp = Some bs"
  shows "bs \<noteq> []"
  using assms
  by (cases resp; simp only: serialize.simps serialize_api_versions_def serialize_describe_def
      serialize_fetch_def serialize_metadata_def serialize_find_coordinator_def
      serialize_offset_commit_def serialize_offset_fetch_def serialize_list_offsets_def
      serialize_join_group_def serialize_heartbeat_def serialize_leave_group_def
      serialize_sync_group_def serialize_produce_def Let_def)
    (erule fill_nonempty; (rule emits_intros)+)+

section \<open>Every event keeps the invariant\<close>

lemma recv_fd_interest [simp]: "kn_interest (snd (recv_fd an fd n k)) = kn_interest k"
  by (simp add: recv_fd_def split: option.splits prod.splits)

text \<open>The outgoing side of the sockets: what has been handed to the peer, and the room left.\<close>

definition outs :: "kernel \<Rightarrow> int32_t \<rightharpoonup> bytes \<times> nat" where
  "outs k fd = map_option (\<lambda>sk. (sk_out sk, sk_room sk)) (kn_socks k fd)"

lemma recv_fd_outs [simp]: "outs (snd (recv_fd an fd n k)) = outs k"
proof -
  have "sk_out sk' = sk_out sk \<and> sk_room sk' = sk_room sk" if "recv_all an n sk = (res, sk')" for sk res sk'
    using recv_all_out [of an n sk] that by simp
  then show ?thesis by (auto simp: recv_fd_def outs_def fun_eq_iff split: option.splits prod.splits)
qed

lemma send_fd_interest [simp]: "kn_interest (snd (send_fd an fd data k)) = kn_interest k"
  by (simp add: send_fd_def split: option.splits prod.splits)

lemma idle_iff: "write_ok c \<Longrightarrow> was_idle c \<longleftrightarrow> cn_write_buf c = []"
  by (auto simp: was_idle_def write_ok_def)

lemma write_ok_enqueue: "write_ok c \<Longrightarrow> data \<noteq> [] \<Longrightarrow> write_ok (enqueue data c)"
  by (auto simp: write_ok_def enqueue_def was_idle_def)

lemma enqueue_not_empty: "data \<noteq> [] \<Longrightarrow> write_ok c \<Longrightarrow> cn_write_buf (enqueue data c) \<noteq> []"
  by (auto simp: write_ok_def enqueue_def was_idle_def)

lemma read_ok_enqueue [simp]: "read_ok cfg (enqueue data c) = read_ok cfg c"
  by (simp add: read_ok_def enqueue_def)

lemma set_splice_ok [simp]:
  "read_ok cfg (set_splice sp c) = read_ok cfg c" "write_ok (set_splice sp c) = write_ok c"
  "cn_write_buf (set_splice sp c) = cn_write_buf c" "cn_expected_len (set_splice sp c) = cn_expected_len c"
  "cn_write_offset (set_splice sp c) = cn_write_offset c" "cn_write_queue (set_splice sp c) = cn_write_queue c"
  "cn_read_buf (set_splice sp c) = cn_read_buf c"
  by (simp_all add: read_ok_def write_ok_def set_splice_def split: option.splits prod.splits)

lemma reset_read_ok [simp]:
  "read_ok cfg (reset_read c)" "write_ok (reset_read c) = write_ok c"
  "cn_write_buf (reset_read c) = cn_write_buf c"
  by (simp_all add: read_ok_def write_ok_def reset_read_def)

lemma conn_at_ok:
  assumes "reactor_ok cfg r"
  shows "read_ok cfg (conn_at r fd)" and "write_ok (conn_at r fd)"
  using assms by (auto simp: conn_at_def dest: reactor_okD split: option.splits)

text \<open>Queueing a response and switching the interest when the connection was idle.\<close>

lemma reactor_ok_enqueue:
  assumes "reactor_ok cfg r" and "same_elsewhere fd r r1"
    and "kn_interest (wr_kernel r1) fd = kn_interest (wr_kernel r) fd"
    and "wr_connections r1 fd = Some c1" and "read_ok cfg c1" and "write_ok c1" and "cn_write_buf c1 \<noteq> []"
    and "cn_write_buf c = [] \<or> wr_connections r fd = Some c0 \<and> cn_write_buf c0 = cn_write_buf c"
    and "write_ok c"
  shows "reactor_ok cfg (if was_idle c then set_interest fd EpollInOut r1 else r1)"
proof (rule reactor_ok_local [OF assms(1)])
  show "same_elsewhere fd r (if was_idle c then set_interest fd EpollInOut r1 else r1)"
    using assms(2) by (simp add: same_elsewhere_def)
next
  fix c' assume "wr_connections (if was_idle c then set_interest fd EpollInOut r1 else r1) fd = Some c'"
  then have c': "c' = c1" using assms(4) by (simp split: if_splits)
  have "interest_ok (wr_kernel (if was_idle c then set_interest fd EpollInOut r1 else r1)) fd c1"
  proof (cases "was_idle c")
    case True
    then show ?thesis using assms(7) by (auto simp: interest_ok_def)
  next
    case False
    with assms(8,9) have "wr_connections r fd = Some c0" "cn_write_buf c0 \<noteq> []" by (auto simp: idle_iff)
    with False assms(1,3,7) show ?thesis by (auto simp: interest_ok_def dest!: reactor_okD(3))
  qed
  with c' assms(5,6) show "read_ok cfg c' \<and> write_ok c' \<and>
      interest_ok (wr_kernel (if was_idle c then set_interest fd EpollInOut r1 else r1)) fd c'" by simp
qed (use assms(4) in \<open>simp split: if_splits\<close>)

lemma advance_write_queue_ok:
  assumes "reactor_ok cfg r" and "\<not> cn_splice_pending (conn_at r fd)"
  shows "reactor_ok cfg (advance_write_queue fd r)"
proof -
  note ok = conn_at_ok [OF assms(1), of fd]
  show ?thesis
  proof (cases "cn_write_queue (conn_at r fd)")
    case Nil
    have "read_ok cfg ((conn_at r fd)\<lparr>cn_write_buf := [], cn_write_offset := 0\<rparr>)"
      "write_ok ((conn_at r fd)\<lparr>cn_write_buf := [], cn_write_offset := 0\<rparr>)"
      using ok Nil assms(2) by (auto simp: read_ok_def write_ok_def)
    with Nil show ?thesis
      by (intro reactor_ok_local [OF assms(1), of fd])
        (auto simp: advance_write_queue_def Let_def same_elsewhere_def interest_ok_def)
  next
    case (Cons b bs)
    then obtain c where c: "wr_connections r fd = Some c" "conn_at r fd = c"
      by (auto simp: conn_at_def new_connection_def split: option.splits)
    let ?c = "c\<lparr>cn_write_buf := b, cn_write_queue := bs, cn_write_offset := 0\<rparr>"
    have "read_ok cfg ?c" "write_ok ?c" "b \<noteq> []" "cn_write_buf c \<noteq> []"
      using ok Cons assms(2) c by (auto simp: read_ok_def write_ok_def)
    moreover have "interest_ok (wr_kernel r) fd c" using assms(1) c(1) by (rule reactor_okD)
    ultimately show ?thesis
      using Cons c
      by (intro reactor_ok_local [OF assms(1), of fd])
        (auto simp: advance_write_queue_def Let_def same_elsewhere_def interest_ok_def)
  qed
qed

lemma send_fd_bound:
  assumes "send_fd an fd data k = (Inr n, k')"
  shows "n \<le> length data"
  using assms send_all_result(1)
  by (auto simp: send_fd_def split: option.splits prod.splits if_splits) fastforce

lemma handle_write_missing:
  assumes "wr_connections r fd = None"
  obtains k where "kn_interest k = kn_interest (wr_kernel r)" and
    "handle_write an sqe fd r =
       set_interest fd EpollIn (put_conn fd new_connection
         (add_sent 0 (put_conn fd new_connection (put_conn fd new_connection (r\<lparr>wr_kernel := k\<rparr>)))))"
proof -
  have c: "conn_at r fd = new_connection" using assms by (simp add: conn_at_def)
  obtain res k where s: "send_fd an fd [] (wr_kernel r) = (res, k)" by fastforce
  have "send_all an [] sk = (Inr 0, sk)" for sk by (simp add: send_all_def send_loop.simps)
  then have res: "res = Inr 0" and k: "kn_interest k = kn_interest (wr_kernel r)"
    using s by (auto simp: send_fd_def split: option.splits prod.splits)
  have n: "cn_write_buf new_connection = []" "cn_write_offset new_connection = 0"
    "cn_write_queue new_connection = []" "\<not> 0 \<le>s cn_splice_fd new_connection"
    "\<not> cn_splice_pending new_connection"
    "new_connection\<lparr>cn_write_offset := 0\<rparr> = new_connection"
    "new_connection\<lparr>cn_write_buf := [], cn_write_offset := 0\<rparr> = new_connection"
    by (simp_all add: new_connection_def)
  show thesis
    by (rule that [OF k])
      (simp add: handle_write_def finish_write_def advance_write_queue_def Let_def c s res n)
qed

lemma handle_write_missing_ok:
  assumes "reactor_ok cfg r" and "wr_connections r fd = None"
  shows "reactor_ok cfg (handle_write an sqe fd r)"
proof -
  obtain k where k: "kn_interest k = kn_interest (wr_kernel r)"
    "handle_write an sqe fd r = set_interest fd EpollIn (put_conn fd new_connection
       (add_sent 0 (put_conn fd new_connection (put_conn fd new_connection (r\<lparr>wr_kernel := k\<rparr>)))))"
    using handle_write_missing [OF assms(2)] by metis
  have "cn_write_buf new_connection = []" by (simp add: new_connection_def)
  with k show ?thesis
    by (intro reactor_ok_local [OF assms(1), of fd]) (auto simp: same_elsewhere_def interest_ok_def)
qed

lemma handle_write_ok:
  assumes "reactor_ok cfg r"
    and "wr_connections r fd = None \<or> kn_interest (wr_kernel r) fd = Some EpollInOut"
  shows "reactor_ok cfg (handle_write an sqe fd r)"
proof (cases "wr_connections r fd")
  case None
  with assms(1) show ?thesis by (rule handle_write_missing_ok)
next
  case (Some c)
  then have c: "conn_at r fd = c" by (simp add: conn_at_def)
  have ok: "read_ok cfg c" "write_ok c" "cn_write_buf c \<noteq> []"
    using reactor_okD [OF assms(1) Some] assms(2) Some by (auto simp: interest_ok_def)
  obtain res k where s: "send_fd an fd (drop (cn_write_offset c) (cn_write_buf c)) (wr_kernel r) = (res, k)"
    by fastforce
  have k: "kn_interest k = kn_interest (wr_kernel r)" using send_fd_interest s by (metis snd_conv)
  show ?thesis
  proof (cases res)
    case (Inl e)
    have "same_elsewhere fd r (add_error (put_conn fd c (r\<lparr>wr_kernel := k\<rparr>)))"
      using k by (simp add: same_elsewhere_def)
    with assms(1) Inl s c show ?thesis by (simp add: handle_write_def Let_def reactor_ok_closed)
  next
    case (Inr n)
    let ?c1 = "c\<lparr>cn_write_offset := cn_write_offset c + n\<rparr>"
    let ?r2 = "add_sent n (put_conn fd ?c1 (put_conn fd c (r\<lparr>wr_kernel := k\<rparr>)))"
    have "n \<le> length (cn_write_buf c) - cn_write_offset c" using send_fd_bound s Inr by fastforce
    then have ok1: "read_ok cfg ?c1" "write_ok ?c1" using ok by (auto simp: read_ok_def write_ok_def)
    moreover have "interest_ok (wr_kernel r) fd c" using assms(1) Some by (rule reactor_okD)
    ultimately have r2: "reactor_ok cfg ?r2"
      using k by (intro reactor_ok_local [OF assms(1), of fd]) (auto simp: same_elsewhere_def interest_ok_def)
    have at: "conn_at ?r2 fd = ?c1" by simp
    have "reactor_ok cfg (finish_write sqe fd ?r2)"
    proof (cases "length (cn_write_buf c) \<le> cn_write_offset ?c1 \<and> 0 \<le>s cn_splice_fd c \<and>
        \<not> cn_splice_pending c \<and> sqe")
      case True
      with ok ok1 k \<open>interest_ok (wr_kernel r) fd c\<close> show ?thesis
        by (intro reactor_ok_local [OF assms(1), of fd])
          (auto simp: finish_write_def submit_splice_def same_elsewhere_def interest_ok_def read_ok_def
            write_ok_def Let_def)
    next
      case False
      then show ?thesis
        using r2 advance_write_queue_ok [OF r2, of fd] by (auto simp: finish_write_def at Let_def)
    qed
    then show ?thesis using s c Inr by (simp add: handle_write_def Let_def)
  qed
qed

lemma reactor_ok_queues [simp]: "reactor_ok cfg (r\<lparr>wr_queues := qs\<rparr>) = reactor_ok cfg r"
  by (simp add: reactor_ok_def)

lemma deliver_response_ok:
  assumes "reactor_ok cfg r" and "fs_data resp \<noteq> []"
  shows "reactor_ok cfg (deliver_response resp r)"
proof (cases "wr_connections r (fs_client_fd resp)")
  case None
  with assms(1) show ?thesis by (simp add: deliver_response_def)
next
  case (Some c0)
  let ?fd = "fs_client_fd resp"
  define c where "c = (if 0 \<le>s fs_splice_fd resp
    then set_splice (Some (fs_splice_fd resp, fs_splice_len resp)) c0 else c0)"
  have c: "read_ok cfg c" "write_ok c" "cn_write_buf c0 = cn_write_buf c"
    using reactor_okD [OF assms(1) Some] by (simp_all add: c_def)
  have "reactor_ok cfg (if was_idle c then set_interest ?fd EpollInOut (put_conn ?fd (enqueue (fs_data resp) c) r)
      else put_conn ?fd (enqueue (fs_data resp) c) r)"
    by (rule reactor_ok_enqueue [OF assms(1), where ?c0.0 = c0 and c = c and ?c1.0 = "enqueue (fs_data resp) c"
          and ?r1.0 = "put_conn ?fd (enqueue (fs_data resp) c) r"])
      (use c Some assms(2) in \<open>auto simp: same_elsewhere_def write_ok_enqueue enqueue_not_empty\<close>)
  then show ?thesis by (simp only: deliver_response_def Let_def Some option.case c_def [symmetric])
qed

lemma harvest_one_ok:
  assumes "reactor_ok cfg r"
  shows "reactor_ok cfg (harvest_one cqe r)"
proof -
  have err: "reactor_ok cfg (add_error r)" "reactor_ok cfg (add_sent n r)" for n
    using assms by (simp_all add: reactor_ok_def)
  have "reactor_ok cfg (advance_write_queue fd (put_conn fd (c\<lparr>cn_splice_pending := False\<rparr>) r'))"
    if "reactor_ok cfg r'" "wr_connections r' fd = Some c" for fd c r'
  proof (rule advance_write_queue_ok)
    show "reactor_ok cfg (put_conn fd (c\<lparr>cn_splice_pending := False\<rparr>) r')"
      using reactor_okD [OF that]
      by (intro reactor_ok_local [OF that(1), of fd])
        (auto simp: same_elsewhere_def read_ok_def write_ok_def interest_ok_def)
  qed simp
  with assms err show ?thesis by (auto simp: harvest_one_def Let_def split: option.splits)
qed

lemma harvest_ok: "reactor_ok cfg r \<Longrightarrow> reactor_ok cfg (harvest_io_completions cqes r)"
  unfolding harvest_io_completions_def
  by (induction cqes arbitrary: r) (simp_all add: harvest_one_ok)

lemma handle_accept_ok:
  assumes "reactor_ok cfg r"
  shows "reactor_ok cfg (handle_accept a r)"
proof (cases "ac_fd a <s 0 \<or> \<not> ac_flags_ok a \<or> \<not> ac_epoll_ok a")
  case False
  have "cn_write_buf new_connection = []" by (simp add: new_connection_def)
  with False show ?thesis
    by (intro reactor_ok_local [OF assms, of "ac_fd a"])
      (auto simp: handle_accept_def same_elsewhere_def interest_ok_def)
qed (use assms in \<open>auto simp: handle_accept_def\<close>)

section \<open>Reading keeps the invariant\<close>

text \<open>A stage of \<open>handle_read\<close> that has changed nothing but the kernel's buffers and the reading
  side of one connection.\<close>

definition staged :: "int32_t \<Rightarrow> WorkerReactor \<Rightarrow> WorkerReactor \<Rightarrow> Connection \<Rightarrow> bool" where
  "staged fd r r1 c \<longleftrightarrow>
     wr_connections r1 = (wr_connections r)(fd \<mapsto> c) \<and> wr_broker r1 = wr_broker r \<and>
     wr_queues r1 = wr_queues r \<and> kn_interest (wr_kernel r1) = kn_interest (wr_kernel r) \<and>
     outs (wr_kernel r1) = outs (wr_kernel r) \<and>
     (\<exists>buf len h. c = (conn_at r fd)\<lparr>cn_read_buf := buf, cn_expected_len := len, cn_have_header := h\<rparr>)"

lemma stagedD:
  assumes "staged fd r r1 c"
  shows "conn_at r1 fd = c" "wr_connections r1 fd = Some c" "wr_broker r1 = wr_broker r"
    "wr_queues r1 = wr_queues r" "kn_interest (wr_kernel r1) = kn_interest (wr_kernel r)"
    "cn_write_buf c = cn_write_buf (conn_at r fd)" "write_ok c = write_ok (conn_at r fd)"
    "cn_write_offset c = cn_write_offset (conn_at r fd)" "cn_write_queue c = cn_write_queue (conn_at r fd)"
    "same_elsewhere fd r r1" "outs (wr_kernel r1) = outs (wr_kernel r)"
  using assms by (auto simp: staged_def conn_at_def write_ok_def same_elsewhere_def)

lemma staged_trans:
  assumes "staged fd r r1 c1" and "staged fd r1 r2 c2"
  shows "staged fd r r2 c2"
proof -
  obtain a b d where c1: "c1 = (conn_at r fd)\<lparr>cn_read_buf := a, cn_expected_len := b, cn_have_header := d\<rparr>"
    using assms(1) by (auto simp: staged_def)
  obtain a' b' d' where "c2 = c1\<lparr>cn_read_buf := a', cn_expected_len := b', cn_have_header := d'\<rparr>"
    using assms(2) stagedD(1) [OF assms(1)] by (auto simp: staged_def)
  with c1 have "c2 = (conn_at r fd)\<lparr>cn_read_buf := a', cn_expected_len := b', cn_have_header := d'\<rparr>"
    by simp
  with assms show ?thesis unfolding staged_def by (metis fun_upd_upd)
qed

lemma staged_put: "staged fd r (put_conn fd (conn_at r fd) r) (conn_at r fd)"
proof -
  have "conn_at r fd = (conn_at r fd)\<lparr>cn_read_buf := cn_read_buf (conn_at r fd),
      cn_expected_len := cn_expected_len (conn_at r fd), cn_have_header := cn_have_header (conn_at r fd)\<rparr>"
    by simp
  then show ?thesis unfolding staged_def put_conn_simps by blast
qed

lemma staged_buffer:
  assumes "kn_interest k = kn_interest (wr_kernel r)" and "outs k = outs (wr_kernel r)"
  shows "staged fd r (put_conn fd ((conn_at r fd)\<lparr>cn_read_buf := buf\<rparr>) (r\<lparr>wr_kernel := k\<rparr>))
    ((conn_at r fd)\<lparr>cn_read_buf := buf\<rparr>)"
proof -
  have "\<exists>buf' len h. (conn_at r fd)\<lparr>cn_read_buf := buf\<rparr> =
      (conn_at r fd)\<lparr>cn_read_buf := buf', cn_expected_len := len, cn_have_header := h\<rparr>"
    by (intro exI [of _ buf] exI [of _ "cn_expected_len (conn_at r fd)"]
        exI [of _ "cn_have_header (conn_at r fd)"]) simp
  then show ?thesis unfolding staged_def using assms by (intro conjI) simp_all
qed

lemma recv_fd_bound:
  assumes "recv_fd an fd n k = (Inr bs, k')"
  shows "length bs \<le> n"
  using assms recv_all_result(1) by (auto simp: recv_fd_def split: option.splits prod.splits) fastforce

lemma fill_buffer_cases:
  fixes r :: WorkerReactor and fd :: int32_t
  defines "c \<equiv> conn_at r fd"
  assumes "length (cn_read_buf c) < needed"
  obtains (closed) r1 where "fill_buffer an fd needed r = Return (close_connection fd r1)"
      "staged fd r r1 (conn_at r1 fd)"
    | (partial) r1 bs where "fill_buffer an fd needed r = Return r1"
      "staged fd r r1 (c\<lparr>cn_read_buf := cn_read_buf c @ bs\<rparr>)" "length (cn_read_buf c @ bs) < needed"
    | (full) r1 bs where "fill_buffer an fd needed r = Continue r1"
      "staged fd r r1 (c\<lparr>cn_read_buf := cn_read_buf c @ bs\<rparr>)" "length (cn_read_buf c @ bs) = needed"
proof -
  obtain res k where s: "recv_fd an fd (needed - length (cn_read_buf c)) (wr_kernel r) = (res, k)" by fastforce
  then have k: "kn_interest k = kn_interest (wr_kernel r)" "outs k = outs (wr_kernel r)"
    using recv_fd_interest recv_fd_outs by (metis snd_conv)+
  note st = staged_buffer [OF k, of fd]
  show thesis
  proof (cases res)
    case (Inl e)
    have "c\<lparr>cn_read_buf := cn_read_buf c @ []\<rparr> = c" by simp
    then show thesis
      using partial [of "put_conn fd c (r\<lparr>wr_kernel := k\<rparr>)" "[]"] st [of "cn_read_buf c @ []"] assms(2) s Inl
      by (simp add: fill_buffer_def c_def Let_def)
  next
    case (Inr bs)
    let ?r2 = "put_conn fd (c\<lparr>cn_read_buf := cn_read_buf c @ bs\<rparr>) (r\<lparr>wr_kernel := k\<rparr>)"
    have st2: "staged fd r ?r2 (c\<lparr>cn_read_buf := cn_read_buf c @ bs\<rparr>)"
      using st [of "cn_read_buf c @ bs"] by (simp add: c_def)
    have le: "length (cn_read_buf c @ bs) \<le> needed" using recv_fd_bound s Inr assms(2) by fastforce
    consider "bs = []" | "bs \<noteq> []" "length (cn_read_buf c @ bs) < needed"
      | "bs \<noteq> []" "length (cn_read_buf c @ bs) = needed"
      using le by linarith
    then show thesis
      using st2 s Inr closed [of ?r2] partial [of ?r2 bs] full [of ?r2 bs]
      by cases (simp_all add: fill_buffer_def c_def Let_def)
  qed
qed

text \<open>The header stage: either a header is still missing or the connection is closed, or the
  announced length is within the limit and set.\<close>

definition header_read :: "ReactorConfig \<Rightarrow> Connection \<Rightarrow> bool" where
  "header_read cfg c \<longleftrightarrow>
     cn_have_header c \<and> 4 \<le> length (cn_read_buf c) \<and> length (cn_read_buf c) \<le> 4 + cn_expected_len c \<and>
     cn_expected_len c \<le> unat (rc_max_message_bytes cfg) \<and>
     cn_expected_len c = size_of_signed (decode_int32_be (take 4 (cn_read_buf c)))"

lemma set_header_cases:
  fixes r :: WorkerReactor and fd :: int32_t
  defines "c \<equiv> conn_at r fd"
  assumes "length (cn_read_buf c) = 4"
  obtains (closed) r1 where "set_header cfg fd r = Return (close_connection fd r1)"
      "staged fd r r1 (conn_at r1 fd)"
    | (full) r1 where "set_header cfg fd r = Continue r1" "staged fd r r1 (conn_at r1 fd)"
      "header_read cfg (conn_at r1 fd)" "cn_read_buf (conn_at r1 fd) = cn_read_buf c"
proof -
  let ?len = "size_of_signed (decode_int32_be (take 4 (cn_read_buf c)))"
  have st: "staged fd r (put_conn fd (c\<lparr>cn_expected_len := ?len, cn_have_header := h\<rparr>) r)
      (c\<lparr>cn_expected_len := ?len, cn_have_header := h\<rparr>)" for h
  proof -
    have "\<exists>buf' len h'. c\<lparr>cn_expected_len := ?len, cn_have_header := h\<rparr> =
        (conn_at r fd)\<lparr>cn_read_buf := buf', cn_expected_len := len, cn_have_header := h'\<rparr>"
      by (intro exI [of _ "cn_read_buf c"] exI [of _ ?len] exI [of _ h]) (simp add: c_def)
    then show ?thesis unfolding staged_def by (intro conjI) simp_all
  qed
  have eta: "c\<lparr>cn_expected_len := ?len, cn_have_header := cn_have_header c\<rparr> = c\<lparr>cn_expected_len := ?len\<rparr>"
    by simp
  have "staged fd r (add_error (put_conn fd (c\<lparr>cn_expected_len := ?len\<rparr>) r)) (c\<lparr>cn_expected_len := ?len\<rparr>)"
    using st [of "cn_have_header c"] unfolding eta by (simp add: staged_def)
  with st [of True] assms(2) show thesis
    using closed [of "add_error (put_conn fd (c\<lparr>cn_expected_len := ?len\<rparr>) r)"]
      full [of "put_conn fd (c\<lparr>cn_expected_len := ?len, cn_have_header := True\<rparr>) r"]
    by (cases "unat (rc_max_message_bytes cfg) < ?len")
      (simp_all add: set_header_def Let_def header_read_def c_def)
qed

lemma read_header_cases:
  fixes r :: WorkerReactor and fd :: int32_t
  defines "c \<equiv> conn_at r fd"
  assumes "wr_connections r fd = Some c" and "read_ok cfg c"
  obtains (closed) r1 where "read_header cfg an fd r = Return (close_connection fd r1)"
      "staged fd r r1 (conn_at r1 fd)"
    | (partial) r1 where "read_header cfg an fd r = Return r1" "staged fd r r1 (conn_at r1 fd)"
      "read_ok cfg (conn_at r1 fd)"
    | (full) r1 where "read_header cfg an fd r = Continue r1" "staged fd r r1 (conn_at r1 fd)"
      "header_read cfg (conn_at r1 fd)"
proof (cases "cn_have_header c")
  case True
  have "put_conn fd (conn_at r fd) r = r" using assms(2) by (simp add: put_conn_def c_def fun_upd_idem)
  then have "staged fd r r (conn_at r fd)" using staged_put [of fd r] by simp
  moreover have "header_read cfg c" using True assms(3) by (simp add: read_ok_def header_read_def)
  ultimately show thesis using full [of r] True by (simp add: read_header_def c_def)
next
  case False
  then have short: "length (cn_read_buf (conn_at r fd)) < 4" using assms(3) by (simp add: read_ok_def c_def)
  then have eq: "read_header cfg an fd r = continue_with (fill_buffer an fd 4 r) (set_header cfg fd)"
    using False by (simp add: read_header_def c_def)
  from short show thesis
  proof (cases rule: fill_buffer_cases [of r fd 4 an])
    case (closed r1)
    with eq that(1) show thesis by simp
  next
    case (partial r1 bs)
    with False have "read_ok cfg (conn_at r1 fd)" by (simp add: stagedD(1) [OF partial(2)] read_ok_def c_def)
    with partial eq that(2) show thesis by (simp add: stagedD(1) [OF partial(2)])
  next
    case (full r1 bs)
    then have at: "conn_at r1 fd = (conn_at r fd)\<lparr>cn_read_buf := cn_read_buf (conn_at r fd) @ bs\<rparr>"
      by (simp add: stagedD(1) [OF full(2)])
    with full(3) have "length (cn_read_buf (conn_at r1 fd)) = 4" by simp
    then show thesis
    proof (cases rule: set_header_cases [of r1 fd cfg])
      case (closed r2)
      with staged_trans [OF full(2) closed(2)] eq full(1) that(1) show thesis by simp
    next
      case fin: (full r2)
      with staged_trans [OF full(2) fin(2)] eq full(1) that(3) show thesis by simp
    qed
  qed
qed

lemma read_body_cases:
  fixes r :: WorkerReactor and fd :: int32_t
  defines "c \<equiv> conn_at r fd"
  assumes "wr_connections r fd = Some c" and "header_read cfg c"
  obtains (closed) r1 where "read_body an fd r = Return (close_connection fd r1)"
      "staged fd r r1 (conn_at r1 fd)"
    | (partial) r1 where "read_body an fd r = Return r1" "staged fd r r1 (conn_at r1 fd)"
      "read_ok cfg (conn_at r1 fd)"
    | (full) r1 where "read_body an fd r = Continue r1" "staged fd r r1 (conn_at r1 fd)"
      "header_read cfg (conn_at r1 fd)"
      "length (cn_read_buf (conn_at r1 fd)) = 4 + cn_expected_len (conn_at r1 fd)"
proof (cases "length (cn_read_buf c) < 4 + cn_expected_len c")
  case False
  have "put_conn fd (conn_at r fd) r = r" using assms(2) by (simp add: put_conn_def c_def fun_upd_idem)
  then have "staged fd r r (conn_at r fd)" using staged_put [of fd r] by simp
  moreover have "length (cn_read_buf c) = 4 + cn_expected_len c"
    using False assms(3) by (simp add: header_read_def)
  ultimately show thesis
    using full [of r] False assms(3) unfolding c_def by (simp add: read_body_def Let_def)
next
  case True
  then have eq: "read_body an fd r = fill_buffer an fd (4 + cn_expected_len c) r"
    by (simp add: read_body_def c_def Let_def)
  have grow: "header_read cfg (c\<lparr>cn_read_buf := cn_read_buf c @ bs\<rparr>)"
    if "length (cn_read_buf c @ bs) \<le> 4 + cn_expected_len c" for bs
    using assms(3) that by (auto simp: header_read_def)
  from True show thesis unfolding c_def
  proof (cases rule: fill_buffer_cases [of r fd "4 + cn_expected_len (conn_at r fd)" an])
    case (closed r1)
    with eq that(1) show thesis by (simp add: c_def)
  next
    case (partial r1 bs)
    with grow [of bs] have "read_ok cfg (conn_at r1 fd)"
      by (simp add: stagedD(1) [OF partial(2)] header_read_def read_ok_def c_def)
    with partial eq that(2) show thesis by (simp add: stagedD(1) [OF partial(2)] c_def)
  next
    case (full r1 bs)
    with grow [of bs] eq that(3) show thesis by (simp add: stagedD(1) [OF full(2)] c_def)
  qed
qed

text \<open>Collecting a frame: the connection is closed, or it waits for the rest of a request, or exactly
  one complete frame is buffered.\<close>

lemma read_frame_cases:
  assumes "reactor_ok cfg r"
  obtains (closed) r1 where "read_frame an cfg fd r = Return (close_connection fd r1)"
      "staged fd r r1 (conn_at r1 fd)"
    | (waiting) r1 where "read_frame an cfg fd r = Return r1" "staged fd r r1 (conn_at r1 fd)"
      "read_ok cfg (conn_at r1 fd)"
    | (request) r1 where "read_frame an cfg fd r = Continue r1"
      "staged fd r r1 (conn_at r1 fd)" "header_read cfg (conn_at r1 fd)"
      "length (cn_read_buf (conn_at r1 fd)) = 4 + cn_expected_len (conn_at r1 fd)"
proof -
  let ?r0 = "put_conn fd (conn_at r fd) r"
  note s0 = staged_put [of fd r]
  have "wr_connections ?r0 fd = Some (conn_at ?r0 fd)" "read_ok cfg (conn_at ?r0 fd)"
    using conn_at_ok(1) [OF assms, of fd] by simp_all
  then show thesis
  proof (cases rule: read_header_cases [of ?r0 fd cfg "an 0"])
    case (closed r1)
    with that(1) staged_trans [OF s0 closed(2)] show thesis by (simp add: read_frame_def)
  next
    case (partial r1)
    with that(2) staged_trans [OF s0 partial(2)] show thesis by (simp add: read_frame_def)
  next
    case (full r1)
    note s1 = staged_trans [OF s0 full(2)]
    have "wr_connections r1 fd = Some (conn_at r1 fd)" using stagedD(2) [OF s1] .
    then show thesis using full(3)
    proof (cases rule: read_body_cases [of r1 fd cfg "an 1"])
      case (closed r2)
      with that(1) staged_trans [OF s1 closed(2)] full(1) show thesis by (simp add: read_frame_def)
    next
      case (partial r2)
      with that(2) staged_trans [OF s1 partial(2)] full(1) show thesis by (simp add: read_frame_def)
    next
      case fin: (full r2)
      with that(3) staged_trans [OF s1 fin(2)] full(1) show thesis by (simp add: read_frame_def)
    qed
  qed
qed

text \<open>What processing a request may do to the connection: it is gone, or still well-formed and, when
  it had output pending, still watched for writing.\<close>

definition out_kept :: "int32_t \<Rightarrow> WorkerReactor \<Rightarrow> WorkerReactor \<Rightarrow> bool" where
  "out_kept fd r r' \<longleftrightarrow>
     wr_connections r' fd = None \<or> kn_interest (wr_kernel r') fd = Some EpollInOut \<or>
     kn_interest (wr_kernel r') fd = kn_interest (wr_kernel r) fd"

lemma reactor_ok_staged:
  assumes "reactor_ok cfg r" and "staged fd r r1 c" and "read_ok cfg c"
  shows "reactor_ok cfg r1"
proof (rule reactor_ok_local [OF assms(1) stagedD(10) [OF assms(2)]])
  fix c' assume "wr_connections r1 fd = Some c'"
  then have c': "c' = c" using stagedD(2) [OF assms(2)] by simp
  have "interest_ok (wr_kernel r) fd (conn_at r fd)"
  proof (cases "wr_connections r fd")
    case None
    then show ?thesis using reactor_ok_missing [OF assms(1)] by (simp add: interest_ok_def)
  qed (use reactor_okD(3) [OF assms(1)] in \<open>simp add: conn_at_def\<close>)
  then have "interest_ok (wr_kernel r1) fd c" by (simp add: interest_ok_def stagedD [OF assms(2)])
  with c' assms(3) conn_at_ok(2) [OF assms(1), of fd]
  show "read_ok cfg c' \<and> write_ok c' \<and> interest_ok (wr_kernel r1) fd c'" by (simp add: stagedD [OF assms(2)])
qed (simp add: stagedD [OF assms(2)])

lemma forward_request_ok:
  assumes "reactor_ok cfg r" and "staged fd r r1 c" and "forward_request fd target cfg req r1 = Inr r'"
  shows "reactor_ok cfg r' \<and> out_kept fd r r'"
proof -
  have r': "wr_connections r' = (wr_connections r1)(fd \<mapsto> reset_read c)" "wr_kernel r' = wr_kernel r1"
    using assms(3) stagedD(1) [OF assms(2)] by (auto simp: forward_request_def Let_def split: if_splits)
  have "\<exists>buf len h. reset_read c = (conn_at r fd)\<lparr>cn_read_buf := buf, cn_expected_len := len, cn_have_header := h\<rparr>"
    using assms(2)
    by (auto simp: staged_def reset_read_def
        intro!: exI [of _ "[]"] exI [of _ "cn_expected_len c"] exI [of _ False])
  with r' assms(2) have "staged fd r (r'\<lparr>wr_broker := wr_broker r, wr_queues := wr_queues r\<rparr>) (reset_read c)"
    by (simp add: staged_def)
  from reactor_ok_staged [OF assms(1) this] have "reactor_ok cfg r'" by (simp add: reactor_ok_def)
  with r' show ?thesis by (simp add: out_kept_def stagedD [OF assms(2)])
qed

lemma answer_locally_ok:
  assumes "reactor_ok cfg r" and "staged fd r r1 c" and "answer_locally e cfg fd req r1 = Inr r'"
  shows "reactor_ok cfg r' \<and> out_kept fd r r'"
proof -
  obtain resp b buf where h: "handle (rc_handler cfg) e req (wr_broker r1) = (Inr resp, b)"
    and s: "serialize resp = Some buf"
    using assms(3) by (auto simp: answer_locally_def split: sum.splits prod.splits option.splits)
  let ?c = "set_splice (last_splice resp) c"
  let ?r2 = "put_conn fd ?c (r1\<lparr>wr_broker := b\<rparr>)"
  let ?r3 = "put_conn fd (reset_read (enqueue buf ?c)) (add_request (4 + cn_expected_len ?c) ?r2)"
  have r': "r' = (if rc_max_write_buffer_bytes cfg < length buf then close_connection fd (add_error ?r2)
      else if was_idle ?c then set_interest fd EpollInOut ?r3 else ?r3)"
    using assms(3) stagedD(1) [OF assms(2)] by (simp add: answer_locally_def h s Let_def split: if_splits)
  have wc: "write_ok ?c" using conn_at_ok(2) [OF assms(1), of fd] by (simp add: stagedD [OF assms(2)])
  have ne: "buf \<noteq> []" using s by (rule serialize_not_Nil)
  have same: "same_elsewhere fd r ?r2" "same_elsewhere fd r ?r3"
    using stagedD(10) [OF assms(2)] by (simp_all add: same_elsewhere_def)
  have "reactor_ok cfg (if was_idle ?c then set_interest fd EpollInOut ?r3 else ?r3)"
  proof (rule reactor_ok_enqueue [OF assms(1) same(2), where c = ?c and ?c0.0 = "conn_at r fd"
        and ?c1.0 = "reset_read (enqueue buf ?c)"])
    show "cn_write_buf ?c = [] \<or> wr_connections r fd = Some (conn_at r fd) \<and> cn_write_buf (conn_at r fd) = cn_write_buf ?c"
      by (auto simp: stagedD [OF assms(2)] conn_at_def new_connection_def split: option.splits)
  qed (use wc ne in \<open>auto simp: stagedD [OF assms(2)] write_ok_enqueue enqueue_not_empty\<close>)
  then have "reactor_ok cfg r'"
    unfolding r' using reactor_ok_closed [OF assms(1), of fd "add_error ?r2"] same(1)
    by (simp add: same_elsewhere_def)
  moreover have "out_kept fd r r'"
    unfolding r' out_kept_def by (cases "kn_interest (wr_kernel r) fd") (simp_all add: stagedD [OF assms(2)])
  ultimately show ?thesis by simp
qed

lemma process_request_ok:
  assumes "reactor_ok cfg r" and "staged fd r r1 c" and "process_request e cfg fd r1 = Inr r'"
  shows "reactor_ok cfg r' \<and> out_kept fd r r'"
proof -
  have "same_elsewhere fd r (add_error r1)" using stagedD(10) [OF assms(2)] by (simp add: same_elsewhere_def)
  from reactor_ok_closed [OF assms(1) this]
  have "reactor_ok cfg (close_connection fd (add_error r1)) \<and> out_kept fd r (close_connection fd (add_error r1))"
    by (simp add: out_kept_def)
  then show ?thesis
    using assms(3) forward_request_ok [OF assms(1,2)] answer_locally_ok [OF assms(1,2)]
    by (auto simp: process_request_def split: sum.splits option.splits if_splits)
qed

lemma handle_read_ok:
  assumes "reactor_ok cfg r" and "handle_read an e cfg fd r = Inr r'"
  shows "reactor_ok cfg r' \<and> out_kept fd r r'"
  using assms(1)
proof (cases rule: read_frame_cases [of cfg r an fd])
  case (closed r1)
  then show ?thesis
    using assms(2) reactor_ok_closed [OF assms(1) stagedD(10) [OF closed(2)]]
    by (auto simp: handle_read_def out_kept_def)
next
  case (waiting r1)
  then show ?thesis
    using assms(2) reactor_ok_staged [OF assms(1) waiting(2,3)] stagedD(5) [OF waiting(2)]
    by (auto simp: handle_read_def out_kept_def)
next
  case (request r1)
  then show ?thesis using assms(2) process_request_ok [OF assms(1) request(2)] by (simp add: handle_read_def)
qed

text \<open>The events the kernel can report: those of registered descriptors, and readiness for writing
  only where it was asked for.\<close>

definition event_possible :: "ReactorConfig \<Rightarrow> reactor_event \<Rightarrow> WorkerReactor \<Rightarrow> bool" where
  "event_possible cfg ev r \<longleftrightarrow>
     ev_fd ev = rc_server_fd cfg \<or> ev_fd ev = rc_wakeup_fd cfg \<or>
     kn_interest (wr_kernel r) (ev_fd ev) = Some EpollInOut \<or>
     kn_interest (wr_kernel r) (ev_fd ev) = Some EpollIn \<and> ev_events ev AND EPOLLOUT = 0"

lemma dispatch_event_ok:
  assumes "reactor_ok cfg r" and "event_possible cfg ev r" and "dispatch_event cfg ev r = Inr r'"
  shows "reactor_ok cfg r'"
proof -
  have clear: "reactor_ok cfg (clear_wakeup cfg r)" "reactor_ok cfg (add_error r)"
    using assms(1) by (simp_all add: clear_wakeup_def reactor_ok_def)
  have io: "reactor_ok cfg (if ev_events ev AND EPOLLOUT \<noteq> 0 then handle_write an sqe (ev_fd ev) r1 else r1)"
    if "reactor_ok cfg r1" "out_kept (ev_fd ev) r r1"
      "ev_fd ev \<noteq> rc_server_fd cfg" "ev_fd ev \<noteq> rc_wakeup_fd cfg" for r1 an sqe
    using that assms(2) handle_write_ok [OF that(1), of "ev_fd ev" an sqe]
    by (auto simp: event_possible_def out_kept_def)
  have refl: "out_kept (ev_fd ev) r r" by (simp add: out_kept_def)
  show ?thesis
    using assms(1,3) clear handle_accept_ok [OF assms(1)] reactor_ok_close [OF clear(2)]
      handle_read_ok [OF assms(1)] io [OF assms(1) refl] io
    by (auto simp: dispatch_event_def split: if_splits sum.splits)
qed

end
