(* ===== verification/Config.thy ===== *)
theory Config
  imports Text_Format "HOL-Library.AList"
begin

text \<open>
  The configuration of \<open>src/src/config/\<close>: the properties file and \<open>Config::load\<close>, which takes
  the defaults, the file and the command line in this order. What the environment decides is an
  argument: the number of processors, the contents of the file or the error of opening it, and the
  order in which the hash table of the properties is traversed. The warnings about invalid values
  are log lines and not part of the model.
\<close>

section \<open>Properties\<close>

text \<open>\<open>std::isspace\<close> in the C locale.\<close>

definition isspace :: "char \<Rightarrow> bool" where
  "isspace c \<longleftrightarrow> (of_char c :: nat) = 32 \<or> 9 \<le> (of_char c :: nat) \<and> (of_char c :: nat) \<le> 13"

abbreviation newline :: char where
  "newline \<equiv> CHR 0x0A"

abbreviation return :: char where
  "return \<equiv> CHR 0x0D"

text \<open>The loop that removes white space from the end.\<close>

function trim_back :: "string \<Rightarrow> string" where
  "trim_back s = (if s \<noteq> [] \<and> isspace (last s) then trim_back (butlast s) else s)"
  by pat_completeness auto
termination
  by (relation "measure length") auto

declare trim_back.simps [simp del]

definition trim :: "string \<Rightarrow> string" where
  "trim sv = (let start = dropWhile isspace sv in if start = [] then [] else trim_back start)"

text \<open>\<open>std::string_view::find\<close> for the equals sign.\<close>

definition find_eq :: "string \<Rightarrow> nat option" where
  "find_eq s = (if CHR ''='' \<in> set s then Some (length (takeWhile (\<lambda>c. c \<noteq> CHR ''='') s)) else None)"

text \<open>The lines \<open>std::getline\<close> returns; the last one need not end with a newline.\<close>

function getlines :: "string \<Rightarrow> string list" where
  "getlines s =
     (if s = [] then []
      else takeWhile (\<lambda>c. c \<noteq> newline) s # getlines (drop 1 (dropWhile (\<lambda>c. c \<noteq> newline) s)))"
  by pat_completeness auto
termination
  by (relation "measure length") (auto simp: neq_Nil_conv less_Suc_eq_le intro: le_trans [OF diff_le_self length_dropWhile_le])

declare getlines.simps [simp del]

text \<open>The body of the loop: what a line sets, if anything.\<close>

definition property_line :: "string \<Rightarrow> (string \<times> string) option" where
  "property_line line0 =
     (let line = (if line0 \<noteq> [] \<and> last line0 = return then butlast line0 else line0);
          trimmed = trim line
      in if trimmed = [] \<or> hd trimmed = CHR ''#'' then None
         else
           (case find_eq trimmed of
              None \<Rightarrow> None
            | Some eq_pos \<Rightarrow>
                (let key = trim (take eq_pos trimmed)
                 in if key = [] then None else Some (key, trim (drop (eq_pos + 1) trimmed)))))"

type_synonym Properties = "(string \<times> string) list"

definition add_line :: "string \<Rightarrow> Properties \<Rightarrow> Properties" where
  "add_line line props =
     (case property_line line of None \<Rightarrow> props | Some (key, val) \<Rightarrow> AList.update key val props)"

text \<open>The argument is the error number of opening the file, or its contents.\<close>

definition load_properties :: "int + string \<Rightarrow> int + Properties" where
  "load_properties file = map_sum id (\<lambda>text. fold add_line (getlines text) []) file"

section \<open>Numbers and arguments\<close>

text \<open>\<open>std::from_chars\<close> for an unsigned type of \<open>w\<close> bits: the longest run of digits at the
  start, and the rest; no digits and a number out of range are errors.\<close>

definition from_chars :: "nat \<Rightarrow> string \<Rightarrow> (nat \<times> string) option" where
  "from_chars w s =
     (let ds = takeWhile is_digit s
      in if ds = [] \<or> 2 ^ w \<le> digits_value ds then None
         else Some (digits_value ds, dropWhile is_digit s))"

definition parse_int :: "nat \<Rightarrow> string \<Rightarrow> nat" where
  "parse_int w sv = (case from_chars w sv of Some (n, rest) \<Rightarrow> if rest = [] then n else 0 | None \<Rightarrow> 0)"

definition parse_cli_arg :: "string \<Rightarrow> string \<times> string" where
  "parse_cli_arg arg0 =
     (let arg = (if take 2 arg0 = ''--'' then drop 2 arg0 else arg0)
      in case find_eq arg of None \<Rightarrow> ([], []) | Some eq_pos \<Rightarrow> (take eq_pos arg, drop (eq_pos + 1) arg))"

section \<open>Loading\<close>

record Config =
  cf_port :: "16 word"
  cf_log_root :: string
  cf_max_message_bytes :: uint32_t
  cf_max_write_buffer_bytes :: size_t
  cf_segment_bytes :: size_t
  cf_reactor_count :: size_t

definition default_config :: Config where
  "default_config = \<lparr>cf_port = 9092, cf_log_root = ''/tmp/kraft-combined-logs'',
     cf_max_message_bytes = 1048576, cf_max_write_buffer_bytes = 4194304,
     cf_segment_bytes = 1073741824, cf_reactor_count = 0\<rparr>"

definition apply_config_key :: "string \<Rightarrow> string \<Rightarrow> Config \<Rightarrow> Config" where
  "apply_config_key key v c =
     (if key = ''port'' then
        (let parsed = parse_int 16 v in if parsed \<noteq> 0 then c\<lparr>cf_port := word_of_nat parsed\<rparr> else c)
      else if key = ''log.dirs'' then c\<lparr>cf_log_root := v\<rparr>
      else if key = ''max.message.bytes'' then
        (let parsed = parse_int 32 v
         in if parsed \<noteq> 0 then c\<lparr>cf_max_message_bytes := word_of_nat parsed\<rparr> else c)
      else if key = ''max.write.buffer.bytes'' then
        (let parsed = parse_int 64 v
         in if parsed \<noteq> 0 then c\<lparr>cf_max_write_buffer_bytes := parsed\<rparr> else c)
      else if key = ''segment.bytes'' then
        (let parsed = parse_int 64 v in if parsed \<noteq> 0 then c\<lparr>cf_segment_bytes := parsed\<rparr> else c)
      else if key = ''reactor.count'' then
        (let parsed = parse_int 64 v in if parsed \<noteq> 0 then c\<lparr>cf_reactor_count := parsed\<rparr> else c)
      else c)"

definition apply_setting :: "string \<times> string \<Rightarrow> Config \<Rightarrow> Config" where
  "apply_setting kv = apply_config_key (fst kv) (snd kv)"

definition apply_cli :: "string \<Rightarrow> Config \<Rightarrow> Config" where
  "apply_cli arg c = (let (key, v) = parse_cli_arg arg in if key \<noteq> [] then apply_config_key key v c else c)"

text \<open>\<open>Config::load\<close>: the number of processors, the path, the file behind it, the traversal of the
  hash table, and the arguments without the name of the program.\<close>

definition load ::
    "uint32_t \<Rightarrow> string \<Rightarrow> int + string \<Rightarrow> (Properties \<Rightarrow> Properties) \<Rightarrow> string list \<Rightarrow> Config" where
  "load cpus config_path file order args =
     (let c0 = default_config;
          c1 = (if cf_reactor_count c0 = 0 then c0\<lparr>cf_reactor_count := unat cpus\<rparr> else c0);
          c2 = (if cf_reactor_count c1 = 0 then c1\<lparr>cf_reactor_count := 1\<rparr> else c1);
          c3 = (if config_path \<noteq> [] then
                  (case load_properties file of
                     Inl _ \<Rightarrow> c2
                   | Inr props \<Rightarrow> fold apply_setting (order props) c2)
                else c2)
      in fold apply_cli args c3)"

section \<open>Reading a properties file\<close>

text \<open>Text without white space at either end.\<close>

definition stripped :: "string \<Rightarrow> bool" where
  "stripped s \<longleftrightarrow> (s \<noteq> [] \<longrightarrow> \<not> isspace (hd s) \<and> \<not> isspace (last s))"

lemma trim_stripped: "stripped s \<Longrightarrow> trim s = s"
  by (cases s) (auto simp: stripped_def trim_def trim_back.simps)

definition key_ok :: "string \<Rightarrow> bool" where
  "key_ok k \<longleftrightarrow> k \<noteq> [] \<and> stripped k \<and> hd k \<noteq> CHR ''#'' \<and> CHR ''='' \<notin> set k \<and> newline \<notin> set k"

definition value_ok :: "string \<Rightarrow> bool" where
  "value_ok v \<longleftrightarrow> stripped v \<and> newline \<notin> set v"

lemma split_at_first:
  "c \<notin> set k \<Longrightarrow> takeWhile (\<lambda>x. x \<noteq> c) (k @ c # v) = k"
  "c \<notin> set k \<Longrightarrow> dropWhile (\<lambda>x. x \<noteq> c) (k @ c # v) = c # v"
  by (induction k) auto

lemma find_eq_setting: "CHR ''='' \<notin> set k \<Longrightarrow> find_eq (k @ CHR ''='' # v) = Some (length k)"
  by (simp add: find_eq_def split_at_first)

lemma property_line_setting:
  assumes "key_ok k" and "value_ok v"
  shows "property_line (k @ CHR ''='' # v) = Some (k, v)"
proof -
  have "stripped (k @ CHR ''='' # v)"
    using assms by (auto simp: key_ok_def value_ok_def stripped_def isspace_def)
  moreover have "last (k @ CHR ''='' # v) \<noteq> return"
    using assms(2) by (auto simp: value_ok_def stripped_def isspace_def)
  ultimately show ?thesis
    using assms find_eq_setting [of k v]
    by (simp add: property_line_def Let_def trim_stripped key_ok_def value_ok_def)
qed

lemma getlines_line:
  assumes "newline \<notin> set l"
  shows "getlines (l @ newline # s) = l # getlines s"
  using assms by (subst getlines.simps) (simp add: split_at_first)

text \<open>A properties file as it is written: settings between lines that set nothing.\<close>

datatype file_line = Setting string string | Other string

fun line_ok :: "file_line \<Rightarrow> bool" where
  "line_ok (Setting k v) = (key_ok k \<and> value_ok v)"
| "line_ok (Other l) = (newline \<notin> set l \<and> property_line l = None)"

fun line_text :: "file_line \<Rightarrow> string" where
  "line_text (Setting k v) = k @ CHR ''='' # v"
| "line_text (Other l) = l"

fun line_settings :: "file_line \<Rightarrow> (string \<times> string) list" where
  "line_settings (Setting k v) = [(k, v)]"
| "line_settings (Other l) = []"

definition file_text :: "file_line list \<Rightarrow> string" where
  "file_text ls = concat (map (\<lambda>l. line_text l @ [newline]) ls)"

definition file_settings :: "file_line list \<Rightarrow> (string \<times> string) list" where
  "file_settings ls = concat (map line_settings ls)"

lemma line_no_newline: "line_ok l \<Longrightarrow> newline \<notin> set (line_text l)"
  by (cases l) (auto simp: key_ok_def value_ok_def)

lemma getlines_file: "list_all line_ok ls \<Longrightarrow> getlines (file_text ls) = map line_text ls"
proof (induction ls)
  case Nil
  then show ?case by (simp add: file_text_def getlines.simps)
next
  case (Cons l ls)
  then show ?case using getlines_line [OF line_no_newline, of l "file_text ls"] by (simp add: file_text_def)
qed

lemma add_line_settings:
  "line_ok l \<Longrightarrow> add_line (line_text l) ps = fold (\<lambda>(k, v). AList.update k v) (line_settings l) ps"
  by (cases l) (simp_all add: add_line_def property_line_setting)

lemma add_lines_settings:
  "list_all line_ok ls \<Longrightarrow>
   fold add_line (map line_text ls) ps = fold (\<lambda>(k, v). AList.update k v) (file_settings ls) ps"
  by (induction ls arbitrary: ps) (simp_all add: file_settings_def add_line_settings)

lemma fold_update_map_of: "map_of (fold (\<lambda>(k, v). AList.update k v) kvs ps) = map_of ps ++ map_of (rev kvs)"
  by (induction kvs arbitrary: ps) (auto simp: update_conv' map_add_def fun_eq_iff split: option.splits)



section \<open>What a configuration is made of\<close>

text \<open>The last valid number given for a key, and the last text given for it.\<close>

definition last_number :: "nat \<Rightarrow> string \<Rightarrow> (string \<times> string) list \<Rightarrow> nat option" where
  "last_number w key kvs =
     (let ns = filter (\<lambda>n. n \<noteq> 0) (map (parse_int w \<circ> snd) (filter (\<lambda>kv. fst kv = key) kvs))
      in if ns = [] then None else Some (last ns))"

definition last_text :: "string \<Rightarrow> (string \<times> string) list \<Rightarrow> string option" where
  "last_text key kvs = map_of (rev kvs) key"

definition effective_config :: "Config \<Rightarrow> (string \<times> string) list \<Rightarrow> Config" where
  "effective_config c kvs =
     \<lparr>cf_port = (case last_number 16 ''port'' kvs of None \<Rightarrow> cf_port c | Some n \<Rightarrow> word_of_nat n),
      cf_log_root = (case last_text ''log.dirs'' kvs of None \<Rightarrow> cf_log_root c | Some v \<Rightarrow> v),
      cf_max_message_bytes =
        (case last_number 32 ''max.message.bytes'' kvs of
           None \<Rightarrow> cf_max_message_bytes c | Some n \<Rightarrow> word_of_nat n),
      cf_max_write_buffer_bytes =
        (case last_number 64 ''max.write.buffer.bytes'' kvs of
           None \<Rightarrow> cf_max_write_buffer_bytes c | Some n \<Rightarrow> n),
      cf_segment_bytes =
        (case last_number 64 ''segment.bytes'' kvs of None \<Rightarrow> cf_segment_bytes c | Some n \<Rightarrow> n),
      cf_reactor_count =
        (case last_number 64 ''reactor.count'' kvs of None \<Rightarrow> cf_reactor_count c | Some n \<Rightarrow> n)\<rparr>"

lemma last_number_snoc:
  "last_number w key (kvs @ [(k, v)]) =
     (if k = key \<and> parse_int w v \<noteq> 0 then Some (parse_int w v) else last_number w key kvs)"
  by (auto simp: last_number_def Let_def)

lemma last_text_snoc:
  "last_text key (kvs @ [(k, v)]) = (if k = key then Some v else last_text key kvs)"
  by (simp add: last_text_def)

lemma effective_config_Nil: "effective_config c [] = c"
  by (simp add: effective_config_def last_number_def last_text_def)

lemma effective_config_snoc:
  "effective_config c (kvs @ [(k, v)]) = apply_config_key k v (effective_config c kvs)"
proof -
  consider "k = ''port''" | "k = ''log.dirs''" | "k = ''max.message.bytes''" | "k = ''max.write.buffer.bytes''"
    | "k = ''segment.bytes''" | "k = ''reactor.count''"
    | "k \<notin> {''port'', ''log.dirs'', ''max.message.bytes'', ''max.write.buffer.bytes'', ''segment.bytes'', ''reactor.count''}"
    by auto
  then show ?thesis
    by cases (simp_all add: effective_config_def apply_config_key_def last_number_snoc last_text_snoc Let_def)
qed

lemma fold_apply_setting: "fold apply_setting kvs c = effective_config c kvs"
  by (induction kvs rule: rev_induct)
    (auto simp: effective_config_Nil effective_config_snoc apply_setting_def)

text \<open>The settings of the command line; an argument without an equals sign, or with an empty key,
  sets nothing.\<close>

definition cli_settings :: "string list \<Rightarrow> (string \<times> string) list" where
  "cli_settings args = filter (\<lambda>kv. fst kv \<noteq> []) (map parse_cli_arg args)"

lemma fold_apply_cli: "fold apply_cli args c = fold apply_setting (cli_settings args) c"
  by (induction args arbitrary: c) (auto simp: cli_settings_def apply_cli_def apply_setting_def Let_def case_prod_beta)

text \<open>Settings of different keys do not depend on their order.\<close>

lemma last_number_only:
  "last_number w key kvs = last_number w key (filter (\<lambda>kv. fst kv = key) kvs)"
  by (simp add: last_number_def)

lemma last_text_only: "last_text key kvs = last_text key (filter (\<lambda>kv. fst kv = key) kvs)"
proof -
  have "map_of (filter (\<lambda>kv. fst kv = key) xs) key = map_of xs key" for xs :: "(string \<times> string) list"
    by (induction xs) auto
  then show ?thesis by (simp add: last_text_def rev_filter)
qed

lemma filter_key_distinct:
  fixes props ps :: Properties
  assumes "distinct (map fst props)" and "mset ps = mset props"
  shows "filter (\<lambda>kv. fst kv = key) ps = filter (\<lambda>kv. fst kv = key) props"
proof -
  have "length (filter (\<lambda>kv. fst kv = key) props) \<le> 1"
    using assms(1)
  proof (induction props)
    case (Cons kv props)
    then show ?case by (auto simp: filter_empty_conv) (metis fst_conv image_eqI)
  qed simp
  moreover have "mset (filter (\<lambda>kv. fst kv = key) ps) = mset (filter (\<lambda>kv. fst kv = key) props)"
    using assms(2) by simp
  moreover have "xs = ys" if "length ys \<le> 1" "mset xs = mset ys" for xs ys :: "(string \<times> string) list"
    using that by (cases ys) auto
  ultimately show ?thesis by blast
qed

lemma effective_config_order:
  assumes "distinct (map fst props)" and "mset ps = mset props"
  shows "effective_config c (ps @ kvs) = effective_config c (props @ kvs)"
proof -
  have "filter (\<lambda>kv. fst kv = key) (ps @ kvs) = filter (\<lambda>kv. fst kv = key) (props @ kvs)" for key
    using filter_key_distinct [OF assms] by simp
  then have "last_number w key (ps @ kvs) = last_number w key (props @ kvs)"
    "last_text key (ps @ kvs) = last_text key (props @ kvs)" for w key
    by (metis last_number_only, metis last_text_only)
  then show ?thesis by (simp add: effective_config_def)
qed

lemma load_properties_distinct: "load_properties file = Inr props \<Longrightarrow> distinct (map fst props)"
proof -
  have "distinct (map fst (fold add_line ls ps))" if "distinct (map fst ps)" for ls ps
    using that by (induction ls arbitrary: ps) (auto simp: add_line_def distinct_update split: option.splits)
  then show "load_properties file = Inr props \<Longrightarrow> distinct (map fst props)"
    by (auto simp: load_properties_def map_sum_def split: sum.splits)
qed

definition start_config :: "uint32_t \<Rightarrow> Config" where
  "start_config cpus = default_config\<lparr>cf_reactor_count := if cpus = 0 then 1 else unat cpus\<rparr>"

definition file_part :: "string \<Rightarrow> int + string \<Rightarrow> (string \<times> string) list" where
  "file_part config_path file =
     (if config_path = [] then [] else case load_properties file of Inl _ \<Rightarrow> [] | Inr props \<Rightarrow> props)"

lemma effective_config_append: "effective_config (effective_config c xs) ys = effective_config c (xs @ ys)"
  by (simp add: fold_apply_setting [symmetric])

lemma load_order:
  "load cpus config_path file order args =
     effective_config (start_config cpus)
       ((if config_path = [] then [] else case load_properties file of Inl _ \<Rightarrow> [] | Inr props \<Rightarrow> order props)
        @ cli_settings args)"
proof -
  have "load cpus config_path file order args = fold apply_cli args
      (if config_path \<noteq> [] then
         (case load_properties file of
            Inl _ \<Rightarrow> start_config cpus
          | Inr props \<Rightarrow> fold apply_setting (order props) (start_config cpus))
       else start_config cpus)"
    by (simp add: load_def start_config_def default_config_def Let_def unat_eq_zero split: sum.splits)
  then show ?thesis
    by (cases "load_properties file")
      (simp_all add: fold_apply_cli fold_apply_setting effective_config_append effective_config_Nil)
qed



lemma parse_int_less: "parse_int w s < 2 ^ w"
  by (auto simp: parse_int_def from_chars_def Let_def split: option.splits if_splits)

lemma last_number_range: "last_number w key kvs = Some n \<Longrightarrow> 0 < n \<and> n < 2 ^ w"
proof (induction kvs rule: rev_induct)
  case (snoc kv kvs)
  then show ?case
    by (cases kv) (auto simp: last_number_snoc parse_int_less split: if_splits)
qed (simp add: last_number_def)

lemma last_number_nonzero:
  "last_number LENGTH('a) key kvs = Some n \<Longrightarrow> (word_of_nat n :: 'a::len word) \<noteq> 0"
  using last_number_range [of "LENGTH('a)" key kvs n] by (simp add: word_of_nat_eq_0_iff nat_dvd_not_less)

text \<open>Whatever the file, the command line and the machine, the configuration is usable: there is at
  least one reactor, the port and all limits are positive, and every value fits its type, so that
  nothing was cut off in the conversion.\<close>

lemma load_well_formed:
  "let c = load cpus config_path file order args in
   0 < cf_reactor_count c \<and> cf_reactor_count c < 2 ^ 64 \<and> cf_port c \<noteq> 0 \<and> cf_max_message_bytes c \<noteq> 0 \<and>
   0 < cf_max_write_buffer_bytes c \<and> cf_max_write_buffer_bytes c < 2 ^ 64 \<and>
   0 < cf_segment_bytes c \<and> cf_segment_bytes c < 2 ^ 64"
proof -
  obtain kvs where c: "load cpus config_path file order args = effective_config (start_config cpus) kvs"
    using load_order by blast
  have lt: "unat cpus < 2 ^ LENGTH(32)" by (rule unsigned_less)
  have cpus: "0 < cf_reactor_count (start_config cpus)" "cf_reactor_count (start_config cpus) < 2 ^ 64"
    using lt by (auto simp: start_config_def unat_gt_0)
  have "cf_port (effective_config (start_config cpus) kvs) \<noteq> 0"
    "cf_max_message_bytes (effective_config (start_config cpus) kvs) \<noteq> 0"
    using last_number_nonzero [where 'a = 16] last_number_nonzero [where 'a = 32]
    by (auto simp: effective_config_def start_config_def default_config_def split: option.splits)
  with cpus show ?thesis
    unfolding c Let_def effective_config_def
    by (auto simp: start_config_def default_config_def dest: last_number_range split: option.splits)
qed

text \<open>A number in decimal notation is read back, unless it does not fit.\<close>

lemma parse_int_digits: "parse_int w (digits n) = (if n < 2 ^ w then n else 0)"
  using digits_are_digits [of n]
  by (simp add: parse_int_def from_chars_def Let_def list_all_iff takeWhile_eq_all_conv [THEN iffD2]
      dropWhile_eq_Nil_conv [THEN iffD2])

end
