(* ===== verification/Metadata_Log.thy ===== *)
theory Metadata_Log
  imports Cluster_Metadata
begin

text \<open>
  The metadata log as a controller writes it: record batches whose values are topic records,
  partition records or records of other kinds. Scanning such a log collects exactly its topic and
  partition records, in order, and the tables are built from them.
\<close>

section \<open>The format\<close>

datatype meta_entry =
    TopicEntry RawTopicRecord bytes
  | PartitionEntry RawPartitionRecord bytes
  | OtherEntry uint32_t bytes

text \<open>The version of the frame, the kind of the record, its version, its fields, and whatever
  follows them.\<close>

fun enc_entry :: "meta_entry \<Rightarrow> bytes" where
  "enc_entry (TopicEntry t tl_bytes) =
     write_unsigned_varint 1 @ write_unsigned_varint 2 @ write_unsigned_varint 0
       @ compact_string (bytes_of_chars (rt_name t)) @ rt_uuid t @ tl_bytes"
| "enc_entry (PartitionEntry p tl_bytes) =
     write_unsigned_varint 1 @ write_unsigned_varint 3 @ write_unsigned_varint 1
       @ write_int32_be (rp_partition_id p) @ rp_uuid p @ tl_bytes"
| "enc_entry (OtherEntry key tl_bytes) =
     write_unsigned_varint 1 @ write_unsigned_varint key @ write_unsigned_varint 0 @ tl_bytes"

fun entry_ok :: "meta_entry \<Rightarrow> bool" where
  "entry_ok (TopicEntry t tl_bytes) =
     (length (rt_name t) < 2 ^ 24 \<and> length (rt_uuid t) = 16 \<and> length tl_bytes < 2 ^ 23)"
| "entry_ok (PartitionEntry p tl_bytes) = (length (rp_uuid p) = 16 \<and> length tl_bytes < 2 ^ 23)"
| "entry_ok (OtherEntry key tl_bytes) =
     (key \<noteq> 2 \<and> key \<noteq> 3 \<and> unat key < 2 ^ 28 \<and> length tl_bytes < 2 ^ 23)"

fun collect :: "meta_entry \<Rightarrow> raw_records \<Rightarrow> raw_records" where
  "collect (TopicEntry t _) acc = acc\<lparr>raw_topics := raw_topics acc @ [t]\<rparr>"
| "collect (PartitionEntry p _) acc = acc\<lparr>raw_partitions := raw_partitions acc @ [p]\<rparr>"
| "collect (OtherEntry _ _) acc = acc"

text \<open>A batch of entries, with the header of an ordinary record batch.\<close>

definition entry_record :: "meta_entry \<Rightarrow> batch_record" where
  "entry_record e = \<lparr>br_key = None, br_value = enc_entry e\<rparr>"

definition meta_batch :: "record_batch \<Rightarrow> meta_entry list \<Rightarrow> record_batch" where
  "meta_batch hdr es = hdr\<lparr>rb_records := map entry_record es\<rparr>"

definition enc_meta_log :: "(record_batch \<times> meta_entry list) list \<Rightarrow> bytes" where
  "enc_meta_log bs = concat (map (\<lambda>(hdr, es). enc_batch (meta_batch hdr es)) bs)"

definition meta_log_ok :: "(record_batch \<times> meta_entry list) list \<Rightarrow> bool" where
  "meta_log_ok bs \<longleftrightarrow> list_all (\<lambda>(hdr, es). list_all entry_ok es \<and> batch_ok (meta_batch hdr es)) bs"

section \<open>The value of a record\<close>

lemma metadata_value_entry:
  assumes "entry_ok e"
  shows "metadata_value (enc_entry e) acc = Some (collect e acc)"
proof -
  let ?hdr = "rbind read_varint (\<lambda>frame_ver. rbind read_varint (\<lambda>api_key.
           rbind read_varint (\<lambda>version. rreturn api_key)))"
  have hdr: "reads ?hdr (write_unsigned_varint 1 @ write_unsigned_varint k @ write_unsigned_varint v) k"
    if "unat k < 2 ^ 28" "unat v < 2 ^ 28" for k v
    by (rule reads_rbind, rule reads_varint, simp, rule reads_rbind, rule reads_varint, rule that,
      rule reads_rbind_last, rule reads_varint, rule that, rule reads_rreturn)
  have hdr': "?hdr (ByteReader ((write_unsigned_varint 1 @ write_unsigned_varint k
        @ write_unsigned_varint v) @ cs)) =
      Inr (k, advance (length (write_unsigned_varint 1 @ write_unsigned_varint k @ write_unsigned_varint v))
        (ByteReader ((write_unsigned_varint 1 @ write_unsigned_varint k @ write_unsigned_varint v) @ cs)))"
    if "unat k < 2 ^ 28" "unat v < 2 ^ 28" for k v cs
    using hdr [OF that] by (rule readsD) simp
  show ?thesis
  proof (cases e)
    case (TopicEntry t tl_bytes)
    have "reads (rbind read_compact_string (\<lambda>name. rbind (read_bytes kUuidSize) (\<lambda>uuid.
          rreturn \<lparr>rt_name = name, rt_uuid = uuid\<rparr>))) (compact_string (bytes_of_chars (rt_name t)) @ rt_uuid t) t"
      using assms TopicEntry
      by - (rule reads_rbind, rule reads_compact_string, simp, rule reads_rbind_last,
        rule reads_bytes, simp_all add: kUuidSize_def reads_rreturn_eq)
    from readsD [OF this] hdr' [of 2 0 "compact_string (bytes_of_chars (rt_name t)) @ rt_uuid t @ tl_bytes"]
    show ?thesis using TopicEntry
      by (simp add: metadata_value_def kTopicRecordKey_def)
  next
    case (PartitionEntry p tl_bytes)
    have "reads (rbind read_int32 (\<lambda>pid. rbind (read_bytes kUuidSize) (\<lambda>uuid.
          rreturn \<lparr>rp_partition_id = pid, rp_uuid = uuid\<rparr>))) (write_int32_be (rp_partition_id p) @ rp_uuid p) p"
      using assms PartitionEntry
      by - (rule reads_rbind, rule reads_int32, rule reads_rbind_last,
        rule reads_bytes, simp_all add: kUuidSize_def reads_rreturn_eq)
    from readsD [OF this] hdr' [of 3 1 "write_int32_be (rp_partition_id p) @ rp_uuid p @ tl_bytes"]
    show ?thesis using PartitionEntry assms
      by (simp add: metadata_value_def kTopicRecordKey_def kPartitionRecordKey_def kUuidSize_def remaining_eq)
  next
    case (OtherEntry key tl_bytes)
    with assms hdr' [of key 0 tl_bytes] show ?thesis
      by (simp add: metadata_value_def kTopicRecordKey_def kPartitionRecordKey_def)
  qed
qed

lemma length_entry:
  assumes "entry_ok e"
  shows "3 \<le> length (enc_entry e)" and "length (enc_entry e) < 2 ^ 25"
proof -
  have small: "varint_encoded_size v \<le> 5" for v
    using varint_encoded_size_le [of v 4] unsigned_less [of v, where ?'a = nat] by simp
  obtain a b c cs where e: "enc_entry e =
      write_unsigned_varint a @ write_unsigned_varint b @ write_unsigned_varint c @ cs"
    and cs: "length cs < 2 ^ 25 - 15"
  proof (cases e)
    case (TopicEntry t more_bytes)
    then show ?thesis
      using that [of 1 2 0 "compact_string (bytes_of_chars (rt_name t)) @ rt_uuid t @ more_bytes"]
        assms small [of "u32_of_size (length (rt_name t)) + 1"] by (simp add: compact_string_def)
  next
    case (PartitionEntry p more_bytes)
    then show ?thesis
      using that [of 1 3 1 "write_int32_be (rp_partition_id p) @ rp_uuid p @ more_bytes"] assms by simp
  next
    case (OtherEntry key more_bytes)
    then show ?thesis using that [of 1 key 0 more_bytes] assms by simp
  qed
  show "3 \<le> length (enc_entry e)" "length (enc_entry e) < 2 ^ 25"
    using cs varint_encoded_size_pos [of a] varint_encoded_size_pos [of b] varint_encoded_size_pos [of c]
      small [of a] small [of b] small [of c]
    by (simp_all add: e)
qed

section \<open>One record\<close>

text \<open>
  \<open>yields off f bs s\<close>: at offset \<open>off\<close>, on input that starts with \<open>bs\<close>, \<open>f\<close> returns the
  state \<open>s\<close> and moves over exactly \<open>bs\<close>.
\<close>

definition yields :: "nat \<Rightarrow> (byte_reader \<Rightarrow> 's \<times> byte_reader) \<Rightarrow> bytes \<Rightarrow> 's \<Rightarrow> bool" where
  "yields off f bs s \<longleftrightarrow>
     (\<forall>r ext. rd_offset r = off \<longrightarrow> rest r = bs @ ext \<longrightarrow> f r = (s, advance (length bs) r))"

lemma yieldsD:
  "yields off f bs s \<Longrightarrow> rd_offset r = off \<Longrightarrow> rest r = bs @ ext \<Longrightarrow> f r = (s, advance (length bs) r)"
  by (auto simp: yields_def)

lemma yields_attempt:
  assumes "reads p bs x" and "yields (off + length bs) (k x) cs s'"
  shows "yields off (attempt p k s) (bs @ cs) s'"
  unfolding yields_def
proof (intro allI impI)
  fix r :: byte_reader and ext
  assume r: "rd_offset r = off" "rest r = (bs @ cs) @ ext"
  then have "p r = Inr (x, advance (length bs) r)" using readsD [OF assms(1), of r "cs @ ext"] by simp
  moreover have "k x (advance (length bs) r) = (s', advance (length cs) (advance (length bs) r))"
    using r by (intro yieldsD [OF assms(2)]) simp_all
  ultimately show "attempt p k s r = (s', advance (length (bs @ cs)) r)" by (simp add: attempt_def)
qed

lemma yields_attempt_last:
  assumes "reads p bs x" and "yields (off + length bs) (k x) [] s'"
  shows "yields off (attempt p k s) bs s'"
  using yields_attempt [of p bs x off k "[]" s' s] assms by simp

lemma yields_const: "yields off (\<lambda>r. (s, r)) [] s"
  by (simp add: yields_def)

lemma signed_varint_0: "write_signed_varint 0 = write_unsigned_varint 0"
  by (simp add: write_signed_varint_def zigzag_encode_def)

lemma yields_finish_record:
  "yields off (finish_record (off + length (write_unsigned_varint 0)) acc) (write_unsigned_varint 0) acc"
  unfolding finish_record_def
proof (rule yields_attempt_last)
  show "reads read_svarint (write_unsigned_varint 0) 0"
    unfolding signed_varint_0 [symmetric] by (rule reads_svarint) simp_all
qed (simp add: yields_def Let_def)

lemma yields_record_value:
  assumes "entry_ok e" and "rec_end = off + length (enc_entry e) + length (write_unsigned_varint 0)"
  shows "yields off (metadata_record_value rec_end (word_of_nat (length (enc_entry e))) acc)
    (enc_entry e @ write_unsigned_varint 0) (collect e acc)"
proof -
  have len: "3 \<le> length (enc_entry e)" "length (enc_entry e) < 2 ^ 31"
    using length_entry [OF assms(1)] by simp_all
  then have not_short: "\<not> (word_of_nat (length (enc_entry e)) :: int32_t) <s 3"
    by (simp add: word_sless_alt sint_word_of_nat)
  have reads_value: "reads (read_bytes (size_of_signed (word_of_nat (length (enc_entry e)) :: int32_t)))
      (enc_entry e) (enc_entry e)"
    using len by (intro reads_bytes) (simp add: size_of_signed_word_of_nat)
  show ?thesis
    unfolding metadata_record_value_def [abs_def]
    using len yields_finish_record [of "off + length (enc_entry e)" "collect e acc"] not_short
    by (simp, intro yields_attempt [OF reads_value]) (simp add: metadata_value_entry [OF assms(1)] assms(2))
qed

lemma yields_offset: "yields off (f off) bs s \<Longrightarrow> yields off (\<lambda>r. f (rd_offset r) r) bs s"
  by (simp add: yields_def)

definition record_prefix :: "nat \<Rightarrow> bytes" where
  "record_prefix i =
     [0] @ write_signed_varint 0 @ write_signed_varint (word_of_nat i) @ write_signed_varint (- 1)"

lemma enc_record_entry:
  "enc_record_fields (i, entry_record e) =
     record_prefix i @ write_signed_varint (word_of_nat (length (enc_entry e))) @ enc_entry e
       @ write_unsigned_varint 0"
  by (simp add: enc_record_fields_def record_prefix_def entry_record_def enc_sized_def)

lemma skip_varint_signed:
  "- (2 ^ 27) \<le> sint v \<Longrightarrow> sint v < 2 ^ 27 \<Longrightarrow> reads skip_varint (write_signed_varint v) ()"
  unfolding write_signed_varint_def by (intro reads_skip_varint unat_zigzag_encode_small)

lemma yields_metadata_record:
  assumes "entry_ok e" and "i < 2 ^ 26"
  shows "yields off (metadata_record acc) (enc_record (i, entry_record e)) (collect e acc)"
proof -
  let ?fields = "enc_record_fields (i, entry_record e)"
  have len: "length ?fields < 2 ^ 27"
    using length_entry [OF assms(1)] by (intro length_record_fields) (simp_all add: entry_record_def)
  let ?body = "\<lambda>rec_end. attempt read_int8 (\<lambda>_.
         attempt skip_varint (\<lambda>_.
         attempt skip_varint (\<lambda>_.
         attempt read_svarint (\<lambda>key_len.
         attempt (skip_signed key_len) (\<lambda>_.
         attempt read_svarint (\<lambda>value_len r.
           metadata_record_value rec_end value_len acc r) acc) acc) acc) acc) acc) acc"
  have body: "yields o1 (?body E) ?fields (collect e acc)" if "E = o1 + length ?fields" for o1 E
    unfolding enc_record_entry record_prefix_def append_assoc
    apply (rule yields_attempt, rule reads_int8)
    apply (rule yields_attempt, rule skip_varint_signed, simp, simp)
    apply (rule yields_attempt, rule skip_varint_signed)
    using assms(2) apply (simp add: sint_word_of_nat)
    using assms(2) apply (simp add: sint_word_of_nat)
    apply (rule yields_attempt, rule reads_svarint, simp, simp)
    apply (rule yields_attempt [where bs = "[]", simplified], simp add: skip_signed_def word_sless_alt reads_rreturn)
    apply (rule yields_attempt, rule reads_size)
    using length_entry(2) [OF assms(1)] apply simp
    apply (rule yields_record_value [OF assms(1)])
    using that by (simp add: enc_record_entry record_prefix_def)
  have "\<not> (word_of_nat (length ?fields) :: int32_t) <s 0"
    using len by (simp add: word_sless_alt sint_word_of_nat)
  moreover have "size_of_signed (word_of_nat (length ?fields) :: int32_t) = length ?fields"
    using len by (simp add: size_of_signed_word_of_nat)
  ultimately show ?thesis
    unfolding metadata_record_def enc_record_def enc_sized_def Let_def
    by (intro yields_attempt [OF reads_size [OF len]])
      (simp add: yields_offset [where f = "\<lambda>o1. ?body (o1 + length ?fields)"] body)
qed

section \<open>A batch and the whole log\<close>

lemma enc_record_pos: "0 < length (enc_record ir)"
  by (simp add: enc_record_def enc_sized_def enc_record_fields_def)

lemma yields_metadata_records:
  assumes "list_all entry_ok es" and "k + length es \<le> 2 ^ 26"
    and "batch_end \<ge> off + length (concat (map enc_record (enumerate k (map entry_record es))))"
  shows "yields off (metadata_records (length es) batch_end acc)
    (concat (map enc_record (enumerate k (map entry_record es)))) (fold collect es acc)"
  using assms
proof (induction es arbitrary: k off acc)
  case Nil
  show ?case by (simp add: yields_def)
next
  case (Cons e es)
  let ?rec = "enc_record (k, entry_record e)"
  let ?recs = "concat (map enc_record (enumerate (Suc k) (map entry_record es)))"
  have one: "yields off (metadata_record acc) ?rec (collect e acc)"
    using Cons.prems by (intro yields_metadata_record) simp_all
  have tail: "yields (off + length ?rec) (metadata_records (length es) batch_end (collect e acc))
      ?recs (fold collect es (collect e acc))"
    using Cons.prems by (intro Cons.IH) simp_all
  show ?case
    unfolding yields_def
  proof (intro allI impI)
    fix r :: byte_reader and ext
    assume r: "rd_offset r = off"
      "rest r = concat (map enc_record (enumerate k (map entry_record (e # es)))) @ ext"
    have "metadata_record acc r = (collect e acc, advance (length ?rec) r)"
      using r by (intro yieldsD [OF one]) simp_all
    moreover have "metadata_records (length es) batch_end (collect e acc) (advance (length ?rec) r) =
        (fold collect es (collect e acc), advance (length ?recs) (advance (length ?rec) r))"
      using r by (intro yieldsD [OF tail]) simp_all
    moreover have "rd_offset r < batch_end"
      using r Cons.prems(3) enc_record_pos [of "(k, entry_record e)"] by (simp del: length_greater_0_conv)
    ultimately show "metadata_records (length (e # es)) batch_end acc r =
        (fold collect (e # es) acc,
         advance (length (concat (map enc_record (enumerate k (map entry_record (e # es)))))) r)"
      by simp
  qed
qed

lemma skip_enough: "n \<le> length (rest r) \<Longrightarrow> skip n r = Inr ((), advance n r)"
  by (simp add: skip_def remaining_eq)

lemma metadata_batch_header_eq:
  assumes "57 \<le> length (rest r)"
  shows "metadata_batch_header r =
    (let n = decode_int32_be (take 4 (drop 8 (rest r))) in
     if n <s 0 \<or> rest r ! 16 \<noteq> 2 then Inl message_size
     else Inr ((rd_offset r + 12 + size_of_signed n, decode_int32_be (take 4 (drop 23 (rest r))) + 1),
               advance 57 r))"
  using assms
  by (simp add: metadata_batch_header_def rbind_def rreturn_def rfail_def reader_offset_def
      skip_enough read_enough Let_def)

lemma metadata_batch_header_enc:
  assumes "batch_ok b" and "rest r = enc_batch b @ ext"
  shows "metadata_batch_header r =
    Inr ((rd_offset r + length (enc_batch b), word_of_nat (length (rb_records b))), advance 57 r)"
proof -
  have n: "length (enc_batch_body b) < 2 ^ 31" using assms(1) by (simp add: batch_ok_def)
  have "57 \<le> length (rest r)" by (simp add: assms(2) enc_batch_def enc_batch_body_def)
  moreover have "take 4 (drop 8 (rest r)) = write_int32_be (word_of_nat (length (enc_batch_body b)))"
    "rest r ! 16 = 2"
    "take 4 (drop 23 (rest r)) = write_int32_be (word_of_nat (length (rb_records b)) - 1)"
    by (simp_all add: assms(2) enc_batch_def enc_batch_body_def nth_append)
  ultimately show ?thesis
    using n by (simp add: metadata_batch_header_eq Let_def word_sless_alt sint_word_of_nat
        size_of_signed_word_of_nat length_enc_batch)
qed

lemma metadata_scan_batch:
  assumes "list_all entry_ok es" and "batch_ok (meta_batch hdr es)"
    and "rest r = enc_batch (meta_batch hdr es) @ ext"
  shows "metadata_scan acc r =
    metadata_scan (fold collect es acc) (advance (length (enc_batch (meta_batch hdr es))) r)"
proof -
  let ?b = "meta_batch hdr es"
  let ?recs = "concat (map enc_record (enumerate 0 (map entry_record es)))"
  obtain h57 where h57: "enc_batch ?b = h57 @ ?recs" "length h57 = 57"
    by (simp add: enc_batch_def enc_batch_body_def meta_batch_def)
  have n: "length es < 2 ^ 26" using assms(2) by (simp add: batch_ok_def meta_batch_def)
  have "yields (rd_offset r + 57) (metadata_records (length es) (rd_offset r + length (enc_batch ?b)) acc)
      ?recs (fold collect es acc)"
    using assms(1) n h57 by (intro yields_metadata_records) simp_all
  then have "metadata_records (length es) (rd_offset r + length (enc_batch ?b)) acc (advance 57 r) =
      (fold collect es acc, advance (length ?recs) (advance 57 r))"
    using assms(3) h57 by (intro yieldsD [where ext = ext]) simp_all
  moreover have "metadata_batch_header r =
      Inr ((rd_offset r + length (enc_batch ?b), word_of_nat (length es)), advance 57 r)"
    using metadata_batch_header_enc [OF assms(2,3)] by (simp add: meta_batch_def)
  moreover have "kRecordBatchHeaderSize \<le> remaining r"
    using h57 assms(3) by (simp add: kRecordBatchHeaderSize_def remaining_eq)
  ultimately show ?thesis
    using n h57 by (subst metadata_scan.simps) (simp add: sint_word_of_nat)
qed

lemma metadata_scan_log:
  assumes "meta_log_ok bs" and "rest r = enc_meta_log bs @ ext" and "length ext < 57"
  shows "metadata_scan acc r = fold collect (concat (map snd bs)) acc"
  using assms
proof (induction bs arbitrary: acc r)
  case Nil
  then show ?case
    by (subst metadata_scan.simps) (simp add: enc_meta_log_def kRecordBatchHeaderSize_def remaining_eq)
next
  case (Cons b bs)
  obtain hdr es where b: "b = (hdr, es)" by fastforce
  have "metadata_scan acc r =
      metadata_scan (fold collect es acc) (advance (length (enc_batch (meta_batch hdr es))) r)"
    using Cons.prems b by (intro metadata_scan_batch [where ext = "enc_meta_log bs @ ext"])
      (simp_all add: meta_log_ok_def enc_meta_log_def)
  also have "\<dots> = fold collect (concat (map snd bs)) (fold collect es acc)"
    using Cons b by (intro Cons.IH) (simp_all add: meta_log_ok_def enc_meta_log_def)
  finally show ?case by (simp add: b)
qed

text \<open>The topic and partition records of a log, in order.\<close>

definition log_records :: "(record_batch \<times> meta_entry list) list \<Rightarrow> raw_records" where
  "log_records bs = fold collect (concat (map snd bs)) \<lparr>raw_topics = [], raw_partitions = []\<rparr>"

lemma parse_cluster_metadata_log:
  assumes "meta_log_ok bs" and "length ext < 57"
  shows "parse_cluster_metadata (enc_meta_log bs @ ext) = Inr (build_metadata (log_records bs))"
  unfolding parse_cluster_metadata_def log_records_def
  using metadata_scan_log [OF assms(1) _ assms(2), of "ByteReader (enc_meta_log bs @ ext)"] by simp

end
