(* ===== verification/Server.thy ===== *)
theory Server
  imports Reactor_Invariant Config Metadata_Log
begin

text \<open>
  The running server: the listening socket of \<open>src/src/net/server.cpp\<close>, the construction of the
  reactors, and \<open>main\<close>, which starts one reactor per thread over one shared coordinator and the
  queues between the reactors.

  A step of the server is a step of one reactor: one event of \<open>epoll_wait\<close>, one forwarded request
  or response taken off a queue, one completion of the ring, or one file write that the kernel
  performs for it. Apart from popping from its own queues, of which it is the only consumer, and from
  the files, a step does at most one operation on a shared object, under the mutex of that object: a
  call of the coordinator for a request without a partition, or a push to the queue of another
  reactor. The file operations of one request are one step, so steps of different reactors are
  taken to interleave on a file only between requests. An exception that leaves a handler ends the process, so it has no step.
\<close>

section \<open>The listening socket\<close>

text \<open>The answers of the system calls of \<open>Server::create\<close>, and \<open>errno\<close> where it is read.\<close>

record create_answers =
  ca_socket :: int32_t
  ca_reuseaddr :: int32_t
  ca_reuseport :: int32_t
  ca_bind :: int32_t
  ca_listen :: int32_t
  ca_errno :: "nat \<Rightarrow> int"

text \<open>The second component is the list of the open descriptors.\<close>

definition Server_create :: "create_answers \<Rightarrow> int32_t list \<Rightarrow> (int + int32_t) \<times> int32_t list" where
  "Server_create a fds =
     (let fd = ca_socket a in
      if fd <s 0 then (Inl (ca_errno a 0), fds)
      else if ca_reuseaddr a <s 0 then (Inl (ca_errno a 1), removeAll fd (fd # fds))
      else if ca_reuseport a <s 0 then (Inl (ca_errno a 2), removeAll fd (fd # fds))
      else if ca_bind a \<noteq> 0 then (Inl (ca_errno a 3), removeAll fd (fd # fds))
      else if ca_listen a \<noteq> 0 then (Inl (ca_errno a 4), removeAll fd (fd # fds))
      else (Inr fd, fd # fds))"

text \<open>A \<open>Server\<close> object is its descriptor. Taking the descriptor leaves -1 behind, which the
  destructor does not close.\<close>

definition take_fd :: "int32_t \<Rightarrow> int32_t \<times> int32_t" where
  "take_fd server_fd = (server_fd, - 1)"

definition Server_destroy :: "int32_t \<Rightarrow> int32_t list \<Rightarrow> int32_t list" where
  "Server_destroy server_fd fds = (if 0 \<le>s server_fd then removeAll server_fd fds else fds)"

text \<open>Moving a \<open>Server\<close>: the source is left with -1, and a target that is assigned to closes its own
  descriptor first, unless both are the same object. A pair is the target and the source
  afterwards.\<close>

definition Server_move :: "int32_t \<Rightarrow> int32_t \<times> int32_t" where
  "Server_move other = (other, - 1)"

definition Server_move_assign ::
    "bool \<Rightarrow> int32_t \<Rightarrow> int32_t \<Rightarrow> int32_t list \<Rightarrow> (int32_t \<times> int32_t) \<times> int32_t list" where
  "Server_move_assign same this other fds =
     (if same then ((this, other), fds)
      else ((other, - 1), if 0 \<le>s this then removeAll this fds else fds))"

definition Server_accept :: "int32_t \<Rightarrow> int \<Rightarrow> int + int32_t" where
  "Server_accept client_fd errno = (if client_fd <s 0 then Inl errno else Inr client_fd)"

text \<open>Creating the socket either yields one open descriptor or leaves none behind.\<close>

lemma Server_create_descriptors:
  assumes "ca_socket a \<notin> set fds"
  shows "case Server_create a fds of
      (Inl _, fds') \<Rightarrow> fds' = fds
    | (Inr fd, fds') \<Rightarrow> fd = ca_socket a \<and> 0 \<le>s fd \<and> fds' = fd # fds"
  using assms by (auto simp: Server_create_def Let_def word_sless_alt word_sle_eq)

text \<open>A descriptor has one owner: after a move the destructors of both objects close what the two held
  before, each descriptor once.\<close>

lemma Server_move_owner:
  "Server_move other = (this, other') \<Longrightarrow> Server_destroy other' (Server_destroy this fds) = Server_destroy other fds"
  by (auto simp: Server_move_def Server_destroy_def word_sle_eq)

lemma Server_move_assign_owner:
  assumes "Server_move_assign False this other fds = ((this', other'), fds')"
  shows "Server_destroy other' (Server_destroy this' fds') = Server_destroy other (Server_destroy this fds)"
  using assms by (auto simp: Server_move_assign_def Server_destroy_def word_sle_eq)

text \<open>The constructor of a reactor takes the descriptor out of the \<open>Server\<close>, which then goes away: the
  descriptor stays open.\<close>

lemma taken_fd_survives: "take_fd fd = (fd', server_fd) \<Longrightarrow> fd' = fd \<and> Server_destroy server_fd fds = fds"
  by (auto simp: take_fd_def Server_destroy_def word_sle_eq)

section \<open>Starting the reactors\<close>

text \<open>
  The environment of a constructor. \<open>server_fd_\<close> has no initializer, so before the socket exists
  it holds an arbitrary value.
\<close>

record start_answers =
  st_epoll :: int32_t
  st_create :: create_answers
  st_eventfd :: int32_t
  st_uninitialized :: int32_t

definition reactor_handler :: "Config \<Rightarrow> ClusterMetadata \<Rightarrow> RecordHandler" where
  "reactor_handler c meta =
     \<lparr>rh_log_root = cf_log_root c, rh_segment_bytes = cf_segment_bytes c, rh_ring = True, rh_metadata = meta\<rparr>"

definition new_reactor ::
    "start_answers \<Rightarrow> (string \<Rightarrow> uint64_t) \<Rightarrow> Config \<Rightarrow> ClusterMetadata \<Rightarrow> GroupCoordinator \<Rightarrow> os_state
      \<Rightarrow> ShardRouter       \<Rightarrow> CrossReactorQueues list \<Rightarrow> size_t \<Rightarrow> ReactorConfig \<times> WorkerReactor" where
  "new_reactor sa hash c meta coordinator os router queues i =
     (let cfg = \<lparr>rc_reactor_id = i, rc_hash = hash, rc_router = router,
                 rc_handler = reactor_handler c meta,
                 rc_max_message_bytes = cf_max_message_bytes c,
                 rc_max_write_buffer_bytes = cf_max_write_buffer_bytes c,
                 rc_server_fd = st_uninitialized sa, rc_wakeup_fd = - 1\<rparr>;
          r = \<lparr>wr_connections = (\<lambda>_. None),
               wr_broker = \<lparr>bk_store = \<lparr>ls_contexts = (\<lambda>_. None), ls_os = os\<rparr>,
                            bk_coordinator = coordinator\<rparr>,
               wr_queues = queues, wr_metrics = new_metrics,
               wr_kernel = \<lparr>kn_socks = (\<lambda>_. None), kn_interest = (\<lambda>_. None), kn_splices = []\<rparr>\<rparr>
      in case fst (Server_create (st_create sa) []) of
           Inl _ \<Rightarrow> (cfg, r)
         | Inr server \<Rightarrow>
             (let cfg1 = cfg\<lparr>rc_server_fd := fst (take_fd server)\<rparr> in
              if st_epoll sa <s 0 then (cfg1, r)
              else
                (let cfg2 = cfg1\<lparr>rc_wakeup_fd := st_eventfd sa\<rparr> in
                 if 0 \<le>s st_eventfd sa
                 then (cfg2, r\<lparr>wr_queues := queues[i := set_wakeup_fd (st_eventfd sa) (queues ! i)]\<rparr>)
                 else (cfg2, r))))"

text \<open>
  The destructor: it closes every connection, drops the contexts, and closes the three descriptors of
  the reactor itself; the registrations go with the epoll descriptor. The list holds the open
  descriptors. A context has no destructor of its own, so the descriptors of its segments stay in
  the table of the process.
\<close>

definition close_if_open :: "int32_t \<Rightarrow> int32_t list \<Rightarrow> int32_t list" where
  "close_if_open fd fds = (if 0 \<le>s fd then removeAll fd fds else fds)"

definition destroy_reactor ::
    "int32_t \<Rightarrow> ReactorConfig \<Rightarrow> WorkerReactor \<Rightarrow> int32_t list \<Rightarrow> WorkerReactor \<times> int32_t list" where
  "destroy_reactor epoll_fd cfg r fds =
     (let k = wr_kernel r; b = wr_broker r
      in (r\<lparr>wr_kernel := k\<lparr>kn_socks := (\<lambda>fd. if wr_connections r fd = None then kn_socks k fd else None),
                           kn_interest := (\<lambda>_. None)\<rparr>,
           wr_broker := b\<lparr>bk_store := (bk_store b)\<lparr>ls_contexts := (\<lambda>_. None)\<rparr>\<rparr>\<rparr>,
          close_if_open (rc_wakeup_fd cfg) (close_if_open (rc_server_fd cfg) (close_if_open epoll_fd
            (filter (\<lambda>fd. wr_connections r fd = None) fds)))))"

lemma set_close_if_open: "set (close_if_open fd fds) = {x \<in> set fds. \<not> (0 \<le>s fd \<and> x = fd)}"
  by (auto simp: close_if_open_def)

text \<open>No socket and no descriptor of the reactor stays open.\<close>

lemma destroy_reactor_closes:
  assumes "dom (kn_socks (wr_kernel r)) \<subseteq> dom (wr_connections r)"
    and "\<And>fd. fd \<in> set fds \<Longrightarrow> wr_connections r fd \<noteq> None \<or> 0 \<le>s fd \<and> fd \<in> {epoll_fd, rc_server_fd cfg, rc_wakeup_fd cfg}"
    and "destroy_reactor epoll_fd cfg r fds = (r', fds')"
  shows "kn_socks (wr_kernel r') = (\<lambda>_. None)" and "fds' = []"
proof -
  have "kn_socks (wr_kernel r) fd = None" if "wr_connections r fd = None" for fd
    using assms(1) that by (auto simp: dom_def subset_iff)
  then show "kn_socks (wr_kernel r') = (\<lambda>_. None)"
    using assms(3) by (auto simp: destroy_reactor_def Let_def fun_eq_iff)
  have "fd \<notin> set fds'" for fd
    using assms(2) [of fd] assms(3) by (auto simp: destroy_reactor_def set_close_if_open Let_def)
  then show "fds' = []" by (cases fds') auto
qed

text \<open>When the listening socket could not be created, \<open>server_fd_\<close> still holds the arbitrary value, and
  the destructor closes that descriptor, whoever opened it.\<close>

lemma destroy_closes_foreign_descriptor:
  assumes "fst (Server_create (st_create sa) []) = Inl errno" and "0 \<le>s st_uninitialized sa"
    and "new_reactor sa hash c meta co os router qs i = (cfg, r)"
  shows "st_uninitialized sa \<notin> set (snd (destroy_reactor (st_epoll sa) cfg r fds))"
  using assms by (auto simp: new_reactor_def destroy_reactor_def close_if_open_def Let_def)

text \<open>All reactors with what they share: the coordinator, the queues, and the files and descriptors of the
  process. A constructor writes to the queues of its own reactor only.\<close>

record server =
  sv_reactors :: "WorkerReactor list"
  sv_coordinator :: GroupCoordinator
  sv_queues :: "CrossReactorQueues list"
  sv_os :: os_state

text \<open>\<open>main\<close>: the configuration, the metadata, and one reactor per thread.\<close>

definition start_server ::
    "(nat \<Rightarrow> start_answers) \<Rightarrow> (string \<Rightarrow> uint64_t) \<Rightarrow> Config \<Rightarrow> os_state \<Rightarrow> bytes option \<Rightarrow> ReactorConfig list \<times> server" where
  "start_server sas hash c os metadata_file =
     (let n = cf_reactor_count c;
          meta = parse_cluster_metadata_file metadata_file;
          router = \<lparr>sr_reactor_count = word_of_nat n\<rparr>;
          built = map (\<lambda>i. new_reactor (sas i) hash c meta new_coordinator os router (replicate n new_queues) i) [0..<n]
      in (map fst built,
          \<lparr>sv_reactors = map snd built, sv_coordinator = new_coordinator,
           sv_queues = map (\<lambda>i. wr_queues (snd (built ! i)) ! i) [0..<n], sv_os = os\<rparr>))"

section \<open>Steps of the server\<close>

text \<open>What a reactor sees: its own part and what is shared; and the shared part after its step.\<close>

definition reactor_view :: "nat \<Rightarrow> server \<Rightarrow> WorkerReactor" where
  "reactor_view i s =
     (let r = sv_reactors s ! i; st = bk_store (wr_broker r)
      in r\<lparr>wr_queues := sv_queues s,
           wr_broker := \<lparr>bk_store = st\<lparr>ls_os := sv_os s\<rparr>, bk_coordinator = sv_coordinator s\<rparr>\<rparr>)"

definition put_reactor :: "nat \<Rightarrow> WorkerReactor \<Rightarrow> server \<Rightarrow> server" where
  "put_reactor i r s =
     \<lparr>sv_reactors = (sv_reactors s)[i := r], sv_coordinator = bk_coordinator (wr_broker r),
      sv_queues = wr_queues r, sv_os = ls_os (bk_store (wr_broker r))\<rparr>"

text \<open>The request an event completes, if it does.\<close>

definition event_request :: "ReactorConfig \<Rightarrow> reactor_event \<Rightarrow> WorkerReactor \<Rightarrow> Request option" where
  "event_request cfg ev r =
     (if ev_fd ev = rc_server_fd cfg \<or> ev_fd ev = rc_wakeup_fd cfg \<or>
         ev_events ev AND (EPOLLERR OR EPOLLHUP) \<noteq> 0 \<or> ev_events ev AND EPOLLIN = 0
      then None
      else
        (case read_frame (ev_recv ev) cfg (ev_fd ev) r of
           Return _ \<Rightarrow> None
         | Continue r' \<Rightarrow>
             (case parse_request (drop 4 (cn_read_buf (conn_at r' (ev_fd ev)))) of
                Inl _ \<Rightarrow> None
              | Inr req \<Rightarrow> Some req)))"

text \<open>The kernel completes one of the file writes submitted to the rings.\<close>

definition finish_file_write :: "nat \<Rightarrow> server \<Rightarrow> server" where
  "finish_file_write k s = s\<lparr>sv_os := complete_write k (sv_os s)\<rparr>"

text \<open>A step, with the requests received from clients in it.\<close>

inductive server_step :: "ReactorConfig list \<Rightarrow> server \<Rightarrow> Request list \<Rightarrow> server \<Rightarrow> bool"
  for cfgs :: "ReactorConfig list" where
  step_event: "i < length cfgs \<Longrightarrow> event_possible (cfgs ! i) ev (reactor_view i s) \<Longrightarrow>
    dispatch_event (cfgs ! i) ev (reactor_view i s) = Inr r \<Longrightarrow>
    server_step cfgs s (case event_request (cfgs ! i) ev (reactor_view i s) of None \<Rightarrow> [] | Some req \<Rightarrow> [req])
      (put_reactor i r s)"
| step_request: "i < length cfgs \<Longrightarrow> drain_request e (cfgs ! i) (reactor_view i s) = Some (Inr r) \<Longrightarrow>
    server_step cfgs s [] (put_reactor i r s)"
| step_response: "i < length cfgs \<Longrightarrow> drain_response (cfgs ! i) (reactor_view i s) = Some r \<Longrightarrow>
    server_step cfgs s [] (put_reactor i r s)"
| step_completion: "i < length cfgs \<Longrightarrow>
    server_step cfgs s [] (put_reactor i (harvest_one cqe (reactor_view i s)) s)"
| step_file_write: "server_step cfgs s [] (finish_file_write k s)"

inductive server_run :: "ReactorConfig list \<Rightarrow> server \<Rightarrow> Request list \<Rightarrow> server \<Rightarrow> bool"
  for cfgs :: "ReactorConfig list" where
  run_start: "server_run cfgs s [] s"
| run_next: "server_run cfgs s reqs s' \<Longrightarrow> server_step cfgs s' new s'' \<Longrightarrow> server_run cfgs s (reqs @ new) s''"

inductive_cases server_stepE: "server_step cfgs s reqs s'"

section \<open>What a step changes outside its connection\<close>

lemma advance_write_queue_shared [simp]:
  "wr_broker (advance_write_queue fd r) = wr_broker r" "wr_queues (advance_write_queue fd r) = wr_queues r"
  by (simp_all add: advance_write_queue_def Let_def split: list.splits)

lemma close_connection_shared [simp]:
  "wr_broker (close_connection fd r) = wr_broker r" "wr_queues (close_connection fd r) = wr_queues r"
  by (simp_all add: close_connection_def)

lemma handle_write_shared [simp]:
  "wr_broker (handle_write an sqe fd r) = wr_broker r" "wr_queues (handle_write an sqe fd r) = wr_queues r"
  by (simp_all add: handle_write_def finish_write_def submit_splice_def Let_def split: prod.splits sum.splits)

lemma handle_accept_shared [simp]:
  "wr_broker (handle_accept a r) = wr_broker r" "wr_queues (handle_accept a r) = wr_queues r"
  by (simp_all add: handle_accept_def)

lemma harvest_one_shared [simp]:
  "wr_broker (harvest_one cqe r) = wr_broker r" "wr_queues (harvest_one cqe r) = wr_queues r"
  by (simp_all add: harvest_one_def Let_def split: option.splits)

lemma deliver_response_broker [simp]: "wr_broker (deliver_response resp r) = wr_broker r"
  by (simp add: deliver_response_def Let_def split: option.splits)

text \<open>The reactor a request with a partition belongs to.\<close>

definition request_owner :: "ReactorConfig \<Rightarrow> Request \<Rightarrow> nat option" where
  "request_owner cfg req =
     (case extract_partition_key req (rh_metadata (rc_handler cfg)) of
        None \<Rightarrow> None
      | Some key \<Rightarrow> map_option unat (route (rc_hash cfg) (rc_router cfg) (pk_topic key) (pk_partition key)))"

definition forwarded :: "ReactorConfig \<Rightarrow> int32_t \<Rightarrow> Request \<Rightarrow> ForwardedRequest" where
  "forwarded cfg fd req =
     \<lparr>fq_client_fd = fd, fq_source_reactor_id = word_of_nat (rc_reactor_id cfg), fq_request = req\<rparr>"

text \<open>
  What receiving a request does to the broker and the queues: it is handled here, and then it
  belongs here or to no reactor in particular, or it is handed to its owner.
\<close>

definition request_effect :: "ReactorConfig \<Rightarrow> Request \<Rightarrow> WorkerReactor \<Rightarrow> WorkerReactor \<Rightarrow> bool" where
  "request_effect cfg req r r' \<longleftrightarrow>
     (wr_queues r' = wr_queues r \<and> request_owner cfg req \<in> {None, Some (rc_reactor_id cfg)} \<and>
        (\<exists>e resp. handle (rc_handler cfg) e req (wr_broker r) = (Inr resp, wr_broker r'))) \<or>
     (\<exists>target fd. request_owner cfg req = Some target \<and> target \<noteq> rc_reactor_id cfg \<and>
        wr_broker r' = wr_broker r \<and> target < length (wr_queues r) \<and>
        wr_queues r' = (wr_queues r)[target := push_request (forwarded cfg fd req) (wr_queues r ! target)])"

lemma answer_locally_effect:
  assumes "answer_locally e cfg fd req r = Inr r'"
  shows "wr_queues r' = wr_queues r \<and> (\<exists>resp. handle (rc_handler cfg) e req (wr_broker r) = (Inr resp, wr_broker r'))"
  using assms by (auto simp: answer_locally_def Let_def split: prod.splits sum.splits option.splits if_splits)

lemma forward_request_effect:
  assumes "forward_request fd target cfg req r = Inr r'"
  shows "wr_broker r' = wr_broker r \<and> target < length (wr_queues r) \<and>
    wr_queues r' = (wr_queues r)[target := push_request (forwarded cfg fd req) (wr_queues r ! target)]"
  using assms by (auto simp: forward_request_def forwarded_def Let_def split: if_splits)

lemma process_request_effect:
  assumes "process_request e cfg fd r = Inr r'"
  shows "case parse_request (drop 4 (cn_read_buf (conn_at r fd))) of
      Inl _ \<Rightarrow> wr_broker r' = wr_broker r \<and> wr_queues r' = wr_queues r
    | Inr req \<Rightarrow> request_effect cfg req r r'"
proof (cases "parse_request (drop 4 (cn_read_buf (conn_at r fd)))")
  case (Inl err)
  then show ?thesis using assms by (auto simp: process_request_def)
next
  case (Inr req)
  with assms have "(request_owner cfg req \<in> {None, Some (rc_reactor_id cfg)} \<and> answer_locally e cfg fd req r = Inr r') \<or>
      (\<exists>target. request_owner cfg req = Some target \<and> target \<noteq> rc_reactor_id cfg \<and>
        forward_request fd target cfg req r = Inr r')"
    by (auto simp: process_request_def request_owner_def split: option.splits if_splits)
  then have "request_effect cfg req r r'"
    unfolding request_effect_def by (metis answer_locally_effect forward_request_effect)
  with Inr show ?thesis by simp
qed

text \<open>An event changes the broker and the queues only through the request it completes; the counter
  of the event descriptor aside.\<close>

definition same_messages :: "CrossReactorQueues list \<Rightarrow> CrossReactorQueues list \<Rightarrow> bool" where
  "same_messages qs qs' \<longleftrightarrow>
     map cq_requests qs' = map cq_requests qs \<and> map cq_responses qs' = map cq_responses qs"

lemma clear_wakeup_messages: "same_messages (wr_queues r) (wr_queues (clear_wakeup cfg r))"
  unfolding same_messages_def clear_wakeup_def
  by (cases "rc_reactor_id cfg < length (wr_queues r)") (auto simp: list_eq_iff_nth_eq nth_list_update)

lemma dispatch_event_effect:
  assumes "reactor_ok cfg r" and "dispatch_event cfg ev r = Inr r'"
  shows "case event_request cfg ev r of
      None \<Rightarrow> wr_broker r' = wr_broker r \<and> same_messages (wr_queues r) (wr_queues r')
    | Some req \<Rightarrow> request_effect cfg req r r'"
proof (cases "ev_fd ev = rc_server_fd cfg \<or> ev_fd ev = rc_wakeup_fd cfg \<or>
    ev_events ev AND (EPOLLERR OR EPOLLHUP) \<noteq> 0 \<or> ev_events ev AND EPOLLIN = 0")
  case True
  then have "event_request cfg ev r = None" by (simp add: event_request_def)
  moreover have "wr_broker r' = wr_broker r \<and> same_messages (wr_queues r) (wr_queues r')"
    using assms(2) True clear_wakeup_messages [of r cfg]
    by (auto simp: dispatch_event_def same_messages_def clear_wakeup_def split: if_splits)
  ultimately show ?thesis by simp
next
  case False
  then obtain r1 where h: "handle_read (ev_recv ev) (ev_env ev) cfg (ev_fd ev) r = Inr r1"
    and r': "wr_broker r' = wr_broker r1" "wr_queues r' = wr_queues r1"
    using assms(2) by (auto simp: dispatch_event_def split: sum.splits if_splits)
  from assms(1) show ?thesis
  proof (cases rule: read_frame_cases [of cfg r "ev_recv ev" "ev_fd ev"])
    case (closed r2)
    with h r' False show ?thesis
      by (auto simp: handle_read_def event_request_def same_messages_def stagedD(3,4) [OF closed(2)])
  next
    case (waiting r2)
    with h r' False show ?thesis
      by (auto simp: handle_read_def event_request_def same_messages_def dest: stagedD(3,4))
  next
    case (request r2)
    with h have "process_request (ev_env ev) cfg (ev_fd ev) r2 = Inr r1" by (simp add: handle_read_def)
    from process_request_effect [OF this] show ?thesis
      using request(1) r' False
      by (auto simp: event_request_def same_messages_def request_effect_def stagedD(3,4) [OF request(2)]
          split: sum.splits)
  qed
qed

text \<open>Draining a request: what was popped, how it was answered, and where the answer went.\<close>

lemma drain_request_effect:
  assumes "drain_request e cfg r = Some (Inr r')" and "rc_reactor_id cfg < length (wr_queues r)"
  obtains fwd q resp buf out where
    "cq_requests (wr_queues r ! rc_reactor_id cfg) = fwd # cq_requests q"
    "cq_responses q = cq_responses (wr_queues r ! rc_reactor_id cfg)"
    "handle (rc_handler cfg) e (fq_request fwd) (wr_broker r) = (Inr resp, wr_broker r')"
    "serialize resp = Some buf" "fs_data out = buf" "fs_client_fd out = fq_client_fd fwd"
    "unat (fq_source_reactor_id fwd) < length (wr_queues r)"
    "wr_queues r' = (let qs = (wr_queues r)[rc_reactor_id cfg := q]; src = unat (fq_source_reactor_id fwd)
       in qs[src := push_response out (qs ! src)])"
    "wr_connections r' = wr_connections r" "wr_kernel r' = wr_kernel r"
proof -
  obtain fwd q where pop: "try_pop_request (wr_queues r ! rc_reactor_id cfg) = Some (fwd, q)"
    using assms by (auto simp: drain_request_def split: option.splits)
  obtain resp b where h: "handle (rc_handler cfg) e (fq_request fwd) (wr_broker r) = (Inr resp, b)"
    using assms pop by (auto simp: drain_request_def split: prod.splits sum.splits)
  obtain buf where s: "serialize resp = Some buf"
    using assms pop h by (auto simp: drain_request_def split: option.splits)
  obtain sfd slen where sp: "(case last_splice resp of None \<Rightarrow> (- 1, 0) | Some p \<Rightarrow> p) = (sfd, slen)"
    by (cases "case last_splice resp of None \<Rightarrow> (- 1, 0) | Some p \<Rightarrow> p") auto
  show thesis
    by (rule that [of fwd q resp buf "\<lparr>fs_client_fd = fq_client_fd fwd, fs_data = buf, fs_splice_fd = sfd, fs_splice_len = slen\<rparr>"])
      (use assms pop h s sp requests.pop_some [OF pop] pop_other_queue(1) [OF pop]
        in \<open>auto simp: drain_request_def Let_def split: if_splits\<close>)
qed

section \<open>The invariant of the server\<close>

text \<open>All reactors have the same routing, and every reactor knows its position.\<close>

definition configs_ok :: "ReactorConfig list \<Rightarrow> bool" where
  "configs_ok cfgs \<longleftrightarrow>
     0 < length cfgs \<and> length cfgs < 2 ^ 64 \<and>
     (\<forall>i<length cfgs. rc_reactor_id (cfgs ! i) = i \<and>
        rc_router (cfgs ! i) = \<lparr>sr_reactor_count = word_of_nat (length cfgs)\<rparr> \<and>
        rc_hash (cfgs ! i) = rc_hash (cfgs ! 0) \<and>
        rh_metadata (rc_handler (cfgs ! i)) = rh_metadata (rc_handler (cfgs ! 0)))"

text \<open>The queues of a reactor: answers are frames, and requests belong to this reactor and came from
  one that exists.\<close>

definition queue_ok :: "ReactorConfig list \<Rightarrow> nat \<Rightarrow> CrossReactorQueues \<Rightarrow> bool" where
  "queue_ok cfgs i q \<longleftrightarrow>
     (\<forall>x\<in>set (cq_responses q). fs_data x \<noteq> []) \<and>
     (\<forall>f\<in>set (cq_requests q). unat (fq_source_reactor_id f) < length cfgs \<and>
        request_owner (cfgs ! i) (fq_request f) = Some i)"

definition queues_ok :: "ReactorConfig list \<Rightarrow> CrossReactorQueues list \<Rightarrow> bool" where
  "queues_ok cfgs qs \<longleftrightarrow> length qs = length cfgs \<and> (\<forall>i<length cfgs. queue_ok cfgs i (qs ! i))"

definition server_ok :: "ReactorConfig list \<Rightarrow> server \<Rightarrow> bool" where
  "server_ok cfgs s \<longleftrightarrow>
     length (sv_reactors s) = length cfgs \<and> queues_ok cfgs (sv_queues s) \<and>
     (\<forall>i<length cfgs. reactor_ok (cfgs ! i) (sv_reactors s ! i))"

lemma unat_reactor_index: "n < 2 ^ 64 \<Longrightarrow> unat (word_of_nat n :: uint64_t) = n"
  by (simp add: unsigned_of_nat take_bit_nat_eq_self)

lemma configs_okD:
  assumes "configs_ok cfgs" and "i < length cfgs"
  shows "rc_reactor_id (cfgs ! i) = i" "unat (word_of_nat i :: uint64_t) = i"
    "sr_reactor_count (rc_router (cfgs ! i)) = word_of_nat (length cfgs)"
  using assms by (auto simp: configs_ok_def intro: unat_reactor_index)

lemma request_owner_same:
  assumes "configs_ok cfgs" and "i < length cfgs" and "j < length cfgs"
  shows "request_owner (cfgs ! i) req = request_owner (cfgs ! j) req"
proof -
  have "rc_router (cfgs ! i) = rc_router (cfgs ! j)" "rc_hash (cfgs ! i) = rc_hash (cfgs ! j)"
    "rh_metadata (rc_handler (cfgs ! i)) = rh_metadata (rc_handler (cfgs ! j))"
    using assms unfolding configs_ok_def by metis+
  then show ?thesis unfolding request_owner_def by (simp split: option.split)
qed

lemma request_owner_range:
  assumes "configs_ok cfgs" and "i < length cfgs" and "request_owner (cfgs ! i) req = Some target"
  shows "target < length cfgs"
proof -
  have n: "0 < length cfgs" "unat (word_of_nat (length cfgs) :: uint64_t) = length cfgs"
    using assms(1) by (auto simp: configs_ok_def intro: unat_reactor_index)
  from assms(3) obtain h where "target = unat (h mod (word_of_nat (length cfgs) :: uint64_t))"
    by (auto simp: request_owner_def route_def configs_okD [OF assms(1,2)] split: option.splits if_splits)
  with n show ?thesis by (simp add: unat_mod)
qed

lemma reactor_view_ok [simp]: "reactor_ok cfg (reactor_view i s) = reactor_ok cfg (sv_reactors s ! i)"
  by (simp add: reactor_view_def reactor_ok_def Let_def)

lemma reactor_view_queues [simp]: "wr_queues (reactor_view i s) = sv_queues s"
  by (simp add: reactor_view_def Let_def)

lemma server_ok_put:
  assumes "server_ok cfgs s" and "i < length cfgs" and "reactor_ok (cfgs ! i) r" and "queues_ok cfgs (wr_queues r)"
  shows "server_ok cfgs (put_reactor i r s)"
  using assms by (auto simp: server_ok_def put_reactor_def nth_list_update)

lemma queues_ok_messages:
  assumes "queues_ok cfgs qs" and "same_messages qs qs'"
  shows "queues_ok cfgs qs'"
proof -
  have "cq_requests (qs' ! i) = cq_requests (qs ! i)" "cq_responses (qs' ! i) = cq_responses (qs ! i)"
    if "i < length qs" for i
    using assms(2) that unfolding same_messages_def by (metis length_map nth_map)+
  moreover have "length qs' = length qs" using assms(2) unfolding same_messages_def by (metis length_map)
  ultimately show ?thesis using assms(1) by (simp add: queues_ok_def queue_ok_def)
qed

lemma queues_ok_update:
  assumes "queues_ok cfgs qs" and "j < length cfgs \<Longrightarrow> queue_ok cfgs j q"
  shows "queues_ok cfgs (qs[j := q])"
  unfolding queues_ok_def
proof (intro conjI allI impI)
  fix i assume "i < length cfgs"
  then show "queue_ok cfgs i (qs[j := q] ! i)" using assms by (cases "i = j") (simp_all add: queues_ok_def)
qed (use assms(1) in \<open>simp add: queues_ok_def\<close>)

lemma queue_ok_push_request:
  assumes "queue_ok cfgs j q" and "unat (fq_source_reactor_id f) < length cfgs"
    and "request_owner (cfgs ! j) (fq_request f) = Some j"
  shows "queue_ok cfgs j (push_request f q)"
  using assms by (auto simp: queue_ok_def requests.push_held)

lemma queue_ok_push_response:
  "queue_ok cfgs j q \<Longrightarrow> fs_data x \<noteq> [] \<Longrightarrow> queue_ok cfgs j (push_response x q)"
  by (auto simp: queue_ok_def responses.push_held)

lemma request_effect_queues:
  assumes "configs_ok cfgs" and "i < length cfgs" and "queues_ok cfgs (wr_queues r)"
    and "request_effect (cfgs ! i) req r r'"
  shows "queues_ok cfgs (wr_queues r')"
proof -
  note id = configs_okD(1,2) [OF assms(1,2)]
  consider "wr_queues r' = wr_queues r"
    | target fd where "request_owner (cfgs ! i) req = Some target" "target < length (wr_queues r)"
      "wr_queues r' = (wr_queues r)[target := push_request (forwarded (cfgs ! i) fd req) (wr_queues r ! target)]"
    using assms(4) unfolding request_effect_def by blast
  then show ?thesis
  proof cases
    case 2
    have "queue_ok cfgs target (push_request (forwarded (cfgs ! i) fd req) (wr_queues r ! target))"
      if "target < length cfgs"
      using 2(1) that assms(2,3) id request_owner_same [OF assms(1) that assms(2)]
      by (intro queue_ok_push_request) (simp_all add: forwarded_def queues_ok_def)
    then show ?thesis unfolding 2(3) by (intro queues_ok_update assms(3))
  qed (use assms(3) in simp)
qed

lemma drain_request_ok:
  assumes "configs_ok cfgs" and "i < length cfgs" and "queues_ok cfgs (wr_queues r)"
    and "drain_request e (cfgs ! i) r = Some (Inr r')"
  shows "queues_ok cfgs (wr_queues r')"
proof -
  note id = configs_okD(1) [OF assms(1,2)]
  have "rc_reactor_id (cfgs ! i) < length (wr_queues r)" using assms(2,3) id by (simp add: queues_ok_def)
  with assms(4) show ?thesis
  proof (cases rule: drain_request_effect)
    case (1 fwd q resp buf out)
    have "queue_ok cfgs i q" using 1(1,2) assms(2,3) id by (auto simp: queues_ok_def queue_ok_def)
    then have qs: "queues_ok cfgs ((wr_queues r)[i := q])" by (intro queues_ok_update assms(3))
    have "fs_data out \<noteq> []" using 1(4,5) serialize_not_Nil by simp
    with qs show ?thesis
      unfolding 1(8) Let_def id
      by (intro queues_ok_update [OF qs] queue_ok_push_response) (simp_all add: queues_ok_def)
  qed
qed

lemma drain_response_ok:
  assumes "configs_ok cfgs" and "i < length cfgs" and "queues_ok cfgs (wr_queues r)"
    and "reactor_ok (cfgs ! i) r" and "drain_response (cfgs ! i) r = Some r'"
  shows "queues_ok cfgs (wr_queues r')" and "reactor_ok (cfgs ! i) r'"
proof -
  note id = configs_okD(1) [OF assms(1,2)]
  obtain resp q where pop: "try_pop_response (wr_queues r ! i) = Some (resp, q)"
    and r': "r' = deliver_response resp (r\<lparr>wr_queues := (wr_queues r)[i := q]\<rparr>)"
    using assms(5) id by (auto simp: drain_response_def split: option.splits)
  have q: "queue_ok cfgs i (wr_queues r ! i)" using assms(2,3) by (simp add: queues_ok_def)
  have held: "cq_responses (wr_queues r ! i) = resp # cq_responses q" "cq_requests q = cq_requests (wr_queues r ! i)"
    using responses.pop_some [OF pop] pop_other_queue(2) [OF pop] by simp_all
  then have "queue_ok cfgs i q" "fs_data resp \<noteq> []" using q by (simp_all add: queue_ok_def)
  with assms(3,4) r' show "queues_ok cfgs (wr_queues r')" "reactor_ok (cfgs ! i) r'"
    by (simp_all add: queues_ok_update deliver_response_ok)
qed

lemma server_step_ok:
  assumes "server_step cfgs s reqs s'" and "configs_ok cfgs" and "server_ok cfgs s"
  shows "server_ok cfgs s'"
  using assms(1)
proof (cases rule: server_step.cases)
  case (step_event i ev r)
  have ok: "reactor_ok (cfgs ! i) (reactor_view i s)" "queues_ok cfgs (wr_queues (reactor_view i s))"
    using step_event assms(3) by (simp_all add: server_ok_def)
  from dispatch_event_effect [OF ok(1) step_event(5)] have "queues_ok cfgs (wr_queues r)"
    using request_effect_queues [OF assms(2) step_event(3) ok(2)] queues_ok_messages [OF ok(2)]
    by (auto split: option.splits)
  with dispatch_event_ok [OF ok(1) step_event(4,5)] show ?thesis
    unfolding step_event(2) by (intro server_ok_put assms(3) step_event(3))
next
  case (step_request i e r)
  have ok: "reactor_ok (cfgs ! i) (reactor_view i s)" "queues_ok cfgs (wr_queues (reactor_view i s))"
    using step_request assms(3) by (simp_all add: server_ok_def)
  note id = configs_okD(1) [OF assms(2) step_request(3)]
  have "rc_reactor_id (cfgs ! i) < length (wr_queues (reactor_view i s))"
    using ok(2) step_request(3) id by (simp add: queues_ok_def)
  with step_request(4) have "wr_connections r = wr_connections (reactor_view i s)" "wr_kernel r = wr_kernel (reactor_view i s)"
    by (blast elim: drain_request_effect)+
  with ok(1) have "reactor_ok (cfgs ! i) r" by (simp add: reactor_ok_def)
  with drain_request_ok [OF assms(2) step_request(3) ok(2) step_request(4)] show ?thesis
    unfolding step_request(2) by (intro server_ok_put assms(3) step_request(3))
next
  case (step_response i r)
  have ok: "reactor_ok (cfgs ! i) (reactor_view i s)" "queues_ok cfgs (wr_queues (reactor_view i s))"
    using step_response assms(3) by (simp_all add: server_ok_def)
  note r = drain_response_ok [OF assms(2) step_response(3) ok(2,1) step_response(4)]
  then show ?thesis unfolding step_response(2) by (intro server_ok_put assms(3) step_response(3))
next
  case (step_completion i cqe)
  then have "reactor_ok (cfgs ! i) (reactor_view i s)" "queues_ok cfgs (wr_queues (reactor_view i s))"
    using assms(3) by (simp_all add: server_ok_def)
  then show ?thesis
    unfolding step_completion(2) by (intro server_ok_put assms(3) step_completion(3) harvest_one_ok) simp_all
next
  case (step_file_write k)
  with assms(3) show ?thesis by (simp add: server_ok_def finish_file_write_def)
qed

lemma server_run_ok:
  "server_run cfgs s reqs s' \<Longrightarrow> configs_ok cfgs \<Longrightarrow> server_ok cfgs s \<Longrightarrow> server_ok cfgs s'"
  by (induction rule: server_run.induct) (auto intro: server_step_ok)

section \<open>The start\<close>

lemma new_reactor_config:
  "rc_reactor_id (fst (new_reactor sa hash c meta co os router qs i)) = i"
  "rc_hash (fst (new_reactor sa hash c meta co os router qs i)) = hash"
  "rc_router (fst (new_reactor sa hash c meta co os router qs i)) = router"
  "rc_handler (fst (new_reactor sa hash c meta co os router qs i)) = reactor_handler c meta"
  "rc_max_message_bytes (fst (new_reactor sa hash c meta co os router qs i)) = cf_max_message_bytes c"
  by (simp_all add: new_reactor_def Let_def split: sum.splits)

lemma new_reactor_state:
  "wr_connections (snd (new_reactor sa hash c meta co os router qs i)) = (\<lambda>_. None)"
  "kn_interest (wr_kernel (snd (new_reactor sa hash c meta co os router qs i))) = (\<lambda>_. None)"
  "bk_store (wr_broker (snd (new_reactor sa hash c meta co os router qs i))) = \<lparr>ls_contexts = (\<lambda>_. None), ls_os = os\<rparr>"
  by (simp_all add: new_reactor_def Let_def split: sum.splits)

lemma new_reactor_queue:
  assumes "i < n"
  shows "cq_requests (wr_queues (snd (new_reactor sa hash c meta co os router (replicate n new_queues) i)) ! i) = []"
    and "cq_responses (wr_queues (snd (new_reactor sa hash c meta co os router (replicate n new_queues) i)) ! i) = []"
  using assms by (simp_all add: new_reactor_def Let_def new_queues_def set_wakeup_fd_def split: sum.splits)

lemma length_start_server [simp]: "length (fst (start_server sas hash c os file)) = cf_reactor_count c"
  by (simp add: start_server_def Let_def)

lemma start_configs_ok:
  assumes "0 < cf_reactor_count c" and "cf_reactor_count c < 2 ^ 64"
  shows "configs_ok (fst (start_server sas hash c os file))"
  using assms by (simp add: configs_ok_def start_server_def Let_def new_reactor_config reactor_handler_def)

lemma start_server_ok: "server_ok (fst (start_server sas hash c os file)) (snd (start_server sas hash c os file))"
  by (simp add: server_ok_def queues_ok_def queue_ok_def reactor_ok_def start_server_def Let_def
      new_reactor_state new_reactor_queue)

section \<open>A round of the event loop\<close>

text \<open>The batches of events the kernel can report: each is possible when its turn comes.\<close>

fun events_possible :: "ReactorConfig \<Rightarrow> reactor_event list \<Rightarrow> WorkerReactor \<Rightarrow> bool" where
  "events_possible cfg [] r = True"
| "events_possible cfg (ev # evs) r =
     (event_possible cfg ev r \<and>
      (case dispatch_event cfg ev r of Inl _ \<Rightarrow> True | Inr r' \<Rightarrow> events_possible cfg evs r'))"

definition round_ok :: "ReactorConfig \<Rightarrow> WorkerReactor \<Rightarrow> bool" where
  "round_ok cfg r \<longleftrightarrow>
     reactor_ok cfg r \<and> rc_reactor_id cfg < length (wr_queues r) \<and>
     (\<forall>x\<in>set (cq_responses (wr_queues r ! rc_reactor_id cfg)). fs_data x \<noteq> [])"

lemma dispatch_event_responses:
  assumes "reactor_ok cfg r" and "dispatch_event cfg ev r = Inr r'"
  shows "map cq_responses (wr_queues r') = map cq_responses (wr_queues r)"
proof -
  have "map cq_responses (qs[i := push_request f (qs ! i)]) = map cq_responses qs" if "i < length qs" for qs i f
    using that by (simp add: map_update list_update_same_conv)
  with dispatch_event_effect [OF assms] show ?thesis
    by (auto simp: same_messages_def request_effect_def split: option.splits)
qed

lemma dispatch_event_round:
  assumes "round_ok cfg r" and "event_possible cfg ev r" and "dispatch_event cfg ev r = Inr r'"
  shows "round_ok cfg r'"
proof -
  let ?i = "rc_reactor_id cfg"
  have ok: "reactor_ok cfg r" "?i < length (wr_queues r)" using assms(1) by (simp_all add: round_ok_def)
  note same = dispatch_event_responses [OF ok(1) assms(3)]
  then have "length (wr_queues r') = length (wr_queues r)" by (metis length_map)
  with same ok(2) have "cq_responses (wr_queues r' ! ?i) = cq_responses (wr_queues r ! ?i)" by (metis nth_map)
  with assms(1) \<open>length (wr_queues r') = _\<close> dispatch_event_ok [OF ok(1) assms(2,3)] show ?thesis
    by (simp add: round_ok_def)
qed

lemma dispatch_events_round:
  "round_ok cfg r \<Longrightarrow> events_possible cfg evs r \<Longrightarrow> dispatch_events cfg evs r = Inr r' \<Longrightarrow> round_ok cfg r'"
  by (induction evs arbitrary: r) (auto intro: dispatch_event_round split: sum.splits)

lemma drain_request_round:
  assumes "round_ok cfg r" and "drain_request e cfg r = Some (Inr r')"
  shows "round_ok cfg r'"
proof -
  have id: "rc_reactor_id cfg < length (wr_queues r)" using assms(1) by (simp add: round_ok_def)
  with assms(2) show ?thesis
  proof (cases rule: drain_request_effect)
    case (1 fwd q resp buf out)
    have "fs_data out \<noteq> []" using 1(4,5) serialize_not_Nil by simp
    moreover have "reactor_ok cfg r'" using assms(1) 1(9,10) by (simp add: round_ok_def reactor_ok_def)
    ultimately show ?thesis
      using assms(1) 1(2) id unfolding round_ok_def 1(8) Let_def
      by (cases "unat (fq_source_reactor_id fwd) = rc_reactor_id cfg") (auto simp: responses.push_held)
  qed
qed

lemma drain_requests_round:
  assumes "drain_requests e n cfg r = Inr r'" and "round_ok cfg r"
  shows "round_ok cfg r' \<and> cq_requests (wr_queues r' ! rc_reactor_id cfg) = []"
  using assms
proof (induction e n cfg r rule: drain_requests.induct)
  case (1 e n cfg r)
  have id: "rc_reactor_id cfg < length (wr_queues r)" using 1(3) by (simp add: round_ok_def)
  show ?case
  proof (cases "drain_request (e n) cfg r")
    case None
    then have "cq_requests (wr_queues r ! rc_reactor_id cfg) = []"
      by (auto simp: drain_request_def try_pop_request_def split: option.splits list.splits)
    with 1(2,3) None id show ?thesis by (simp add: drain_requests.simps [of e n cfg r])
  next
    case (Some x)
    with 1(2) id obtain r1 where x: "x = Inr r1" and r1: "drain_requests e (Suc n) cfg r1 = Inr r'"
      by (auto simp: drain_requests.simps [of e n cfg r] split: sum.splits)
    with 1(1) [OF id Some x r1] drain_request_round [OF 1(3)] Some show ?thesis by simp
  qed
qed

lemma drain_response_round:
  assumes "round_ok cfg r" and "drain_response cfg r = Some r'"
  shows "round_ok cfg r' \<and> cq_requests (wr_queues r' ! rc_reactor_id cfg) = cq_requests (wr_queues r ! rc_reactor_id cfg)"
proof -
  let ?i = "rc_reactor_id cfg"
  obtain resp q where pop: "try_pop_response (wr_queues r ! ?i) = Some (resp, q)"
    and r': "r' = deliver_response resp (r\<lparr>wr_queues := (wr_queues r)[?i := q]\<rparr>)"
    using assms(2) by (auto simp: drain_response_def split: option.splits)
  from assms(1) responses.pop_some [OF pop] pop_other_queue(2) [OF pop] show ?thesis
    by (simp add: r' round_ok_def deliver_response_ok)
qed

lemma drain_responses_round:
  assumes "drain_responses cfg r = Inr r'" and "round_ok cfg r"
  shows "round_ok cfg r' \<and> cq_responses (wr_queues r' ! rc_reactor_id cfg) = [] \<and>
    cq_requests (wr_queues r' ! rc_reactor_id cfg) = cq_requests (wr_queues r ! rc_reactor_id cfg)"
  using assms
proof (induction cfg r rule: drain_responses.induct)
  case (1 cfg r)
  have id: "rc_reactor_id cfg < length (wr_queues r)" using 1(3) by (simp add: round_ok_def)
  show ?case
  proof (cases "drain_response cfg r")
    case None
    then have "cq_responses (wr_queues r ! rc_reactor_id cfg) = []"
      by (auto simp: drain_response_def try_pop_response_def split: option.splits list.splits)
    with 1(2,3) None id show ?thesis by (simp add: drain_responses.simps [of cfg r])
  next
    case (Some r1)
    with 1(2) id have "drain_responses cfg r1 = Inr r'" by (simp add: drain_responses.simps [of cfg r])
    with 1(1) [OF id Some this] drain_response_round [OF 1(3) Some] show ?thesis by simp
  qed
qed

lemma harvest_queues [simp]: "wr_queues (harvest_io_completions cqes r) = wr_queues r"
  unfolding harvest_io_completions_def by (induction cqes arbitrary: r) simp_all

end
