(* ===== verification/Ownership.thy ===== *)
theory Ownership
  imports Server
begin

text \<open>
  Which reactor writes which partition. A reactor keeps the contexts of its partitions, with the
  open segment file and the next offset, to itself and without a lock; this is safe as long as no
  other reactor has a context for the same partition.
\<close>

section \<open>The contexts a request creates\<close>

text \<open>The partitions the handlers visit for a request.\<close>

fun request_keys :: "ClusterMetadata \<Rightarrow> Request \<Rightarrow> (string \<times> int32_t) set" where
  "request_keys meta (Produce r) = produced_keys r"
| "request_keys meta (Fetch r) =
     {(ti_name info, fp_partition_index p) | t p info.
        t \<in> set (fetch_topics r) \<and> find_topic_by_uuid meta (ft_topic_id t) = Some info \<and> p \<in> set (ft_partitions t)}"
| "request_keys meta (ListOffsets r) =
     {(lot_topic_name t, lop_partition_index p) | t p. t \<in> set (lo_topics r) \<and> p \<in> set (lot_partitions t)}"
| "request_keys meta _ = {}"

definition within :: "string set \<Rightarrow> log_store \<Rightarrow> bool" where
  "within K s \<longleftrightarrow> dom (ls_contexts s) \<subseteq> K"

lemma within_get_or_create:
  "within K s \<Longrightarrow> context_key t p \<in> K \<Longrightarrow> within K (snd (get_or_create_context h t p s))"
  by (auto simp: within_def get_or_create_context_def Let_def split: option.splits)

lemma within_put: "within K s \<Longrightarrow> context_key t p \<in> K \<Longrightarrow> within K (put_context t p c os s)"
  by (auto simp: within_def put_context_def)

lemma within_list_offsets:
  assumes "within K s" and "\<And>t p. (t, p) \<in> request_keys meta (ListOffsets r) \<Longrightarrow> context_key t p \<in> K"
  shows "within K (snd (handle_list_offsets h r s))"
proof -
  have topic: "within K (snd (list_offsets_topic h k t s'))" if "within K s'" "t \<in> set (lo_topics r)" for k t s'
  proof -
    have "within K (snd (list_offsets_partition h (lot_topic_name t) info k' p s''))"
      if "p \<in> set (lot_partitions t)" "within K s''" for info k' p s''
      using that \<open>t \<in> set (lo_topics r)\<close> assms(2) within_get_or_create
      by (fastforce simp: list_offsets_partition_def Let_def case_prod_beta)
    with that(1) have "within K (snd (each (list_offsets_partition h (lot_topic_name t) info) 0 (lot_partitions t) s'))" for info
      by (intro each_invariant [where P = "within K"]) simp_all
    then show ?thesis by (simp add: list_offsets_topic_def Let_def case_prod_beta)
  qed
  have "within K (snd (each (list_offsets_topic h) 0 (lo_topics r) s))"
    using topic assms(1) by (intro each_invariant [where P = "within K"]) simp_all
  then show ?thesis by (simp add: handle_list_offsets_def case_prod_beta)
qed

lemma within_produce:
  assumes "within K s" and "\<And>t p. (t, p) \<in> request_keys meta (Produce r) \<Longrightarrow> context_key t p \<in> K"
  shows "within K (snd (handle_produce h an r s))"
proof -
  have topic: "within K (snd (produce_topic h an k t s'))" if "within K s'" "t \<in> set (produce_topics r)" for k t s'
  proof -
    have "within K (snd (produce_partition h a (pt_topic_name t) info k' p s''))"
      if "p \<in> set (pt_partitions t)" "within K s''" for a info k' p s''
    proof -
      have "context_key (pt_topic_name t) (pp_partition_index p) \<in> K"
        using that \<open>t \<in> set (produce_topics r)\<close> by (intro assms(2)) (auto simp: produced_keys_def)
      with that(2) show ?thesis
        by (auto simp: produce_partition_def Let_def case_prod_beta intro!: within_put within_get_or_create)
    qed
    with that(1) have "within K (snd (each (produce_partition h (an k) (pt_topic_name t) info) 0 (pt_partitions t) s'))" for info
      by (intro each_invariant [where P = "within K"]) simp_all
    then show ?thesis by (simp add: produce_topic_def Let_def case_prod_beta)
  qed
  have "within K (snd (each (produce_topic h an) 0 (produce_topics r) s))"
    using topic assms(1) by (intro each_invariant [where P = "within K"]) simp_all
  then show ?thesis by (simp add: handle_produce_def case_prod_beta)
qed

lemma within_fetch:
  assumes "within K s" and "\<And>t p. (t, p) \<in> request_keys (rh_metadata h) (Fetch r) \<Longrightarrow> context_key t p \<in> K"
  shows "within K (snd (handle_fetch h an r s))"
proof -
  have part: "within K (snd (fetch_partition h a t k p s'))"
    if "within K s'" "context_key t (fp_partition_index p) \<in> K" for a t k p s'
    using that by (auto simp: fetch_partition_def Let_def case_prod_beta intro!: within_put within_get_or_create)
  have topic: "within K (snd (fetch_topic_step h an k t s'))" if "within K s'" "t \<in> set (fetch_topics r)" for k t s'
  proof (cases "find_topic_by_uuid (rh_metadata h) (ft_topic_id t)")
    case None
    with that show ?thesis by (simp add: fetch_topic_step_def)
  next
    case (Some info)
    with that(2) have "context_key (ti_name info) (fp_partition_index p) \<in> K" if "p \<in> set (ft_partitions t)" for p
      using that by (intro assms(2)) auto
    with that(1) part have "within K (snd (each (fetch_partition h (an k) (ti_name info)) 0 (ft_partitions t) s'))"
      by (intro each_invariant [where P = "within K"]) simp_all
    with Some show ?thesis by (simp add: fetch_topic_step_def Let_def case_prod_beta)
  qed
  have "within K (snd (each (fetch_topic_step h an) 0 (fetch_topics r) s))"
    using topic assms(1) by (intro each_invariant [where P = "within K"]) simp_all
  then show ?thesis by (simp add: handle_fetch_def case_prod_beta)
qed

lemma within_handle:
  assumes "within K (bk_store b)" and "\<And>t p. (t, p) \<in> request_keys (rh_metadata h) req \<Longrightarrow> context_key t p \<in> K"
  shows "within K (bk_store (snd (handle h e req b)))"
  using assms within_list_offsets within_produce within_fetch
  by (cases req) (simp_all add: with_coordinator_def with_store_def)

section \<open>Ownership\<close>

definition partition_owner :: "ReactorConfig \<Rightarrow> string \<Rightarrow> int32_t \<Rightarrow> nat option" where
  "partition_owner cfg t p = map_option unat (route (rc_hash cfg) (rc_router cfg) t p)"

text \<open>A request is routed by its first partition; it is co-located when all its partitions belong to
  the reactor of the first.\<close>

definition co_located :: "ReactorConfig \<Rightarrow> Request \<Rightarrow> bool" where
  "co_located cfg req \<longleftrightarrow>
     (\<forall>(t, p)\<in>request_keys (rh_metadata (rc_handler cfg)) req. request_owner cfg req = partition_owner cfg t p)"

definition owned_keys :: "ReactorConfig \<Rightarrow> nat \<Rightarrow> string set" where
  "owned_keys cfg i = {context_key t p | t p. partition_owner cfg t p = Some i}"

definition stores_owned :: "ReactorConfig list \<Rightarrow> server \<Rightarrow> bool" where
  "stores_owned cfgs s \<longleftrightarrow>
     (\<forall>i<length cfgs. within (owned_keys (cfgs ! 0) i) (bk_store (wr_broker (sv_reactors s ! i))) \<and>
        (\<forall>f\<in>set (cq_requests (sv_queues s ! i)). co_located (cfgs ! 0) (fq_request f)))"

lemma routing_same:
  assumes "configs_ok cfgs" and "i < length cfgs"
  shows "partition_owner (cfgs ! i) = partition_owner (cfgs ! 0)"
    "request_owner (cfgs ! i) = request_owner (cfgs ! 0)"
    "rh_metadata (rc_handler (cfgs ! i)) = rh_metadata (rc_handler (cfgs ! 0))"
proof -
  have "rc_router (cfgs ! i) = rc_router (cfgs ! 0)" "rc_hash (cfgs ! i) = rc_hash (cfgs ! 0)"
    "rh_metadata (rc_handler (cfgs ! i)) = rh_metadata (rc_handler (cfgs ! 0))"
    "0 < length cfgs"
    using assms unfolding configs_ok_def by metis+
  then show "partition_owner (cfgs ! i) = partition_owner (cfgs ! 0)"
    "request_owner (cfgs ! i) = request_owner (cfgs ! 0)"
    "rh_metadata (rc_handler (cfgs ! i)) = rh_metadata (rc_handler (cfgs ! 0))"
    using request_owner_same [OF assms(1,2)] unfolding partition_owner_def by (simp_all add: ext)
qed

text \<open>Handling a co-located request at its owner creates contexts of owned partitions only; a request
  without an owner that is co-located visits no partition at all.\<close>

lemma handle_owned:
  assumes "configs_ok cfgs" and "i < length cfgs" and "co_located (cfgs ! 0) req"
    and "request_owner (cfgs ! 0) req \<in> {None, Some i}"
    and "within (owned_keys (cfgs ! 0) i) (bk_store b)"
    and "handle (rc_handler (cfgs ! i)) e req b = (res, b')"
  shows "within (owned_keys (cfgs ! 0) i) (bk_store b')"
proof -
  have "0 < sr_reactor_count (rc_router (cfgs ! 0))"
    using assms(1) configs_okD(3) [OF assms(1)] unat_reactor_index [of "length cfgs"]
    by (metis configs_ok_def unat_eq_zero word_neq_0_conv less_numeral_extra(3))
  then have some: "\<exists>j. partition_owner (cfgs ! 0) t p = Some j" for t p
    using route_def by (auto simp: partition_owner_def route_def)
  have "context_key t p \<in> owned_keys (cfgs ! 0) i" if "(t, p) \<in> request_keys (rh_metadata (rc_handler (cfgs ! i))) req" for t p
    using that assms(3,4) some [of t p] routing_same(3) [OF assms(1,2)]
    by (fastforce simp: co_located_def owned_keys_def)
  then have "within (owned_keys (cfgs ! 0) i) (bk_store (snd (handle (rc_handler (cfgs ! i)) e req b)))"
    by (intro within_handle assms(5))
  with assms(6) show ?thesis by simp
qed

lemma view_store [simp]: "within K (bk_store (wr_broker (reactor_view i s))) = within K (bk_store (wr_broker (sv_reactors s ! i)))"
  by (simp add: reactor_view_def within_def Let_def)

text \<open>The same for what one reactor sees.\<close>

definition view_owned :: "ReactorConfig list \<Rightarrow> nat \<Rightarrow> WorkerReactor \<Rightarrow> bool" where
  "view_owned cfgs i r \<longleftrightarrow>
     within (owned_keys (cfgs ! 0) i) (bk_store (wr_broker r)) \<and>
     (\<forall>j<length cfgs. \<forall>f\<in>set (cq_requests (wr_queues r ! j)). co_located (cfgs ! 0) (fq_request f))"

lemma stores_owned_view: "stores_owned cfgs s \<Longrightarrow> i < length cfgs \<Longrightarrow> view_owned cfgs i (reactor_view i s)"
  by (simp add: stores_owned_def view_owned_def)

lemma stores_owned_put:
  assumes "stores_owned cfgs s" and "length (sv_reactors s) = length cfgs" and "view_owned cfgs i r"
  shows "stores_owned cfgs (put_reactor i r s)"
  unfolding stores_owned_def
proof (intro allI impI)
  fix j assume "j < length cfgs"
  with assms show "within (owned_keys (cfgs ! 0) j) (bk_store (wr_broker (sv_reactors (put_reactor i r s) ! j))) \<and>
      (\<forall>f\<in>set (cq_requests (sv_queues (put_reactor i r s) ! j)). co_located (cfgs ! 0) (fq_request f))"
    by (cases "j = i") (simp_all add: stores_owned_def view_owned_def put_reactor_def)
qed

lemma view_owned_messages:
  assumes "view_owned cfgs i r" and "length (wr_queues r) = length cfgs"
    and "wr_broker r' = wr_broker r" and "same_messages (wr_queues r) (wr_queues r')"
  shows "view_owned cfgs i r'"
proof -
  have "cq_requests (wr_queues r' ! j) = cq_requests (wr_queues r ! j)" if "j < length cfgs" for j
    using assms(2,4) that unfolding same_messages_def by (metis length_map nth_map)
  with assms(1,3) show ?thesis by (simp add: view_owned_def)
qed

lemma request_effect_owned:
  assumes "configs_ok cfgs" and "i < length cfgs" and "view_owned cfgs i r"
    and "length (wr_queues r) = length cfgs" and "co_located (cfgs ! 0) req"
    and "request_effect (cfgs ! i) req r r'"
  shows "view_owned cfgs i r'"
proof -
  note own = routing_same [OF assms(1,2)] and id = configs_okD(1) [OF assms(1,2)]
  consider (here) e resp where "wr_queues r' = wr_queues r" "request_owner (cfgs ! 0) req \<in> {None, Some i}"
      "handle (rc_handler (cfgs ! i)) e req (wr_broker r) = (Inr resp, wr_broker r')"
    | (there) target fd where "wr_broker r' = wr_broker r"
      "wr_queues r' = (wr_queues r)[target := push_request (forwarded (cfgs ! i) fd req) (wr_queues r ! target)]"
    using assms(6) unfolding request_effect_def own id by blast
  then show ?thesis
  proof cases
    case here
    have "within (owned_keys (cfgs ! 0) i) (bk_store (wr_broker r'))"
      using assms(3) by (intro handle_owned [OF assms(1,2,5) here(2) _ here(3)]) (simp add: view_owned_def)
    with assms(3) here(1) show ?thesis by (simp add: view_owned_def)
  next
    case there
    have "co_located (cfgs ! 0) (fq_request f)" if "j < length cfgs" "f \<in> set (cq_requests (wr_queues r' ! j))" for j f
      using that assms(3-5) unfolding there(2)
      by (cases "j = target") (auto simp: requests.push_held forwarded_def view_owned_def)
    with assms(3) there(1) show ?thesis by (simp add: view_owned_def)
  qed
qed

lemma drain_request_owned:
  assumes "configs_ok cfgs" and "i < length cfgs" and "view_owned cfgs i r" and "queues_ok cfgs (wr_queues r)"
    and "drain_request e (cfgs ! i) r = Some (Inr r')"
  shows "view_owned cfgs i r'"
proof -
  note id = configs_okD(1) [OF assms(1,2)] and own = routing_same [OF assms(1,2)]
  have len: "length (wr_queues r) = length cfgs" using assms(4) by (simp add: queues_ok_def)
  with assms(2) id have "rc_reactor_id (cfgs ! i) < length (wr_queues r)" by simp
  with assms(5) show ?thesis
  proof (cases rule: drain_request_effect)
    case (1 fwd q resp buf out)
    have fwd: "fwd \<in> set (cq_requests (wr_queues r ! i))" using 1(1) id by simp
    then have "request_owner (cfgs ! i) (fq_request fwd) = Some i"
      using assms(2,4) unfolding queues_ok_def queue_ok_def by blast
    then have owner: "request_owner (cfgs ! 0) (fq_request fwd) \<in> {None, Some i}" using own by simp
    have co: "co_located (cfgs ! 0) (fq_request fwd)" using fwd assms(2,3) by (simp add: view_owned_def)
    have "within (owned_keys (cfgs ! 0) i) (bk_store (wr_broker r'))"
      using assms(3) by (intro handle_owned [OF assms(1,2) co owner _ 1(3)]) (simp add: view_owned_def)
    moreover have "co_located (cfgs ! 0) (fq_request f)"
      if "j < length cfgs" "f \<in> set (cq_requests (wr_queues r' ! j))" for j f
    proof -
      have "cq_requests (wr_queues r' ! j) = (if j = i then cq_requests q else cq_requests (wr_queues r ! j))"
        using that(1) len unfolding 1(8) Let_def id
        by (cases "unat (fq_source_reactor_id fwd) = j"; cases "j = i") simp_all
      with that 1(1) id assms(3) show ?thesis by (auto simp: view_owned_def split: if_splits)
    qed
    ultimately show ?thesis by (simp add: view_owned_def)
  qed
qed

lemma drain_response_owned:
  assumes "configs_ok cfgs" and "i < length cfgs" and "view_owned cfgs i r"
    and "length (wr_queues r) = length cfgs" and "drain_response (cfgs ! i) r = Some r'"
  shows "view_owned cfgs i r'"
proof -
  obtain resp q where pop: "try_pop_response (wr_queues r ! i) = Some (resp, q)"
    and r': "r' = deliver_response resp (r\<lparr>wr_queues := (wr_queues r)[i := q]\<rparr>)"
    using assms(5) configs_okD(1) [OF assms(1,2)] by (auto simp: drain_response_def split: option.splits)
  have "cq_requests ((wr_queues r)[i := q] ! j) = cq_requests (wr_queues r ! j)" if "j < length cfgs" for j
    using that assms(4) pop_other_queue(2) [OF pop] by (cases "j = i") simp_all
  with assms(3) r' show ?thesis by (simp add: view_owned_def)
qed

lemma server_step_owned:
  assumes "server_step cfgs s reqs s'" and "configs_ok cfgs" and "server_ok cfgs s" and "stores_owned cfgs s"
    and "\<forall>req\<in>set reqs. co_located (cfgs ! 0) req"
  shows "stores_owned cfgs s'"
proof -
  have len: "length (sv_reactors s) = length cfgs" "length (sv_queues s) = length cfgs"
    and q: "queues_ok cfgs (sv_queues s)"
    using assms(3) by (simp_all add: server_ok_def queues_ok_def)
  note put = stores_owned_put [OF assms(4) len(1)] and view = stores_owned_view [OF assms(4)]
  from assms(1) show ?thesis
  proof (cases rule: server_step.cases)
    case (step_event i ev r)
    let ?v = "reactor_view i s"
    have ok: "reactor_ok (cfgs ! i) ?v" using step_event assms(3) by (simp add: server_ok_def)
    have "view_owned cfgs i r"
    proof (cases "event_request (cfgs ! i) ev ?v")
      case None
      then show ?thesis
        using dispatch_event_effect [OF ok step_event(5)] len
        by (intro view_owned_messages [OF view [OF step_event(3)]]) simp_all
    next
      case (Some req)
      then show ?thesis
        using dispatch_event_effect [OF ok step_event(5)] len assms(5) step_event(1)
        by (intro request_effect_owned [OF assms(2) step_event(3) view [OF step_event(3)], of req]) simp_all
    qed
    then show ?thesis unfolding step_event(2) by (rule put)
  next
    case (step_request i e r)
    then show ?thesis
      using drain_request_owned [OF assms(2) step_request(3) view [OF step_request(3)] _ step_request(4)] q put by simp
  next
    case (step_response i r)
    then show ?thesis
      using drain_response_owned [OF assms(2) step_response(3) view [OF step_response(3)] _ step_response(4)] len put
      by simp
  next
    case (step_completion i cqe)
    have "view_owned cfgs i (harvest_one cqe (reactor_view i s))"
      using view [OF step_completion(3)] by (simp add: view_owned_def)
    then show ?thesis unfolding step_completion(2) by (rule put)
  next
    case (step_file_write k)
    with assms(4) show ?thesis by (simp add: stores_owned_def finish_file_write_def)
  qed
qed

lemma server_run_owned:
  assumes "server_run cfgs s reqs s'" and "configs_ok cfgs" and "server_ok cfgs s" and "stores_owned cfgs s"
    and "\<forall>req\<in>set reqs. co_located (cfgs ! 0) req"
  shows "stores_owned cfgs s'"
  using assms
proof (induction rule: server_run.induct)
  case (run_next s reqs s' new s'')
  then show ?case using server_run_ok [OF run_next.hyps(1)] server_step_owned [OF run_next.hyps(2)] by simp
qed simp

lemma start_server_owned: "stores_owned (fst (start_server sas hash c os file)) (snd (start_server sas hash c os file))"
  by (simp add: stores_owned_def within_def start_server_def Let_def new_reactor_state new_reactor_queue)

text \<open>A request for one partition is co-located.\<close>

lemma single_partition_co_located:
  "produce_topics r = [t] \<Longrightarrow> pt_partitions t = [p] \<Longrightarrow> co_located cfg (Produce r)"
  "lo_topics r1 = [t1] \<Longrightarrow> lot_partitions t1 = [p1] \<Longrightarrow> co_located cfg (ListOffsets r1)"
  "fetch_topics r2 = [t2] \<Longrightarrow> ft_partitions t2 = [p2] \<Longrightarrow> co_located cfg (Fetch r2)"
  by (auto simp: co_located_def produced_keys_def request_owner_def partition_owner_def
      lookup_topic_name_def find_topic_by_uuid_def)

end
