(* ===== verification/Byte_Streams.thy ===== *)
theory Byte_Streams
  imports Ownership
begin

text \<open>
  The byte streams of a connection. Incoming: how the reactor cuts the stream into frames, however
  the bytes arrive. Outgoing: what a client has been sent and will be sent is the concatenation of
  the answers in the order in which they were queued. And the way of one request from the socket to
  its answer on the socket, with and without a detour over another reactor.
\<close>

section \<open>Cutting the incoming stream into frames\<close>

text \<open>
  The specification: the bytes buffered so far and the bytes that have arrived give an outcome, with
  what is buffered then and what is left in the socket.
  A connection whose header arrives exactly on its own is closed, like one with nothing to read.
\<close>

datatype frame_outcome = Closed | Waiting bytes bytes | Frame bytes bytes

definition frame_length :: "bytes \<Rightarrow> nat" where
  "frame_length bs = size_of_signed (decode_int32_be (take 4 bs))"

definition frame_step :: "nat \<Rightarrow> bytes \<Rightarrow> bytes \<Rightarrow> frame_outcome" where
  "frame_step limit buf data =
     (let total = buf @ data; len = frame_length total in
      if data = [] then Closed
      else if length total < 4 then Waiting total []
      else if limit < len then Closed
      else if length total < 4 + len then
        (if length buf < 4 \<and> length total = 4 then Closed else Waiting total [])
      else Frame (take (4 + len) total) (drop (4 + len) total))"

text \<open>What the reactor's functions did, seen from outside.\<close>

fun flow_outcome :: "int32_t \<Rightarrow> WorkerReactor flow \<Rightarrow> frame_outcome" where
  "flow_outcome fd (Return r) =
     (case (wr_connections r fd, kn_socks (wr_kernel r) fd) of
        (Some c, Some sk) \<Rightarrow> Waiting (cn_read_buf c) (sk_in sk)
      | _ \<Rightarrow> Closed)"
| "flow_outcome fd (Continue r) =
     (case kn_socks (wr_kernel r) fd of
        None \<Rightarrow> Closed
      | Some sk \<Rightarrow> Frame (cn_read_buf (conn_at r fd)) (sk_in sk))"

text \<open>A kernel that reports no errors.\<close>

definition transfers :: "io_answers \<Rightarrow> bool" where
  "transfers an \<longleftrightarrow> (\<forall>i. \<exists>k. an i = Transfer k)"

lemma recv_fd_transfer:
  assumes "transfers an" and "kn_socks k fd = Some sk"
  shows "recv_fd an fd n k =
    (Inr (take n (sk_in sk)), k\<lparr>kn_socks := (kn_socks k)(fd \<mapsto> sk\<lparr>sk_in := drop n (sk_in sk)\<rparr>)\<rparr>)"
  using assms by (simp add: recv_fd_def recv_all_ok transfers_def)

text \<open>The state after receiving up to the needed size.\<close>

definition received :: "int32_t \<Rightarrow> nat \<Rightarrow> sock \<Rightarrow> WorkerReactor \<Rightarrow> WorkerReactor" where
  "received fd needed sk r =
     (let c = conn_at r fd; n = needed - length (cn_read_buf c); k = wr_kernel r
      in put_conn fd (c\<lparr>cn_read_buf := cn_read_buf c @ take n (sk_in sk)\<rparr>)
           (r\<lparr>wr_kernel := k\<lparr>kn_socks := (kn_socks k)(fd \<mapsto> sk\<lparr>sk_in := drop n (sk_in sk)\<rparr>)\<rparr>\<rparr>))"

lemma received_simps [simp]:
  "conn_at (received fd needed sk r) fd =
     (conn_at r fd)\<lparr>cn_read_buf := cn_read_buf (conn_at r fd) @
        take (needed - length (cn_read_buf (conn_at r fd))) (sk_in sk)\<rparr>"
  "wr_connections (received fd needed sk r) fd = Some (conn_at (received fd needed sk r) fd)"
  "kn_socks (wr_kernel (received fd needed sk r)) fd =
     Some (sk\<lparr>sk_in := drop (needed - length (cn_read_buf (conn_at r fd))) (sk_in sk)\<rparr>)"
  "wr_broker (received fd needed sk r) = wr_broker r" "wr_queues (received fd needed sk r) = wr_queues r"
  "kn_interest (wr_kernel (received fd needed sk r)) = kn_interest (wr_kernel r)"
  by (simp_all add: received_def Let_def)

lemma fill_buffer_transfer:
  assumes "transfers an" and "kn_socks (wr_kernel r) fd = Some sk"
    and "length (cn_read_buf (conn_at r fd)) < needed"
  shows "fill_buffer an fd needed r =
    (if sk_in sk = [] then Return (close_connection fd (received fd needed sk r))
     else if length (cn_read_buf (conn_at r fd)) + length (sk_in sk) < needed then Return (received fd needed sk r)
     else Continue (received fd needed sk r))"
  using assms(3) by (auto simp: fill_buffer_def recv_fd_transfer [OF assms(1,2)] received_def Let_def)

lemma read_body_transfer:
  assumes "transfers an" and "kn_socks (wr_kernel r) fd = Some sk"
    and "wr_connections r fd = Some (conn_at r fd)"
    and "length (cn_read_buf (conn_at r fd)) \<le> 4 + cn_expected_len (conn_at r fd)"
  shows "flow_outcome fd (read_body an fd r) =
    (let buf = cn_read_buf (conn_at r fd); needed = 4 + cn_expected_len (conn_at r fd); total = buf @ sk_in sk
     in if length buf = needed then Frame buf (sk_in sk)
        else if sk_in sk = [] then Closed
        else if length total < needed then Waiting total []
        else Frame (take needed total) (drop needed total))"
  using assms(2-4) by (auto simp: read_body_def fill_buffer_transfer [OF assms(1,2)] Let_def)

lemma frame_length_append: "4 \<le> length buf \<Longrightarrow> frame_length (buf @ data) = frame_length buf"
  by (simp add: frame_length_def)

lemma put_conn_same: "wr_connections r fd = Some c \<Longrightarrow> put_conn fd c r = r"
  by (simp add: put_conn_def fun_upd_idem)

lemma read_frame_continues:
  assumes "reactor_ok cfg r" and "wr_connections r fd = Some c" and "kn_socks (wr_kernel r) fd = Some sk"
    and "\<forall>i. transfers (an i)" and "cn_have_header c"
  shows "flow_outcome fd (read_frame an cfg fd r) =
    frame_step (unat (rc_max_message_bytes cfg)) (cn_read_buf c) (sk_in sk)"
proof -
  have c: "conn_at r fd = c" using assms(2) by (simp add: conn_at_def)
  have ok: "4 \<le> length (cn_read_buf c)" "length (cn_read_buf c) < 4 + cn_expected_len c"
    "cn_expected_len c \<le> unat (rc_max_message_bytes cfg)" "cn_expected_len c = frame_length (cn_read_buf c)"
    using reactor_okD(1) [OF assms(1,2)] assms(5) by (simp_all add: read_ok_def frame_length_def)
  have "read_frame an cfg fd r = read_body (an 1) fd r"
    using assms(2,5) by (simp add: read_frame_def read_header_def c put_conn_same)
  with read_body_transfer [of "an 1" r fd sk] assms(2-4) ok c show ?thesis
    by (simp add: frame_step_def frame_length_append Let_def)
qed

lemma read_frame_begins:
  assumes "reactor_ok cfg r" and "wr_connections r fd = Some c" and "kn_socks (wr_kernel r) fd = Some sk"
    and "\<forall>i. transfers (an i)" and "\<not> cn_have_header c"
  shows "flow_outcome fd (read_frame an cfg fd r) =
    frame_step (unat (rc_max_message_bytes cfg)) (cn_read_buf c) (sk_in sk)"
proof -
  have c: "conn_at r fd = c" using assms(2) by (simp add: conn_at_def)
  have short: "length (cn_read_buf c) < 4"
    using reactor_okD(1) [OF assms(1,2)] assms(5) by (simp add: read_ok_def)
  let ?buf = "cn_read_buf c" and ?data = "sk_in sk" and ?r1 = "received fd 4 sk r"
  have fill: "fill_buffer (an 0) fd 4 r = (if ?data = [] then Return (close_connection fd ?r1)
      else if length ?buf + length ?data < 4 then Return ?r1 else Continue ?r1)"
    using fill_buffer_transfer [of "an 0" r fd sk 4] assms(3,4) short c by simp
  have rf: "read_frame an cfg fd r =
      continue_with (continue_with (fill_buffer (an 0) fd 4 r) (set_header cfg fd)) (read_body (an 1) fd)"
    using assms(2,5) short by (simp add: read_frame_def read_header_def c put_conn_same)
  show ?thesis
  proof (cases "?data = [] \<or> length ?buf + length ?data < 4")
    case True
    with short show ?thesis by (auto simp: rf fill frame_step_def c Let_def)
  next
    case False
    let ?len = "frame_length (?buf @ ?data)"
    let ?c2 = "c\<lparr>cn_read_buf := take 4 (?buf @ ?data), cn_expected_len := ?len, cn_have_header := True\<rparr>"
    have b4: "?buf @ take (4 - length ?buf) ?data = take 4 (?buf @ ?data)" using short by simp
    have at: "conn_at ?r1 fd = c\<lparr>cn_read_buf := take 4 (?buf @ ?data)\<rparr>" by (simp add: c b4)
    show ?thesis
    proof (cases "unat (rc_max_message_bytes cfg) < ?len")
      case True
      with False show ?thesis by (simp add: rf fill set_header_def at c Let_def frame_length_def frame_step_def)
    next
      case small: False
      define r2 where "r2 = put_conn fd ?c2 ?r1"
      have r2: "conn_at r2 fd = ?c2" "wr_connections r2 fd = Some (conn_at r2 fd)"
        "kn_socks (wr_kernel r2) fd = Some (sk\<lparr>sk_in := drop (4 - length ?buf) ?data\<rparr>)"
        by (simp_all add: r2_def c)
      have "read_frame an cfg fd r = read_body (an 1) fd r2"
        using False small short by (simp add: rf fill set_header_def at c Let_def frame_length_def r2_def)
      with read_body_transfer [of "an 1" r2 fd, OF _ r2(3,2)] assms(4) r2(1) False small short show ?thesis
        by (auto simp: frame_step_def Let_def)
    qed
  qed
qed

lemma read_frame_outcome:
  assumes "reactor_ok cfg r" and "wr_connections r fd = Some c" and "kn_socks (wr_kernel r) fd = Some sk"
    and "\<forall>i. transfers (an i)"
  shows "flow_outcome fd (read_frame an cfg fd r) =
    frame_step (unat (rc_max_message_bytes cfg)) (cn_read_buf c) (sk_in sk)"
  using read_frame_continues [OF assms(1-3)] read_frame_begins [OF assms(1-3)] assms(4) by blast

text \<open>The stream law: while a request is incomplete, reading in pieces is reading at once.\<close>

lemma frame_step_chunks:
  assumes "frame_step limit buf d1 = Waiting b ext" and "d2 \<noteq> []"
  shows "b = buf @ d1 \<and> ext = [] \<and> frame_step limit b d2 = frame_step limit buf (d1 @ d2)"
proof -
  have b: "b = buf @ d1" "ext = []"
    using assms(1) by (auto simp: frame_step_def Let_def split: if_splits)
  moreover have "frame_step limit (buf @ d1) d2 = frame_step limit buf (d1 @ d2)"
    using assms by (auto simp: frame_step_def Let_def split: if_splits)
  ultimately show ?thesis by simp
qed

text \<open>Bytes arriving at a socket, and a connection that is read after every arrival.\<close>

definition arrive :: "int32_t \<Rightarrow> bytes \<Rightarrow> WorkerReactor \<Rightarrow> WorkerReactor" where
  "arrive fd data r =
     (let k = wr_kernel r in
      case kn_socks k fd of
        None \<Rightarrow> r
      | Some sk \<Rightarrow> r\<lparr>wr_kernel := k\<lparr>kn_socks := (kn_socks k)(fd \<mapsto> sk\<lparr>sk_in := sk_in sk @ data\<rparr>)\<rparr>\<rparr>)"

fun read_chunks ::
    "(nat \<Rightarrow> io_answers) \<Rightarrow> ReactorConfig \<Rightarrow> int32_t \<Rightarrow> bytes list \<Rightarrow> WorkerReactor \<Rightarrow> WorkerReactor flow" where
  "read_chunks an cfg fd [] r = Return r"
| "read_chunks an cfg fd (d # ds) r =
     (case read_frame an cfg fd (arrive fd d r) of
        Continue r' \<Rightarrow> Continue r'
      | Return r' \<Rightarrow> read_chunks an cfg fd ds r')"

lemma arrive_simps [simp]:
  "wr_connections (arrive fd d r) = wr_connections r" "kn_interest (wr_kernel (arrive fd d r)) = kn_interest (wr_kernel r)"
  "reactor_ok cfg (arrive fd d r) = reactor_ok cfg r"
  by (simp_all add: arrive_def Let_def reactor_ok_def interest_ok_def split: option.splits)

lemma arrive_sock: "kn_socks (wr_kernel r) fd = Some sk \<Longrightarrow>
    kn_socks (wr_kernel (arrive fd d r)) fd = Some (sk\<lparr>sk_in := sk_in sk @ d\<rparr>)"
  by (simp add: arrive_def Let_def)

lemma read_frame_return_ok:
  assumes "reactor_ok cfg r" and "read_frame an cfg fd r = Return r'"
  shows "reactor_ok cfg r'"
  using assms(1)
proof (cases rule: read_frame_cases [of cfg r an fd])
  case (closed r1)
  then show ?thesis using assms reactor_ok_closed [OF assms(1) stagedD(10) [OF closed(2)]] by simp
next
  case (waiting r1)
  then show ?thesis using assms reactor_ok_staged [OF assms(1) waiting(2,3)] by simp
qed (use assms(2) in simp)

lemma frame_length_frame:
  assumes "length body < 2 ^ 31"
  shows "frame_length (frame body @ ext) = length body"
  using assms by (simp add: frame_length_def frame_def size_of_signed_word_of_nat)

text \<open>One more chunk of a frame either completes it or is kept.\<close>

lemma frame_step_prefix:
  assumes "buf @ d @ ext = frame body" and "length body < 2 ^ 31" and "length body \<le> limit" and "d \<noteq> []"
    and "body \<noteq> [] \<Longrightarrow> length buf < 4 \<Longrightarrow> length (buf @ d) \<noteq> 4"
  shows "frame_step limit buf d = (if ext = [] then Frame (frame body) [] else Waiting (buf @ d) [])"
proof -
  have len: "length (frame body) = 4 + length body" by (simp add: frame_def)
  show ?thesis
  proof (cases "ext = []")
    case True
    then have "buf @ d = frame body" using assms(1) by simp
    with assms(2-4) len frame_length_frame [OF assms(2), of "[]"] show ?thesis
      by (simp add: frame_step_def True Let_def)
  next
    case False
    then have less: "length (buf @ d) < 4 + length body" using assms(1) len by (metis append.assoc length_append
          length_greater_0_conv less_add_same_cancel1)
    have "frame_length (buf @ d) = length body" if "4 \<le> length (buf @ d)"
      using that frame_length_append [of "buf @ d" ext] frame_length_frame [OF assms(2), of "[]"] assms(1) by simp
    with less assms(3-5) False show ?thesis by (auto simp: frame_step_def Let_def)
  qed
qed

lemma read_chunks_frame:
  assumes "reactor_ok cfg r" and "wr_connections r fd = Some c" and "kn_socks (wr_kernel r) fd = Some sk"
    and "sk_in sk = []" and "\<forall>i. transfers (an i)"
    and "cn_read_buf c @ concat ds = frame body" and "length body < 2 ^ 31"
    and "length body \<le> unat (rc_max_message_bytes cfg)" and "ds \<noteq> []" and "[] \<notin> set ds"
    and "body \<noteq> [] \<Longrightarrow> (\<forall>n. length (cn_read_buf c @ concat (take n ds)) \<noteq> 4) \<or> 4 \<le> length (cn_read_buf c)"
  shows "\<exists>r'. read_chunks an cfg fd ds r = Continue r' \<and> cn_read_buf (conn_at r' fd) = frame body"
  using assms(1-4,6,9-11)
proof (induction ds arbitrary: r c sk)
  case (Cons d ds)
  let ?r = "arrive fd d r" and ?buf = "cn_read_buf c"
  have "length (?buf @ d) \<noteq> 4" if "body \<noteq> []" "length ?buf < 4"
    using Cons.prems(8) that by (auto dest: spec [of _ "Suc 0"])
  then have step: "frame_step (unat (rc_max_message_bytes cfg)) ?buf d =
      (if concat ds = [] then Frame (frame body) [] else Waiting (?buf @ d) [])"
    using Cons.prems assms(7,8) by (intro frame_step_prefix [where ext = "concat ds"]) auto
  have "flow_outcome fd (read_frame an cfg fd ?r) = frame_step (unat (rc_max_message_bytes cfg)) ?buf d"
    using read_frame_outcome [of cfg ?r fd c "sk\<lparr>sk_in := d\<rparr>" an] Cons.prems assms(5)
      arrive_sock [OF Cons.prems(3), of d] by simp
  note out = this [unfolded step]
  show ?case
  proof (cases "read_frame an cfg fd ?r")
    case (Continue r')
    with out show ?thesis by (auto split: if_splits option.splits)
  next
    case (Return r')
    with out obtain c' sk' where r': "wr_connections r' fd = Some c'" "kn_socks (wr_kernel r') fd = Some sk'"
        "cn_read_buf c' = ?buf @ d" "sk_in sk' = []" "concat ds \<noteq> []"
      by (auto split: if_splits option.splits)
    have ok: "reactor_ok cfg r'" using read_frame_return_ok [OF _ Return] Cons.prems(1) by simp
    have "\<exists>r''. read_chunks an cfg fd ds r' = Continue r'' \<and> cn_read_buf (conn_at r'' fd) = frame body"
    proof (rule Cons.IH [OF ok r'(1,2,4)])
      assume body: "body \<noteq> []"
      have "length (?buf @ concat (take (Suc n) (d # ds))) \<noteq> 4" if "length ?buf < 4" for n
        using Cons.prems(8) [OF body] that by (metis linorder_not_less)
      moreover have "4 \<le> length (cn_read_buf c')" if "4 \<le> length ?buf" using that r'(3) by simp
      ultimately show "(\<forall>n. length (cn_read_buf c' @ concat (take n ds)) \<noteq> 4) \<or> 4 \<le> length (cn_read_buf c')"
        using r'(3) by (cases "4 \<le> length ?buf") auto
    qed (use Cons.prems r' in auto)
    with Return show ?thesis by simp
  qed
qed simp

section \<open>The outgoing stream\<close>

text \<open>What is queued on a connection, and everything the client of an open connection has been and
  will be sent.\<close>

definition pending :: "Connection \<Rightarrow> bytes" where
  "pending c = drop (cn_write_offset c) (cn_write_buf c) @ concat (cn_write_queue c)"

definition client_stream :: "WorkerReactor \<Rightarrow> int32_t \<Rightarrow> bytes option" where
  "client_stream r fd =
     (case (wr_connections r fd, kn_socks (wr_kernel r) fd) of
        (Some c, Some sk) \<Rightarrow> Some (sk_out sk @ pending c)
      | _ \<Rightarrow> None)"

lemma client_stream_eq:
  "wr_connections r fd = Some c \<Longrightarrow> kn_socks (wr_kernel r) fd = Some sk \<Longrightarrow>
   client_stream r fd = Some (sk_out sk @ pending c)"
  by (simp add: client_stream_def)

lemma client_stream_SomeE:
  assumes "client_stream r fd = Some s"
  obtains c sk where "wr_connections r fd = Some c" "kn_socks (wr_kernel r) fd = Some sk" "s = sk_out sk @ pending c"
  using assms by (auto simp: client_stream_def split: option.splits)

lemma client_stream_outs:
  assumes "wr_connections r' fd = Some c" and "outs (wr_kernel r') fd = Some (bs, room)"
  shows "client_stream r' fd = Some (bs @ pending c)"
  using assms by (auto simp: client_stream_def outs_def)

lemma client_stream_closed [simp]: "client_stream (close_connection fd r) fd = None"
  by (simp add: client_stream_def)

lemma close_connection_sock [simp]: "kn_socks (wr_kernel (close_connection fd r)) fd = None"
  by (simp add: close_connection_def kernel_close_def)

lemma pending_enqueue: "write_ok c \<Longrightarrow> pending (enqueue data c) = pending c @ data"
  by (auto simp: pending_def enqueue_def was_idle_def write_ok_def)

lemma pending_fields [simp]:
  "pending (set_splice sp c) = pending c" "pending (reset_read c) = pending c"
  "pending (c\<lparr>cn_splice_pending := b, cn_splice_fd := x, cn_splice_len := y\<rparr>) = pending c"
  "pending (c\<lparr>cn_splice_pending := b\<rparr>) = pending c"
  by (simp_all add: pending_def set_splice_def reset_read_def split: option.splits prod.splits)

lemma outs_simps [simp]:
  "outs (wr_kernel (set_interest fd i r)) = outs (wr_kernel r)"
  "outs (k\<lparr>kn_splices := sp\<rparr>) = outs k" "outs (k\<lparr>kn_interest := ki\<rparr>) = outs k"
  by (simp_all add: outs_def fun_eq_iff)

lemma client_stream_put:
  "outs (wr_kernel r) fd = Some (bs, room) \<Longrightarrow> client_stream (put_conn fd c r) fd = Some (bs @ pending c)"
  by (rule client_stream_outs) simp_all

lemma client_stream_interest [simp]: "client_stream (set_interest fd i r) fd' = client_stream r fd'"
  by (simp add: client_stream_def)

lemma client_stream_metrics [simp]:
  "client_stream (add_error r) fd = client_stream r fd" "client_stream (add_sent n r) fd = client_stream r fd"
  "client_stream (add_request n r) fd = client_stream r fd"
  by (simp_all add: client_stream_def)

text \<open>Moving on to the next answer when the current one is sent keeps the stream.\<close>

lemma advance_write_queue_stream:
  assumes "wr_connections r fd = Some c" and "length (cn_write_buf c) \<le> cn_write_offset c"
  shows "client_stream (advance_write_queue fd r) fd = client_stream r fd"
proof -
  have c: "conn_at r fd = c" using assms(1) by (simp add: conn_at_def)
  show ?thesis
    using assms by (cases "cn_write_queue c")
      (simp_all add: advance_write_queue_def c client_stream_def pending_def split: option.splits)
qed

lemma finish_write_stream:
  assumes "wr_connections r fd = Some c"
  shows "client_stream (finish_write sqe fd r) fd = client_stream r fd"
proof -
  have c: "conn_at r fd = c" using assms by (simp add: conn_at_def)
  have "client_stream (submit_splice fd r) fd = client_stream r fd"
    using assms by (simp add: submit_splice_def c Let_def client_stream_def split: option.splits)
  then show ?thesis using advance_write_queue_stream [OF assms] by (simp add: finish_write_def c Let_def)
qed

text \<open>A write hands over the next bytes of the stream, in order, or the connection is closed.\<close>

lemma handle_write_stream:
  assumes "wr_connections r fd = Some c" and "kn_socks (wr_kernel r) fd = Some sk"
    and "cn_write_offset c \<le> length (cn_write_buf c)"
  shows "client_stream (handle_write an sqe fd r) fd \<in> {None, client_stream r fd}"
proof -
  have c: "conn_at r fd = c" using assms(1) by (simp add: conn_at_def)
  let ?rem = "drop (cn_write_offset c) (cn_write_buf c)"
  obtain res sk' where s: "send_all an ?rem sk = (res, sk')" by fastforce
  then have f: "send_fd an fd ?rem (wr_kernel r) =
      (res, (wr_kernel r)\<lparr>kn_socks := (kn_socks (wr_kernel r))(fd \<mapsto> sk')\<rparr>)"
    using assms(2) by (simp add: send_fd_def)
  show ?thesis
  proof (cases res)
    case (Inl e)
    then show ?thesis by (simp add: handle_write_def c f)
  next
    case (Inr n)
    define c1 where "c1 = c\<lparr>cn_write_offset := cn_write_offset c + n\<rparr>"
    define r1 where "r1 = add_sent n (put_conn fd c1 (put_conn fd c
      (r\<lparr>wr_kernel := (wr_kernel r)\<lparr>kn_socks := (kn_socks (wr_kernel r))(fd \<mapsto> sk')\<rparr>\<rparr>)))"
    note sent = send_all_result [OF s [unfolded Inr]]
    have "sk_out sk' @ pending c1 = sk_out sk @ take n ?rem @ drop n ?rem @ concat (cn_write_queue c)"
      using sent(2) assms(3) by (simp add: c1_def pending_def add.commute)
    also have "take n ?rem @ drop n ?rem @ concat (cn_write_queue c) = pending c"
      unfolding pending_def by (metis append.assoc append_take_drop_id)
    finally have "sk_out sk' @ pending c1 = sk_out sk @ pending c" .
    then have "client_stream r1 fd = client_stream r fd"
      using assms(1,2) by (simp add: r1_def client_stream_def)
    moreover have "client_stream (finish_write sqe fd r1) fd = client_stream r1 fd"
      by (rule finish_write_stream [where c = c1]) (simp add: r1_def)
    moreover have "handle_write an sqe fd r = finish_write sqe fd r1"
      by (simp add: handle_write_def c f Inr r1_def c1_def)
    ultimately show ?thesis by simp
  qed
qed

lemma staged_stream:
  assumes "staged fd r r1 c1" and "wr_connections r fd = Some c" and "kn_socks (wr_kernel r) fd = Some sk"
  shows "client_stream r1 fd = Some (sk_out sk @ pending c)" and "pending c1 = pending c"
    and "outs (wr_kernel r1) fd = Some (sk_out sk, sk_room sk)"
proof -
  have "conn_at r fd = c" using assms(2) by (simp add: conn_at_def)
  then show p: "pending c1 = pending c" using stagedD [OF assms(1)] by (simp add: pending_def)
  show o: "outs (wr_kernel r1) fd = Some (sk_out sk, sk_room sk)"
    using stagedD(11) [OF assms(1)] assms(3) by (simp add: outs_def)
  show "client_stream r1 fd = Some (sk_out sk @ pending c)"
    using client_stream_outs [OF stagedD(2) [OF assms(1)] o] p by simp
qed

text \<open>The answer an event adds to the stream: that of the request it completes, when the request is
  handled by this reactor.\<close>

definition handled_here :: "ReactorConfig \<Rightarrow> Request \<Rightarrow> bool" where
  "handled_here cfg req \<longleftrightarrow> request_owner cfg req = None \<or> request_owner cfg req = Some (rc_reactor_id cfg)"

definition answer_bytes :: "ReactorConfig \<Rightarrow> broker_env \<Rightarrow> broker_state \<Rightarrow> Request \<Rightarrow> bytes" where
  "answer_bytes cfg e b req =
     (case fst (handle (rc_handler cfg) e req b) of
        Inl _ \<Rightarrow> []
      | Inr resp \<Rightarrow> (case serialize resp of None \<Rightarrow> [] | Some bs \<Rightarrow> bs))"

definition event_answer :: "ReactorConfig \<Rightarrow> reactor_event \<Rightarrow> WorkerReactor \<Rightarrow> bytes" where
  "event_answer cfg ev r =
     (case event_request cfg ev r of
        None \<Rightarrow> []
      | Some req \<Rightarrow> if handled_here cfg req then answer_bytes cfg (ev_env ev) (wr_broker r) req else [])"

lemma answer_locally_stream:
  assumes "staged fd r r1 c1" and "write_ok (conn_at r fd)"
    and "wr_connections r fd = Some c" and "kn_socks (wr_kernel r) fd = Some sk"
    and "answer_locally e cfg fd req r1 = Inr r'"
  shows "kn_socks (wr_kernel r') fd = None \<or>
    client_stream r' fd = Some (sk_out sk @ pending c @ answer_bytes cfg e (wr_broker r) req)"
proof -
  obtain resp b buf where h: "handle (rc_handler cfg) e req (wr_broker r1) = (Inr resp, b)"
    and s: "serialize resp = Some buf"
    using assms(5) by (auto simp: answer_locally_def split: sum.splits prod.splits option.splits)
  have a: "answer_bytes cfg e (wr_broker r) req = buf"
    using h s stagedD(3) [OF assms(1)] by (simp add: answer_bytes_def)
  have "write_ok (set_splice sp c1)" for sp using assms(2) stagedD(7) [OF assms(1)] by simp
  then have p: "pending (enqueue buf (set_splice sp c1)) = pending c @ buf" for sp
    using staged_stream(2) [OF assms(1,3,4)] by (simp add: pending_enqueue)
  have o: "outs (wr_kernel r1) fd = Some (sk_out sk, sk_room sk)" using staged_stream(3) [OF assms(1,3,4)] .
  show ?thesis
    using assms(5)
    by (auto simp: answer_locally_def h s a stagedD(1) [OF assms(1)] Let_def o client_stream_put p split: if_splits)
qed

lemma process_request_stream:
  assumes "staged fd r r1 c1" and "write_ok (conn_at r fd)"
    and "wr_connections r fd = Some c" and "kn_socks (wr_kernel r) fd = Some sk"
    and "process_request e cfg fd r1 = Inr r'" and "parse_request (drop 4 (cn_read_buf c1)) = Inr req"
  shows "kn_socks (wr_kernel r') fd = None \<or> client_stream r' fd = Some (sk_out sk @ pending c @
    (if handled_here cfg req then answer_bytes cfg e (wr_broker r) req else []))"
proof -
  have c1: "conn_at r1 fd = c1" using stagedD(1) [OF assms(1)] .
  consider (here) "handled_here cfg req" "answer_locally e cfg fd req r1 = Inr r'"
    | (there) target where "\<not> handled_here cfg req" "forward_request fd target cfg req r1 = Inr r'"
    using assms(5,6)
    by (auto simp: process_request_def c1 handled_here_def request_owner_def split: option.splits if_splits)
  then show ?thesis
  proof cases
    case here
    with answer_locally_stream [OF assms(1-4) here(2)] show ?thesis by simp
  next
    case there
    have "client_stream r' fd = Some (sk_out sk @ pending c)"
      using there(2) staged_stream [OF assms(1,3,4)] c1
      by (auto simp: forward_request_def Let_def client_stream_put split: if_splits)
    with there(1) show ?thesis by simp
  qed
qed

lemma handle_read_stream:
  assumes "reactor_ok cfg r" and "client_stream r fd = Some s" and "handle_read an e cfg fd r = Inr r'"
  shows "kn_socks (wr_kernel r') fd = None \<or>
    (case read_frame an cfg fd r of
       Return _ \<Rightarrow> client_stream r' fd = Some s
     | Continue r1 \<Rightarrow>
         (case parse_request (drop 4 (cn_read_buf (conn_at r1 fd))) of
            Inl _ \<Rightarrow> False
          | Inr req \<Rightarrow> client_stream r' fd =
              Some (s @ (if handled_here cfg req then answer_bytes cfg e (wr_broker r) req else []))))"
proof -
  obtain c sk where c: "wr_connections r fd = Some c" "kn_socks (wr_kernel r) fd = Some sk" "s = sk_out sk @ pending c"
    using assms(2) by (rule client_stream_SomeE)
  from assms(1) show ?thesis
  proof (cases rule: read_frame_cases [of cfg r an fd])
    case (closed r1)
    with assms(3) show ?thesis by (auto simp: handle_read_def)
  next
    case (waiting r1)
    with assms(3) staged_stream(1) [OF waiting(2) c(1,2)] c(3) show ?thesis by (auto simp: handle_read_def)
  next
    case (request r1)
    with assms(3) have p: "process_request e cfg fd r1 = Inr r'" by (simp add: handle_read_def)
    show ?thesis
    proof (cases "parse_request (drop 4 (cn_read_buf (conn_at r1 fd)))")
      case (Inl err)
      with p show ?thesis by (auto simp: process_request_def)
    next
      case (Inr req)
      from process_request_stream [OF request(2) conn_at_ok(2) [OF assms(1)] c(1,2) p Inr] Inr c(3) request(1)
      show ?thesis by auto
    qed
  qed
qed

lemma handle_write_gone:
  assumes "kn_socks (wr_kernel r) fd = None"
  shows "kn_socks (wr_kernel (handle_write an sqe fd r)) fd = None"
  using assms
  by (auto simp: handle_write_def send_fd_def finish_write_def submit_splice_def advance_write_queue_def Let_def
      split: list.splits)

text \<open>Connections other than the one an event belongs to are not touched.\<close>

definition untouched :: "int32_t \<Rightarrow> WorkerReactor \<Rightarrow> WorkerReactor \<Rightarrow> bool" where
  "untouched fd r r' \<longleftrightarrow>
     wr_connections r' fd = wr_connections r fd \<and> kn_socks (wr_kernel r') fd = kn_socks (wr_kernel r) fd"

lemma untouched_stream: "untouched fd r r' \<Longrightarrow> client_stream r' fd = client_stream r fd"
  by (simp add: untouched_def client_stream_def)

lemma recv_fd_other: "fd' \<noteq> fd \<Longrightarrow> kn_socks (snd (recv_fd an fd n k)) fd' = kn_socks k fd'"
  by (simp add: recv_fd_def split: option.splits prod.splits)

lemma send_fd_other: "fd' \<noteq> fd \<Longrightarrow> kn_socks (snd (send_fd an fd data k)) fd' = kn_socks k fd'"
  by (simp add: send_fd_def split: option.splits prod.splits)

lemma close_connection_other: "fd' \<noteq> fd \<Longrightarrow> untouched fd' r (close_connection fd r)"
  by (simp add: untouched_def close_connection_def kernel_close_def)

lemma handle_write_other:
  assumes "fd' \<noteq> fd"
  shows "untouched fd' r (handle_write an sqe fd r)"
proof -
  have "untouched fd' r1 (advance_write_queue fd r1)" for r1
    using assms by (auto simp: untouched_def advance_write_queue_def Let_def split: list.splits)
  then have fin: "untouched fd' r1 (finish_write sqe fd r1)" for r1
    using assms by (simp add: finish_write_def submit_splice_def untouched_def Let_def)
  obtain res k where s: "send_fd an fd (drop (cn_write_offset (conn_at r fd)) (cn_write_buf (conn_at r fd))) (wr_kernel r) = (res, k)"
    by fastforce
  then have "kn_socks k fd' = kn_socks (wr_kernel r) fd'" using send_fd_other [OF assms] by (metis snd_conv)
  with assms s fin close_connection_other [OF assms] show ?thesis
    by (auto simp: handle_write_def Let_def untouched_def split: sum.splits)
qed

fun flow_state :: "WorkerReactor flow \<Rightarrow> WorkerReactor" where
  "flow_state (Return r) = r"
| "flow_state (Continue r) = r"

lemma read_frame_other:
  assumes "fd' \<noteq> fd"
  shows "untouched fd' r (flow_state (read_frame an cfg fd r))"
proof -
  have fill: "untouched fd' r1 (flow_state (fill_buffer a fd n r1))" for a n r1
  proof -
    obtain res k where s: "recv_fd a fd (n - length (cn_read_buf (conn_at r1 fd))) (wr_kernel r1) = (res, k)" by fastforce
    then have "kn_socks k fd' = kn_socks (wr_kernel r1) fd'" using recv_fd_other [OF assms] by (metis snd_conv)
    with s assms close_connection_other [OF assms] show ?thesis
      by (auto simp: fill_buffer_def Let_def untouched_def split: sum.splits)
  qed
  have head: "untouched fd' r1 (flow_state (set_header cfg fd r1))" for r1
    using assms close_connection_other [OF assms] by (auto simp: set_header_def Let_def untouched_def)
  have body: "untouched fd' r1 (flow_state (read_body a fd r1))" for a r1
    using fill by (simp add: read_body_def Let_def untouched_def)
  have seq: "untouched fd' r1 (flow_state (continue_with f g))"
    if "untouched fd' r1 (flow_state f)" "\<And>r2. untouched fd' r2 (flow_state (g r2))" for r1 f g
    using that by (cases f) (simp_all add: untouched_def)
  have "untouched fd' r1 (flow_state (read_header cfg a fd r1))" for a r1
    unfolding read_header_def using seq [OF _ head] fill by (simp add: untouched_def)
  then have "untouched fd' r1 (flow_state (continue_with (read_header cfg (an 0) fd r1) (read_body (an 1) fd)))" for r1
    by (rule seq) (rule body)
  then show ?thesis using assms unfolding read_frame_def untouched_def by (simp add: put_conn_def)
qed

lemma handle_read_other:
  assumes "fd' \<noteq> fd" and "handle_read an e cfg fd r = Inr r'"
  shows "untouched fd' r r'"
proof -
  have "untouched fd' r1 r2" if "process_request e cfg fd r1 = Inr r2" for r1 r2
    using that assms(1) close_connection_other [OF assms(1)]
    by (auto simp: process_request_def answer_locally_def forward_request_def untouched_def Let_def
        split: sum.splits option.splits prod.splits if_splits)
  with assms(2) read_frame_other [OF assms(1), of r an cfg] show ?thesis
    by (cases "read_frame an cfg fd r") (auto simp: handle_read_def untouched_def)
qed

text \<open>Every event, for the connection it belongs to and for the others.\<close>

lemma dispatch_event_stream:
  assumes "reactor_ok cfg r" and "event_possible cfg ev r" and "dispatch_event cfg ev r = Inr r'"
    and "client_stream r fd = Some s" and "ev_fd ev = rc_server_fd cfg \<Longrightarrow> fd \<noteq> ac_fd (ev_accept ev)"
    and "fd \<noteq> rc_server_fd cfg" and "fd \<noteq> rc_wakeup_fd cfg"
  shows "client_stream r' fd = None \<or>
    client_stream r' fd = Some (s @ (if ev_fd ev = fd then event_answer cfg ev r else []))"
proof (cases "ev_fd ev = fd")
  case False
  then have other: "untouched fd r (close_connection (ev_fd ev) (add_error r))"
    "untouched fd r1 (handle_write an sqe (ev_fd ev) r1)" for an sqe r1
    using close_connection_other [of fd "ev_fd ev" "add_error r"] handle_write_other by (simp_all add: untouched_def)
  have "untouched fd r r'"
    using assms(3,5) False other handle_read_other [OF not_sym [OF False]]
    by (auto simp: dispatch_event_def handle_accept_def clear_wakeup_def untouched_def split: if_splits sum.splits)
  with assms(4) False untouched_stream show ?thesis by simp
next
  case True
  have sent: "client_stream (handle_write (ev_send ev) (ev_sqe ev) fd r1) fd \<in> {None, client_stream r1 fd}"
    if ok: "reactor_ok cfg r1" and st: "client_stream r1 fd = Some s1" for r1 s1
  proof -
    obtain c sk where c: "wr_connections r1 fd = Some c" "kn_socks (wr_kernel r1) fd = Some sk"
      using st by (rule client_stream_SomeE)
    have "cn_write_offset c \<le> length (cn_write_buf c)" using reactor_okD(2) [OF ok c(1)] by (simp add: write_ok_def)
    with c show ?thesis by (rule handle_write_stream)
  qed
  have quiet: "?thesis" if "ev_events ev AND (EPOLLERR OR EPOLLHUP) \<noteq> 0"
    using that assms(3,6,7) True by (auto simp: dispatch_event_def split: if_splits)
  show ?thesis
  proof (cases "ev_events ev AND (EPOLLERR OR EPOLLHUP) = 0")
    case True
    note flags = this \<open>ev_fd ev = fd\<close> assms(6,7)
    let ?r1 = "if ev_events ev AND EPOLLIN \<noteq> 0 then handle_read (ev_recv ev) (ev_env ev) cfg fd r else Inr r"
    obtain r1 where r1: "?r1 = Inr r1"
      and r': "r' = (if ev_events ev AND EPOLLOUT \<noteq> 0 then handle_write (ev_send ev) (ev_sqe ev) fd r1 else r1)"
      using assms(3) flags by (auto simp: dispatch_event_def split: sum.splits)
    have ok: "reactor_ok cfg r1" using r1 assms(1) handle_read_ok [OF assms(1)] by (auto split: if_splits)
    have "kn_socks (wr_kernel r1) fd = None \<or> client_stream r1 fd = Some (s @ event_answer cfg ev r)"
      using r1 assms(4) flags handle_read_stream [OF assms(1,4), of "ev_recv ev" "ev_env ev" r1]
      by (auto simp: event_answer_def event_request_def split: if_splits flow.splits sum.splits)
    moreover have "client_stream r' fd = None" if "kn_socks (wr_kernel r1) fd = None"
      using that r' handle_write_gone by (simp add: client_stream_def split: option.splits)
    ultimately show ?thesis using sent [OF ok] r' flags(2) by (auto split: if_splits)
  qed (use quiet in blast)
qed

text \<open>A response of another reactor is appended to the stream of the connection it is for.\<close>

lemma deliver_response_stream:
  assumes "reactor_ok cfg r" and "client_stream r (fs_client_fd resp) = Some s"
  shows "client_stream (deliver_response resp r) (fs_client_fd resp) = Some (s @ fs_data resp)"
proof -
  let ?fd = "fs_client_fd resp"
  obtain c sk where c: "wr_connections r ?fd = Some c" "kn_socks (wr_kernel r) ?fd = Some sk" "s = sk_out sk @ pending c"
    using assms(2) by (rule client_stream_SomeE)
  have w: "write_ok c" using reactor_okD(2) [OF assms(1) c(1)] .
  have "outs (wr_kernel r) ?fd = Some (sk_out sk, sk_room sk)" using c(2) by (simp add: outs_def)
  with c w show ?thesis by (simp add: deliver_response_def Let_def client_stream_put pending_enqueue)
qed

text \<open>A response finds its connection by the descriptor alone: when the client has gone meanwhile and
  another one was given its descriptor, the new client receives the answer.\<close>

lemma late_response_reaches_new_client:
  assumes "fs_client_fd resp = fd" and "ac_fd a = fd" and "0 \<le>s fd" and "ac_flags_ok a" and "ac_epoll_ok a"
    and "reactor_ok cfg (handle_accept a (close_connection fd r))"
  shows "client_stream (deliver_response resp (handle_accept a (close_connection fd r))) fd =
    Some (sk_out (ac_sock a) @ fs_data resp)"
proof -
  have "client_stream (handle_accept a (close_connection fd r)) fd = Some (sk_out (ac_sock a))"
    using assms(2-5)
    by (simp add: handle_accept_def client_stream_def pending_def new_connection_def word_sless_alt word_sle_eq)
  with deliver_response_stream [OF assms(6), of resp] assms(1) show ?thesis by simp
qed

text \<open>The completion of a splice that is under way loses nothing that was queued.\<close>

lemma harvest_one_stream:
  assumes "reactor_ok cfg r"
    and "\<And>c. wr_connections r (ucast (drop_bit 1 (cqe_user_data cqe))) = Some c \<Longrightarrow> cn_splice_pending c"
  shows "client_stream (harvest_one cqe r) fd = client_stream r fd"
proof -
  let ?fd = "ucast (drop_bit 1 (cqe_user_data cqe)) :: int32_t"
  have adv: "client_stream (advance_write_queue ?fd (put_conn ?fd (c\<lparr>cn_splice_pending := False\<rparr>) r1)) fd = client_stream r fd"
    if c: "wr_connections r ?fd = Some c" and r1: "wr_connections r1 = wr_connections r" "wr_kernel r1 = wr_kernel r" for c r1
  proof (cases "fd = ?fd")
    case True
    let ?r = "put_conn ?fd (c\<lparr>cn_splice_pending := False\<rparr>) r1"
    have "length (cn_write_buf c) \<le> cn_write_offset c"
      using reactor_okD(2) [OF assms(1) c] assms(2) [OF c] by (simp add: write_ok_def)
    then have "client_stream (advance_write_queue ?fd ?r) ?fd = client_stream ?r ?fd"
      by (intro advance_write_queue_stream [where c = "c\<lparr>cn_splice_pending := False\<rparr>"]) simp_all
    moreover have "client_stream ?r ?fd = client_stream r ?fd"
      using c r1 by (simp add: client_stream_def split: option.split)
    ultimately show ?thesis using True by simp
  next
    case False
    with r1 show ?thesis
      by (intro untouched_stream) (auto simp: untouched_def advance_write_queue_def Let_def split: list.splits)
  qed
  then show ?thesis by (auto simp: harvest_one_def Let_def split: option.splits)
qed

section \<open>From the socket to the socket\<close>

text \<open>An open connection that waits for a request and has nothing to send.\<close>

definition resting :: "WorkerReactor \<Rightarrow> int32_t \<Rightarrow> bool" where
  "resting r fd \<longleftrightarrow>
     kn_interest (wr_kernel r) fd = Some EpollIn \<and>
     (case wr_connections r fd of
        None \<Rightarrow> False
      | Some c \<Rightarrow> cn_read_buf c = [] \<and> \<not> cn_have_header c \<and> cn_write_buf c = [] \<and> cn_write_offset c = 0 \<and>
          cn_write_queue c = [] \<and> cn_splice_fd c <s 0 \<and> \<not> cn_splice_pending c)"

lemma restingE:
  assumes "resting r fd"
  obtains c where "wr_connections r fd = Some c" "conn_at r fd = c" "kn_interest (wr_kernel r) fd = Some EpollIn"
    "cn_read_buf c = []" "\<not> cn_have_header c" "cn_write_buf c = []" "cn_write_offset c = 0" "cn_write_queue c = []"
    "cn_splice_fd c <s 0" "\<not> cn_splice_pending c"
  using assms by (auto simp: resting_def conn_at_def split: option.splits)

text \<open>A complete frame in the socket is collected in one event.\<close>

lemma read_frame_complete:
  assumes "reactor_ok cfg r" and "resting r fd" and "kn_socks (wr_kernel r) fd = Some sk"
    and "sk_in sk = frame body @ ext" and "length body < 2 ^ 31" and "length body \<le> unat (rc_max_message_bytes cfg)"
    and "\<forall>i. transfers (an i)"
  obtains r1 sk1 where "read_frame an cfg fd r = Continue r1" "staged fd r r1 (conn_at r1 fd)"
    "drop 4 (cn_read_buf (conn_at r1 fd)) = body"
    "kn_socks (wr_kernel r1) fd = Some sk1" "sk_in sk1 = ext" "sk_out sk1 = sk_out sk" "sk_room sk1 = sk_room sk"
proof -
  obtain c where c: "wr_connections r fd = Some c" "cn_read_buf c = []"
    using assms(2) by (rule restingE)
  have len: "length (frame body) = 4 + length body" by (simp add: frame_def)
  have "frame_step (unat (rc_max_message_bytes cfg)) [] (frame body @ ext) = Frame (frame body) ext"
    using assms(5,6) len frame_length_frame [OF assms(5), of ext] by (auto simp: frame_step_def Let_def)
  with read_frame_outcome [OF assms(1) c(1) assms(3), of an] assms(4,7) c(2)
  have out: "flow_outcome fd (read_frame an cfg fd r) = Frame (frame body) ext" by simp
  then obtain r1 where r1: "read_frame an cfg fd r = Continue r1"
    by (cases "read_frame an cfg fd r") (auto split: option.splits)
  have st: "staged fd r r1 (conn_at r1 fd)"
    using assms(1) by (cases rule: read_frame_cases [of cfg r an fd]) (use r1 in simp_all)
  from out r1 obtain sk1 where sk1: "kn_socks (wr_kernel r1) fd = Some sk1" "sk_in sk1 = ext"
    and buf: "cn_read_buf (conn_at r1 fd) = frame body"
    by (auto split: option.splits)
  have "outs (wr_kernel r1) fd = outs (wr_kernel r) fd" using stagedD(11) [OF st] by simp
  then have "sk_out sk1 = sk_out sk" "sk_room sk1 = sk_room sk" using sk1 assms(3) by (simp_all add: outs_def)
  with that [OF r1 st _ sk1] buf show thesis by (simp add: frame_def)
qed

text \<open>Sending a single queued answer into a socket with room for it.\<close>

lemma handle_write_answer:
  assumes "wr_connections r fd = Some c" and "kn_socks (wr_kernel r) fd = Some sk"
    and "kn_interest (wr_kernel r) fd = Some EpollInOut"
    and "cn_write_buf c = data" and "cn_write_offset c = 0" and "cn_write_queue c = []"
    and "cn_splice_fd c <s 0" and "\<not> cn_splice_pending c" and "cn_read_buf c = []" and "\<not> cn_have_header c"
    and "length data \<le> sk_room sk" and "transfers an"
  shows "resting (handle_write an sqe fd r) fd \<and>
    (\<exists>sk'. kn_socks (wr_kernel (handle_write an sqe fd r)) fd = Some sk' \<and>
       sk_in sk' = sk_in sk \<and> sk_out sk' = sk_out sk @ data)"
proof -
  have c: "conn_at r fd = c" using assms(1) by (simp add: conn_at_def)
  obtain n sk' where s: "send_all an data sk = (Inr n, sk')" using send_all_ok [of an data sk] assms(12) unfolding transfers_def by blast
  note sent = send_all_result [OF s]
  have n: "n = length data" using sent(1) assms(11) by simp
  have f: "send_fd an fd data (wr_kernel r) = (Inr n, (wr_kernel r)\<lparr>kn_socks := (kn_socks (wr_kernel r))(fd \<mapsto> sk')\<rparr>)"
    using s assms(2) by (simp add: send_fd_def)
  have "\<not> 0 \<le>s cn_splice_fd c" using assms(7) by (simp add: word_sless_alt word_sle_eq)
  then show ?thesis
    using assms(1-10) sent(2) f n
    by (simp add: handle_write_def finish_write_def advance_write_queue_def c Let_def resting_def)
qed

text \<open>A connection with one answer to send.\<close>

definition answering :: "WorkerReactor \<Rightarrow> int32_t \<Rightarrow> bytes \<Rightarrow> bool" where
  "answering r fd data \<longleftrightarrow>
     kn_interest (wr_kernel r) fd = Some EpollInOut \<and>
     (case wr_connections r fd of
        None \<Rightarrow> False
      | Some c \<Rightarrow> cn_write_buf c = data \<and> cn_write_offset c = 0 \<and> cn_write_queue c = [] \<and> cn_splice_fd c <s 0 \<and>
          \<not> cn_splice_pending c \<and> cn_read_buf c = [] \<and> \<not> cn_have_header c)"

lemma answering_sent:
  assumes "answering r fd data" and "kn_socks (wr_kernel r) fd = Some sk"
    and "length data \<le> sk_room sk" and "transfers an"
  shows "resting (handle_write an sqe fd r) fd \<and>
    (\<exists>sk'. kn_socks (wr_kernel (handle_write an sqe fd r)) fd = Some sk' \<and>
       sk_in sk' = sk_in sk \<and> sk_out sk' = sk_out sk @ data)"
proof -
  obtain c where "wr_connections r fd = Some c" "cn_write_buf c = data" "cn_write_offset c = 0" "cn_write_queue c = []"
      "cn_splice_fd c <s 0" "\<not> cn_splice_pending c" "cn_read_buf c = []" "\<not> cn_have_header c"
      "kn_interest (wr_kernel r) fd = Some EpollInOut"
    using assms(1) by (auto simp: answering_def split: option.splits)
  then show ?thesis using assms(2-4) by (intro handle_write_answer) auto
qed

lemma resting_staged:
  assumes "resting r fd" and "staged fd r r1 c1"
  shows "cn_write_buf c1 = []" "cn_write_offset c1 = 0" "cn_write_queue c1 = []" "cn_splice_fd c1 <s 0"
    "\<not> cn_splice_pending c1" "kn_interest (wr_kernel r1) fd = Some EpollIn"
  using assms(1) by (rule restingE, use assms(2) in \<open>auto simp: staged_def\<close>)+

lemma answer_locally_resting:
  assumes "resting r fd" and "staged fd r r1 (conn_at r1 fd)"
    and "handle (rc_handler cfg) e req (wr_broker r) = (Inr resp, b)" and "serialize resp = Some buf"
    and "last_splice resp = None" and "length buf \<le> rc_max_write_buffer_bytes cfg"
  shows "\<exists>r'. answer_locally e cfg fd req r1 = Inr r' \<and> answering r' fd buf \<and> wr_broker r' = b \<and>
    wr_queues r' = wr_queues r1 \<and> kn_socks (wr_kernel r') fd = kn_socks (wr_kernel r1) fd"
  using assms(3-6) resting_staged [OF assms(1,2)] stagedD(3) [OF assms(2)]
  by (simp add: answer_locally_def Let_def set_splice_def enqueue_def was_idle_def reset_read_def answering_def)

text \<open>A request in the socket, up to the point where it is processed.\<close>

definition request_arrived ::
    "ReactorConfig \<Rightarrow> WorkerReactor \<Rightarrow> int32_t \<Rightarrow> sock \<Rightarrow> bytes \<Rightarrow> bytes \<Rightarrow> bool" where
  "request_arrived cfg r fd sk body ext \<longleftrightarrow>
     resting r fd \<and> kn_socks (wr_kernel r) fd = Some sk \<and> sk_in sk = frame body @ ext \<and>
     length body < 2 ^ 31 \<and> length body \<le> unat (rc_max_message_bytes cfg)"

lemma handle_read_arrived:
  assumes "reactor_ok cfg r" and "request_arrived cfg r fd sk body ext" and "parse_request body = Inr req"
    and "\<forall>i. transfers (an i)"
  obtains r1 sk1 where "staged fd r r1 (conn_at r1 fd)" "kn_socks (wr_kernel r1) fd = Some sk1"
    "sk_in sk1 = ext" "sk_out sk1 = sk_out sk" "sk_room sk1 = sk_room sk"
    "handled_here cfg req \<and> sr_reactor_count (rc_router cfg) \<noteq> 0 \<longrightarrow>
       handle_read an e cfg fd r = answer_locally e cfg fd req r1"
    "\<forall>target. request_owner cfg req = Some target \<and> target \<noteq> rc_reactor_id cfg \<longrightarrow>
       handle_read an e cfg fd r = forward_request fd target cfg req r1"
proof -
  from assms(2) have a: "resting r fd" "kn_socks (wr_kernel r) fd = Some sk" "sk_in sk = frame body @ ext"
    "length body < 2 ^ 31" "length body \<le> unat (rc_max_message_bytes cfg)"
    by (simp_all add: request_arrived_def)
  obtain r1 sk1 where r1: "read_frame an cfg fd r = Continue r1" "staged fd r r1 (conn_at r1 fd)"
      "drop 4 (cn_read_buf (conn_at r1 fd)) = body"
      "kn_socks (wr_kernel r1) fd = Some sk1" "sk_in sk1 = ext" "sk_out sk1 = sk_out sk" "sk_room sk1 = sk_room sk"
    using read_frame_complete [OF assms(1) a assms(4)] by blast
  have hr: "handle_read an e cfg fd r = process_request e cfg fd r1" by (simp add: handle_read_def r1(1))
  show thesis
    by (rule that [OF r1(2,4-7)])
      (auto simp: hr r1(3) process_request_def assms(3) handled_here_def request_owner_def route_def
        split: option.splits if_splits)
qed

lemma request_reply_local:
  assumes "reactor_ok cfg r" and "request_arrived cfg r fd sk body ext" and "parse_request body = Inr req"
    and "handled_here cfg req" and "sr_reactor_count (rc_router cfg) \<noteq> 0"
    and "handle (rc_handler cfg) e req (wr_broker r) = (Inr resp, b)" and "serialize resp = Some buf"
    and "last_splice resp = None" and "length buf \<le> rc_max_write_buffer_bytes cfg" and "length buf \<le> sk_room sk"
    and "\<forall>i. transfers (an i)" and "transfers an'"
  shows "\<exists>r1 sk2. handle_read an e cfg fd r = Inr r1 \<and> answering r1 fd buf \<and> wr_queues r1 = wr_queues r \<and>
    resting (handle_write an' sqe fd r1) fd \<and> wr_broker (handle_write an' sqe fd r1) = b \<and>
    kn_socks (wr_kernel (handle_write an' sqe fd r1)) fd = Some sk2 \<and> sk_in sk2 = ext \<and> sk_out sk2 = sk_out sk @ buf"
proof -
  obtain r1 sk1 where st: "staged fd r r1 (conn_at r1 fd)" and sk1: "kn_socks (wr_kernel r1) fd = Some sk1"
      "sk_in sk1 = ext" "sk_out sk1 = sk_out sk" "sk_room sk1 = sk_room sk"
    and hr: "handle_read an e cfg fd r = answer_locally e cfg fd req r1"
    using handle_read_arrived [OF assms(1-3,11), where e = e] assms(4,5) by blast
  have rest: "resting r fd" using assms(2) by (simp add: request_arrived_def)
  obtain r2 where r2: "answer_locally e cfg fd req r1 = Inr r2" "answering r2 fd buf" "wr_broker r2 = b"
      "kn_socks (wr_kernel r2) fd = Some sk1" "wr_queues r2 = wr_queues r"
    using answer_locally_resting [OF rest st assms(6-9)] sk1(1) stagedD(4) [OF st] by auto
  from answering_sent [OF r2(2,4), of an' sqe] sk1 assms(10,12) r2 hr show ?thesis by auto
qed

text \<open>The detour: the reactor that received the request hands it over, \<dots>\<close>

lemma forward_arrived:
  assumes "reactor_ok cfg r" and "request_arrived cfg r fd sk body ext" and "parse_request body = Inr req"
    and "request_owner cfg req = Some j" and "j \<noteq> rc_reactor_id cfg" and "j < length (wr_queues r)"
    and "\<forall>i. transfers (an i)"
  obtains r1 sk1 where "handle_read an e cfg fd r = Inr r1" "resting r1 fd" "wr_broker r1 = wr_broker r"
    "wr_queues r1 = (wr_queues r)[j := push_request (forwarded cfg fd req) (wr_queues r ! j)]"
    "kn_socks (wr_kernel r1) fd = Some sk1" "sk_in sk1 = ext" "sk_out sk1 = sk_out sk" "sk_room sk1 = sk_room sk"
proof -
  obtain r1 sk1 where st: "staged fd r r1 (conn_at r1 fd)" and sk1: "kn_socks (wr_kernel r1) fd = Some sk1"
      "sk_in sk1 = ext" "sk_out sk1 = sk_out sk" "sk_room sk1 = sk_room sk"
    and to: "\<forall>target. request_owner cfg req = Some target \<and> target \<noteq> rc_reactor_id cfg \<longrightarrow>
       handle_read an e cfg fd r = forward_request fd target cfg req r1"
    by (rule handle_read_arrived [OF assms(1-3,7), where e = e]) blast
  have hr: "handle_read an e cfg fd r = forward_request fd j cfg req r1" using to assms(4,5) by blast
  have rest: "resting r fd" using assms(2) by (simp add: request_arrived_def)
  define r2 where "r2 = put_conn fd (reset_read (conn_at r1 fd)) (add_request (4 + cn_expected_len (conn_at r1 fd))
    (r1\<lparr>wr_queues := (wr_queues r)[j := push_request (forwarded cfg fd req) (wr_queues r ! j)]\<rparr>))"
  have "handle_read an e cfg fd r = Inr r2"
    using hr assms(6) stagedD(4) [OF st] by (simp add: forward_request_def Let_def r2_def forwarded_def)
  moreover have "resting r2 fd"
    using resting_staged [OF rest st] by (simp add: r2_def resting_def reset_read_def)
  ultimately show thesis
    using that [of r2 sk1] sk1 stagedD(3) [OF st] by (simp add: r2_def)
qed

text \<open>\<dots> the owner answers it, \<dots>\<close>

lemma drain_request_answers:
  assumes "rc_reactor_id cfg = j" and "j < length (wr_queues r)" and "src < length (wr_queues r)" and "src \<noteq> j"
    and "cq_requests (wr_queues r ! j) = [fwd]" and "unat (fq_source_reactor_id fwd) = src"
    and "handle (rc_handler cfg) e (fq_request fwd) (wr_broker r) = (Inr resp, b)" and "serialize resp = Some buf"
    and "last_splice resp = None"
  shows "drain_request e cfg r = Some (Inr (r\<lparr>wr_broker := b,
    wr_queues := (wr_queues r)[j := (wr_queues r ! j)\<lparr>cq_requests := []\<rparr>,
      src := push_response \<lparr>fs_client_fd = fq_client_fd fwd, fs_data = buf, fs_splice_fd = - 1, fs_splice_len = 0\<rparr>
        (wr_queues r ! src)]\<rparr>))"
  using assms by (simp add: drain_request_def try_pop_request_def Let_def)

text \<open>\<dots> and the first one passes the answer on.\<close>

lemma drain_response_delivers:
  assumes "rc_reactor_id cfg = i" and "cq_responses (wr_queues r ! i) =
      [\<lparr>fs_client_fd = fd, fs_data = buf, fs_splice_fd = - 1, fs_splice_len = 0\<rparr>]"
    and "resting r fd"
  obtains r' where "drain_response cfg r = Some r'" "answering r' fd buf"
    "kn_socks (wr_kernel r') fd = kn_socks (wr_kernel r) fd"
proof -
  obtain c where c: "wr_connections r fd = Some c" "kn_interest (wr_kernel r) fd = Some EpollIn"
    "cn_read_buf c = []" "\<not> cn_have_header c" "cn_write_buf c = []" "cn_write_offset c = 0" "cn_write_queue c = []"
    "cn_splice_fd c <s 0" "\<not> cn_splice_pending c"
    using assms(3) by (rule restingE) blast
  let ?resp = "\<lparr>fs_client_fd = fd, fs_data = buf, fs_splice_fd = - 1, fs_splice_len = 0\<rparr>"
  let ?q = "(wr_queues r ! i)\<lparr>cq_responses := []\<rparr>"
  have neg: "\<not> 0 \<le>s (- 1 :: int32_t)" by (simp add: word_sle_eq)
  show thesis
    by (rule that [of "deliver_response ?resp (r\<lparr>wr_queues := (wr_queues r)[i := ?q]\<rparr>)"])
      (use assms(1,2) c neg in \<open>simp_all add: drain_response_def try_pop_response_def deliver_response_def
        was_idle_def enqueue_def answering_def\<close>)
qed

lemma put_reactor_queues [simp]: "sv_queues (put_reactor i r s) = wr_queues r"
  by (simp add: put_reactor_def)

lemma view_put_same:
  "i < length (sv_reactors s) \<Longrightarrow> i \<noteq> j \<Longrightarrow>
   wr_connections (reactor_view i (put_reactor j r2 (put_reactor i r1 s))) = wr_connections r1 \<and>
   wr_kernel (reactor_view i (put_reactor j r2 (put_reactor i r1 s))) = wr_kernel r1"
  by (simp add: reactor_view_def put_reactor_def Let_def)

lemma view_put_other:
  assumes "i \<noteq> j" and "wr_broker r1 = wr_broker (reactor_view i s)"
  shows "wr_broker (reactor_view j (put_reactor i r1 s)) = wr_broker (reactor_view j s)"
  using assms by (simp add: reactor_view_def put_reactor_def Let_def)

end
