(* ===== verification/Logger.thy ===== *)
theory Logger
  imports Text_Format "HOL-Library.List_Lexorder" "HOL-Library.Char_ord"
begin

text \<open>
  The log lines of \<open>src/src/logging/logger.cpp\<close>: the time stamp in UTC with milliseconds, the
  level, the thread and, where there is one, the request. The clock is an argument, in milliseconds
  since 1970; \<open>gmtime_r\<close> is the Gregorian calendar. A line is written under a mutex, so the error
  stream is a sequence of whole lines.
\<close>

section \<open>The calendar\<close>

record tm =
  tm_year :: nat
  tm_mon :: nat
  tm_mday :: nat
  tm_hour :: nat
  tm_min :: nat
  tm_sec :: nat

definition leap :: "nat \<Rightarrow> bool" where
  "leap y \<longleftrightarrow> y mod 4 = 0 \<and> y mod 100 \<noteq> 0 \<or> y mod 400 = 0"

definition year_days :: "nat \<Rightarrow> nat" where
  "year_days y = (if leap y then 366 else 365)"

definition month_days :: "nat \<Rightarrow> nat \<Rightarrow> nat" where
  "month_days y m = (if m = 1 then if leap y then 29 else 28 else if m \<in> {3, 5, 8, 10} then 30 else 31)"

text \<open>The year and the day in it, counting days from the first of January of a year; then the month,
  counted from 0, and the day in it.\<close>

function civil_year :: "nat \<Rightarrow> nat \<Rightarrow> nat \<times> nat" where
  "civil_year y d = (if d < year_days y then (y, d) else civil_year (y + 1) (d - year_days y))"
  by pat_completeness auto
termination
  by (relation "measure snd") (auto simp: year_days_def split: if_splits)

function civil_month :: "nat \<Rightarrow> nat \<Rightarrow> nat \<Rightarrow> nat \<times> nat" where
  "civil_month y m d =
     (if 11 \<le> m \<or> d < month_days y m then (m, d) else civil_month y (m + 1) (d - month_days y m))"
  by pat_completeness auto
termination
  by (relation "measure (\<lambda>(_, m, _). 11 - m)") auto

declare civil_year.simps [simp del] civil_month.simps [simp del]

definition gmtime_r :: "nat \<Rightarrow> tm" where
  "gmtime_r t =
     (let (y, yd) = civil_year 1970 (t div 86400);
          (m, d) = civil_month y 0 yd;
          s = t mod 86400
      in \<lparr>tm_year = y - 1900, tm_mon = m, tm_mday = d + 1,
          tm_hour = s div 3600, tm_min = s mod 3600 div 60, tm_sec = s mod 60\<rparr>)"

section \<open>Lines\<close>

text \<open>\<open>{:0wd}\<close> of a number that is not negative.\<close>

definition padded :: "nat \<Rightarrow> nat \<Rightarrow> string" where
  "padded w n = zero_pad w (digits n)"

definition current_timestamp :: "nat \<Rightarrow> string" where
  "current_timestamp now =
     (let utc = gmtime_r (now div 1000); ms = now mod 1000
      in padded 4 (tm_year utc + 1900) @ ''-'' @ padded 2 (tm_mon utc + 1) @ ''-'' @ padded 2 (tm_mday utc) @ '' '' @
         padded 2 (tm_hour utc) @ '':'' @ padded 2 (tm_min utc) @ '':'' @ padded 2 (tm_sec utc) @ ''.'' @ padded 3 ms)"

text \<open>The thread and the clock a line is written with, and the lines on the error stream.\<close>

record log_env =
  le_now :: nat
  le_tid :: int32_t

definition log_line :: "log_env \<Rightarrow> string \<Rightarrow> string \<Rightarrow> uint32_t \<Rightarrow> string" where
  "log_line e level msg request_id =
     ''['' @ current_timestamp (le_now e) @ '']['' @ level @ ''][T:'' @ to_string (le_tid e) @
     (if request_id \<noteq> 0 then ''][R:'' @ digits (unat request_id) else []) @ ''] '' @ msg @ ''\<newline>''"

definition write_log :: "log_env \<Rightarrow> string \<Rightarrow> string \<Rightarrow> uint32_t \<Rightarrow> string list \<Rightarrow> string list" where
  "write_log e level msg request_id out = out @ [log_line e level msg request_id]"

definition log_debug :: "log_env \<Rightarrow> string \<Rightarrow> uint32_t \<Rightarrow> string list \<Rightarrow> string list" where
  "log_debug e msg request_id = write_log e ''DEBUG'' msg request_id"

definition log_info :: "log_env \<Rightarrow> string \<Rightarrow> uint32_t \<Rightarrow> string list \<Rightarrow> string list" where
  "log_info e msg request_id = write_log e ''INFO '' msg request_id"

definition log_warn :: "log_env \<Rightarrow> string \<Rightarrow> uint32_t \<Rightarrow> string list \<Rightarrow> string list" where
  "log_warn e msg request_id = write_log e ''WARN '' msg request_id"

definition log_error :: "log_env \<Rightarrow> string \<Rightarrow> uint32_t \<Rightarrow> string list \<Rightarrow> string list" where
  "log_error e msg request_id = write_log e ''ERROR'' msg request_id"

section \<open>The calendar keeps the order\<close>

lemma civil_year_ge: "y \<le> fst (civil_year y d)"
proof (induction y d rule: civil_year.induct)
  case (1 y d)
  then show ?case by (subst civil_year.simps) (auto simp: year_days_def split: if_splits)
qed

lemma civil_month_ge: "m \<le> fst (civil_month y m d)"
proof (induction y m d rule: civil_month.induct)
  case (1 y m d)
  then show ?case by (subst civil_month.simps) auto
qed

lemma civil_year_mono:
  "d < d' \<Longrightarrow> civil_year y d = (y1, r1) \<Longrightarrow> civil_year y d' = (y2, r2) \<Longrightarrow> y1 < y2 \<or> y1 = y2 \<and> r1 < r2"
proof (induction y d arbitrary: d' rule: civil_year.induct)
  case (1 y d)
  show ?case
  proof (cases "d < year_days y")
    case True
    have "y < y2 \<or> y = y2 \<and> d < r2"
      using 1(2,4) civil_year_ge [of "y + 1" "d' - year_days y"]
      by (cases "d' < year_days y") (simp_all add: civil_year.simps [of y d'])
    with True 1(3) show ?thesis by (simp add: civil_year.simps [of y d])
  next
    case False
    with 1(2-) show ?thesis
      using 1(1) [OF False, of "d' - year_days y"]
      by (auto simp: civil_year.simps [of y d] civil_year.simps [of y d'])
  qed
qed

lemma civil_month_mono:
  "d < d' \<Longrightarrow> civil_month y m d = (m1, r1) \<Longrightarrow> civil_month y m d' = (m2, r2) \<Longrightarrow> m1 < m2 \<or> m1 = m2 \<and> r1 < r2"
proof (induction y m d arbitrary: d' rule: civil_month.induct)
  case (1 y m d)
  show ?case
  proof (cases "11 \<le> m \<or> d < month_days y m")
    case True
    have "m < m2 \<or> m = m2 \<and> d < r2"
      using 1(2,4) civil_month_ge [of "m + 1" y "d' - month_days y m"]
      by (cases "11 \<le> m \<or> d' < month_days y m") (simp_all add: civil_month.simps [of y m d'])
    with True 1(3) show ?thesis by (simp add: civil_month.simps [of y m d])
  next
    case False
    with 1(2-) show ?thesis
      using 1(1) [OF False, of "d' - month_days y m"]
      by (auto simp: civil_month.simps [of y m d] civil_month.simps [of y m d'])
  qed
qed

text \<open>Quotients and remainders, compared digit by digit.\<close>

lemma div_mod_mono: "a < b \<Longrightarrow> a div k < b div k \<or> a div k = b div k \<and> a mod k < b mod (k :: nat)"
  by (metis div_le_mono div_mult_mod_eq le_neq_implies_less less_imp_le nat_add_left_cancel_less)

text \<open>The fields of a time stamp, most significant first.\<close>

definition stamp_fields :: "nat \<Rightarrow> nat list" where
  "stamp_fields now =
     (let utc = gmtime_r (now div 1000)
      in [tm_year utc + 1900, tm_mon utc + 1, tm_mday utc, tm_hour utc, tm_min utc, tm_sec utc, now mod 1000])"

lemma date_mono:
  assumes "d < d'" and "civil_year 1970 d = (y1, r1)" and "civil_year 1970 d' = (y2, r2)"
    and "civil_month y1 0 r1 = (m1, k1)" and "civil_month y2 0 r2 = (m2, k2)"
  shows "[y1, m1, k1] < [y2, m2, k2]"
  using civil_year_mono [OF assms(1-3)] civil_month_mono [OF _ assms(4), of r2] assms(5) by auto

lemma time_mono:
  assumes "(s :: nat) < s'"
  shows "[s div 3600, s mod 3600 div 60, s mod 60] < [s' div 3600, s' mod 3600 div 60, s' mod 60]"
proof -
  have "s mod 3600 mod 60 = s mod 60" "s' mod 3600 mod 60 = s' mod 60" by (simp_all add: mod_mod_cancel)
  then show ?thesis
    using div_mod_mono [OF assms, of 3600] div_mod_mono [of "s mod 3600" "s' mod 3600" 60] by auto
qed

lemma less_append_same_length:
  "(xs :: 'a :: linorder list) < ys \<Longrightarrow> length xs = length ys \<Longrightarrow> xs @ us < ys @ vs"
  by (simp add: list_less_def lexord_sufI)

lemma less_append_left: "(us :: 'a :: linorder list) < vs \<Longrightarrow> xs @ us < xs @ vs"
  by (simp add: list_less_def lexord_append_leftI)

lemma append_mono:
  assumes "xs < ys \<or> xs = ys \<and> us < vs" and "length (xs :: 'a :: linorder list) = length ys"
  shows "xs @ us < ys @ vs"
  using assms less_append_same_length less_append_left by blast

lemma stamp_fields_split:
  assumes "civil_year 1970 (now div 1000 div 86400) = (y, r)" and "civil_month y 0 r = (m, k)"
  shows "stamp_fields now = [y, m + 1, k + 1] @
    [now div 1000 mod 86400 div 3600, now div 1000 mod 86400 mod 3600 div 60, now div 1000 mod 86400 mod 60] @ [now mod 1000]"
  using civil_year_ge [of 1970 "now div 1000 div 86400"] assms by (simp add: stamp_fields_def gmtime_r_def Let_def)

lemma stamp_fields_mono:
  assumes "now < now'"
  shows "stamp_fields now < stamp_fields now'"
proof -
  let ?t = "now div 1000" and ?t' = "now' div 1000"
  obtain y1 r1 m1 k1 where d: "civil_year 1970 (?t div 86400) = (y1, r1)" "civil_month y1 0 r1 = (m1, k1)"
    by (metis surj_pair)
  obtain y2 r2 m2 k2 where d': "civil_year 1970 (?t' div 86400) = (y2, r2)" "civil_month y2 0 r2 = (m2, k2)"
    by (metis surj_pair)
  let ?s = "?t mod 86400" and ?s' = "?t' mod 86400"
  note fields = stamp_fields_split [OF d] stamp_fields_split [OF d']
  consider "?t div 86400 < ?t' div 86400" | "?t div 86400 = ?t' div 86400" "?t mod 86400 < ?t' mod 86400"
    | "?t = ?t'" "now mod 1000 < now' mod 1000"
    using div_mod_mono [OF assms, of 1000] div_mod_mono [of ?t ?t' 86400] by blast
  then show ?thesis
  proof cases
    case 1
    from date_mono [OF this d(1) d'(1) d(2) d'(2)] have "[y1, m1 + 1, k1 + 1] < [y2, m2 + 1, k2 + 1]" by simp
    then show ?thesis unfolding fields by (intro append_mono disjI1) simp_all
  next
    case 2
    have date: "[y1, m1 + 1, k1 + 1] = [y2, m2 + 1, k2 + 1]" using 2(1) d d' by simp
    show ?thesis unfolding fields date
      by (intro less_append_left append_mono disjI1 time_mono 2(2)) (simp only: list.size)
  next
    case 3
    then have date: "[y1, m1 + 1, k1 + 1] = [y2, m2 + 1, k2 + 1]" using d d' by simp
    show ?thesis unfolding fields date 3(1) by (intro less_append_left) (simp add: 3(2))
  qed
qed

section \<open>The text of a time stamp\<close>

text \<open>A number in a field of fixed width, digit by digit.\<close>

fun fixed_width :: "nat \<Rightarrow> nat \<Rightarrow> string" where
  "fixed_width 0 n = []"
| "fixed_width (Suc w) n = fixed_width w (n div 10) @ [digit_char (n mod 10)]"

lemma length_fixed_width [simp]: "length (fixed_width w n) = w"
  by (induction w arbitrary: n) simp_all

lemma digit_char_0: "digit_char 0 = CHR ''0''"
  by code_simp

lemma fixed_width_0: "fixed_width w 0 = replicate w (CHR ''0'')"
  by (induction w) (simp_all add: digit_char_0 replicate_append_same)

lemma padded_fixed_width: "n < 10 ^ Suc w \<Longrightarrow> padded (Suc w) n = fixed_width (Suc w) n"
proof (induction w arbitrary: n)
  case 0
  then show ?case by (simp add: padded_def zero_pad_def digits.simps [of n])
next
  case (Suc w)
  show ?case
  proof (cases "n < 10")
    case True
    then have "fixed_width (Suc (Suc w)) n = replicate (Suc w) (CHR ''0'') @ [digit_char n]"
      by (simp add: fixed_width_0 [of "Suc w", simplified])
    with True show ?thesis by (simp add: padded_def zero_pad_def digits.simps [of n])
  next
    case False
    have "padded (Suc w) (n div 10) = fixed_width (Suc w) (n div 10)"
      using Suc.prems by (intro Suc.IH) (simp add: less_mult_imp_div_less mult.commute)
    moreover have "padded (Suc (Suc w)) n = padded (Suc w) (n div 10) @ [digit_char (n mod 10)]"
      using False by (simp add: padded_def zero_pad_def digits.simps [of n])
    ultimately show ?thesis by simp
  qed
qed

lemma digit_char_mono: "a < b \<Longrightarrow> b < 10 \<Longrightarrow> digit_char a < digit_char b"
  by (simp add: less_char_def of_digit_char)

lemma fixed_width_mono: "a < b \<Longrightarrow> b < 10 ^ w \<Longrightarrow> fixed_width w a < fixed_width w b"
proof (induction w arbitrary: a b)
  case (Suc w)
  have "fixed_width w (a div 10) < fixed_width w (b div 10) \<or>
      fixed_width w (a div 10) = fixed_width w (b div 10) \<and> [digit_char (a mod 10)] < [digit_char (b mod 10)]"
    using div_mod_mono [OF Suc.prems(1), of 10] Suc.IH [of "a div 10" "b div 10"] Suc.prems(2)
    by (auto simp: digit_char_mono less_mult_imp_div_less mult.commute)
  then show ?case unfolding fixed_width.simps by (rule append_mono) simp
qed simp

lemma padded_mono: "0 < w \<Longrightarrow> a < b \<Longrightarrow> b < 10 ^ w \<Longrightarrow> padded w a < padded w b"
  by (cases w) (simp_all only: padded_fixed_width fixed_width_mono order.strict_trans less_irrefl)

lemma length_padded: "0 < w \<Longrightarrow> n < 10 ^ w \<Longrightarrow> length (padded w n) = w"
  by (cases w) (simp_all only: padded_fixed_width length_fixed_width less_irrefl)

text \<open>Every field fits its width.\<close>

definition days_from :: "nat \<Rightarrow> nat \<Rightarrow> nat" where
  "days_from y m = sum_list (map (month_days y) [m..<12])"

lemma civil_year_day: "snd (civil_year y d) < year_days (fst (civil_year y d))"
proof (induction y d rule: civil_year.induct)
  case (1 y d)
  then show ?case by (subst (1 2) civil_year.simps) auto
qed

lemma civil_month_bounds:
  "d < days_from y m \<Longrightarrow> m \<le> 11 \<Longrightarrow> fst (civil_month y m d) \<le> 11 \<and> snd (civil_month y m d) < 31"
proof (induction y m d rule: civil_month.induct)
  case (1 y m d)
  have "month_days y m \<le> 31" by (simp add: month_days_def)
  show ?case
  proof (cases "11 \<le> m \<or> d < month_days y m")
    case True
    then have "civil_month y m d = (m, d)" by (simp add: civil_month.simps [of y m d])
    moreover have "days_from y 11 = 31" by (simp add: days_from_def month_days_def)
    ultimately show ?thesis
      using True 1(2,3) \<open>month_days y m \<le> 31\<close> by (cases "m = 11") auto
  next
    case False
    then have "days_from y m = month_days y m + days_from y (m + 1)"
      by (simp add: days_from_def upt_conv_Cons)
    with False 1(2) have "d - month_days y m < days_from y (m + 1)" by linarith
    with False 1(1) show ?thesis by (simp add: civil_month.simps [of y m d])
  qed
qed

lemma days_from_0: "days_from y 0 = year_days y"
  by (simp add: days_from_def month_days_def year_days_def upt_rec)

text \<open>Fields of given widths, each with what follows it.\<close>

fun joined :: "(nat \<times> string) list \<Rightarrow> nat list \<Rightarrow> string" where
  "joined ((w, sep) # ws) (n # ns) = padded w n @ sep @ joined ws ns"
| "joined _ _ = []"

definition fits :: "(nat \<times> string) list \<Rightarrow> nat list \<Rightarrow> bool" where
  "fits ws ns \<longleftrightarrow> list_all2 (\<lambda>(w, _) n. 0 < w \<and> n < 10 ^ w) ws ns"

lemma joined_mono: "fits ws ns \<Longrightarrow> fits ws ms \<Longrightarrow> ns < ms \<Longrightarrow> joined ws ns < joined ws ms"
proof (induction ws ns arbitrary: ms rule: joined.induct)
  case (1 w sep ws n ns)
  then obtain m ms' where ms: "ms = m # ms'" "0 < w" "m < 10 ^ w" "fits ws ms'" "n < 10 ^ w" "fits ws ns"
    by (auto simp: fits_def list_all2_Cons1)
  have "padded w n < padded w m \<or> padded w n = padded w m \<and> sep @ joined ws ns < sep @ joined ws ms'"
    using 1(4) 1(1) [OF ms(6,4)] padded_mono [OF ms(2) _ ms(3), of n] unfolding ms(1) by (auto intro: less_append_left)
  then show ?case
    unfolding ms(1) joined.simps by (rule append_mono) (simp only: length_padded ms(2,3,5))
qed (auto simp: fits_def)

definition stamp_format :: "(nat \<times> string) list" where
  "stamp_format = [(4, ''-''), (2, ''-''), (2, '' ''), (2, '':''), (2, '':''), (2, ''.''), (3, [])]"

lemma current_timestamp_fields: "current_timestamp now = joined stamp_format (stamp_fields now)"
  by (simp add: current_timestamp_def stamp_fields_def stamp_format_def Let_def)

lemma stamp_fields_fit:
  assumes "tm_year (gmtime_r (now div 1000)) + 1900 < 10000"
  shows "fits stamp_format (stamp_fields now)"
proof -
  obtain y r where y: "civil_year 1970 (now div 1000 div 86400) = (y, r)" by (metis surj_pair)
  obtain m k where m: "civil_month y 0 r = (m, k)" by (metis surj_pair)
  have "m \<le> 11" "k < 31"
    using civil_year_day [of 1970 "now div 1000 div 86400"] civil_month_bounds [of r y 0] y m
    by (simp_all add: days_from_0)
  moreover have "y < 10000" using assms y m by (simp add: gmtime_r_def Let_def)
  moreover have "s mod 86400 div 3600 < 100" "s mod 86400 mod 3600 div 60 < 100" "s mod 86400 mod 60 < 100" for s :: nat
    by (intro less_mult_imp_div_less, simp add: order.strict_trans [OF mod_less_divisor],
        intro less_mult_imp_div_less, simp add: order.strict_trans [OF mod_less_divisor],
        simp add: order.strict_trans [OF mod_less_divisor])
  ultimately show ?thesis
    unfolding stamp_fields_split [OF y m] by (simp add: fits_def stamp_format_def)
qed

text \<open>Log lines sort by time: as long as the year has four digits, a later time stamp is the
  larger string.\<close>

lemma current_timestamp_mono:
  assumes "now < now'" and "tm_year (gmtime_r (now' div 1000)) + 1900 < 10000"
  shows "current_timestamp now < current_timestamp now'"
proof -
  note less = stamp_fields_mono [OF assms(1)]
  then have "tm_year (gmtime_r (now div 1000)) \<le> tm_year (gmtime_r (now' div 1000))"
    by (auto simp: stamp_fields_def Let_def)
  with assms(2) less show ?thesis
    unfolding current_timestamp_fields by (intro joined_mono stamp_fields_fit) simp_all
qed

text \<open>The calendar across a leap day and a turn of the year.\<close>

lemma digit_chars:
  "map digit_char [0, 1, 2, 3, 4, 5, 6, 7, 8, 9] = ''0123456789''"
  by code_simp

lemma replicate_two: "replicate 2 c = [c, c]"
  by (simp add: numeral_2_eq_2)

lemma current_timestamp_samples:
  "current_timestamp 1709210096789 = ''2024-02-29 12:34:56.789''"
  "current_timestamp 1735689600000 = ''2025-01-01 00:00:00.000''"
  by (simp_all add: current_timestamp_def gmtime_r_def civil_year.simps civil_month.simps year_days_def
      month_days_def leap_def padded_def zero_pad_def digits.simps digit_chars [simplified] replicate_two numeral_2_eq_2 [symmetric])

text \<open>A line can be taken apart again: the number of the request and the message are determined by
  it.\<close>

lemma digits_then_bracket:
  assumes "digits m @ CHR '']'' # xs = digits n @ CHR '']'' # ys"
  shows "m = n \<and> xs = ys"
proof -
  have "c \<in> set (digits k) \<Longrightarrow> c \<noteq> CHR '']''" for c k
    using digits_are_digits [of k] by (auto simp: list_all_iff is_digit_def)
  then have "takeWhile (\<lambda>c. c \<noteq> CHR '']'') (digits k @ CHR '']'' # zs) = digits k" for k zs
    by (subst takeWhile_append2) auto
  from this [of m xs] this [of n ys] have "digits m = digits n" unfolding assms by simp
  with assms show ?thesis by (auto dest: digits_inj)
qed

lemma log_line_inj:
  assumes "log_line e level msg request_id = log_line e level msg' request_id'"
  shows "request_id = request_id' \<and> msg = msg'"
  using assms
  by (auto simp: log_line_def word_unat_eq_iff [symmetric] dest!: digits_then_bracket split: if_splits)

end
