(* ===== verification/Event_Loop.thy ===== *)
theory Event_Loop
  imports Server Logger
begin

text \<open>
  The loop of \<open>WorkerReactor::run\<close> (\<open>src/src/net/reactor.cpp\<close>) around the rounds of theory
  Reactor: the answers of \<open>epoll_wait\<close>, what the other reactors do meanwhile, and the report of the
  metrics every thirty seconds. Nothing sets \<open>running_\<close> to false, so the loop ends only when
  \<open>epoll_wait\<close> fails or a handler throws.
\<close>

section \<open>Metrics\<close>

record Snapshot =
  sn_requests_total :: uint64_t
  sn_bytes_received :: uint64_t
  sn_bytes_sent :: uint64_t
  sn_errors_total :: uint64_t

definition snapshot :: "BrokerMetrics \<Rightarrow> Snapshot" where
  "snapshot m = \<lparr>sn_requests_total = requests_total m, sn_bytes_received = bytes_received m,
     sn_bytes_sent = bytes_sent m, sn_errors_total = errors_total m\<rparr>"

definition active_connections :: "WorkerReactor \<Rightarrow> nat" where
  "active_connections r = card (dom (wr_connections r))"

definition log_metrics :: "ReactorConfig \<Rightarrow> log_env \<Rightarrow> WorkerReactor \<Rightarrow> string list \<Rightarrow> string list" where
  "log_metrics cfg le r =
     (let s = snapshot (wr_metrics r)
      in log_info le (''WorkerReactor '' @ digits (rc_reactor_id cfg) @
           '' metrics: requests_total='' @ digits (unat (sn_requests_total s)) @
           '' bytes_received='' @ digits (unat (sn_bytes_received s)) @
           '' bytes_sent='' @ digits (unat (sn_bytes_sent s)) @
           '' errors_total='' @ digits (unat (sn_errors_total s)) @
           '' active_connections='' @ digits (active_connections r)) 0)"

section \<open>The loop\<close>

text \<open>The state of the loop: the reactor, the time of the last report, and the lines the loop itself
  has logged. Times are those of the steady clock, in nanoseconds.\<close>

record loop_state =
  lp_reactor :: WorkerReactor
  lp_last_metrics_log :: int
  lp_out :: "string list"

definition kMetricsInterval :: int where
  "kMetricsInterval = 30 * 10 ^ 9"

text \<open>What the other threads did to the shared objects since the last round: the messages they pushed
  to the queues of this reactor, and the state they left the coordinator and the files in.\<close>

record meanwhile =
  mw_requests :: "ForwardedRequest list"
  mw_responses :: "ForwardedResponse list"
  mw_coordinator :: GroupCoordinator
  mw_os :: os_state

definition apply_others :: "ReactorConfig \<Rightarrow> meanwhile \<Rightarrow> WorkerReactor \<Rightarrow> WorkerReactor" where
  "apply_others cfg mw r =
     (let i = rc_reactor_id cfg;
          q = fold push_response (mw_responses mw) (fold push_request (mw_requests mw) (wr_queues r ! i))
      in r\<lparr>wr_queues := (wr_queues r)[i := q],
           wr_broker := \<lparr>bk_store = (bk_store (wr_broker r))\<lparr>ls_os := mw_os mw\<rparr>,
             bk_coordinator = mw_coordinator mw\<rparr>\<rparr>)"

text \<open>How \<open>epoll_wait\<close> returns: with the value of \<open>errno\<close>, or with events; then the completions that
  are harvested at the end of the round, and the clock behind it.\<close>

datatype wait_answer =
    Wait_failed nat
  | Wait_ready meanwhile "reactor_event list" "nat \<Rightarrow> broker_env" "completion list" int

definition EINTR :: nat where "EINTR = 4"

datatype loop_outcome =
    Loop_next loop_state
  | Loop_stopped loop_state
  | Loop_threw errc

definition report_metrics :: "ReactorConfig \<Rightarrow> log_env \<Rightarrow> int \<Rightarrow> loop_state \<Rightarrow> loop_state" where
  "report_metrics cfg le now st =
     (if kMetricsInterval \<le> now - lp_last_metrics_log st
      then st\<lparr>lp_out := log_metrics cfg le (lp_reactor st) (lp_out st), lp_last_metrics_log := now\<rparr>
      else st)"

fun run_turn :: "ReactorConfig \<Rightarrow> log_env \<Rightarrow> wait_answer \<Rightarrow> loop_state \<Rightarrow> loop_outcome" where
  "run_turn cfg le (Wait_failed errno) st =
     (if errno = EINTR then Loop_next st
      else Loop_stopped (st\<lparr>lp_out := log_error le (''WorkerReactor '' @ digits (rc_reactor_id cfg) @
             '': epoll_wait failed: '' @ digits errno) 0 (lp_out st)\<rparr>))"
| "run_turn cfg le (Wait_ready mw evs e cqes now) st =
     (case loop_round cfg evs e cqes (apply_others cfg mw (lp_reactor st)) of
        Inl err \<Rightarrow> Loop_threw err
      | Inr r \<Rightarrow> Loop_next (report_metrics cfg le now (st\<lparr>lp_reactor := r\<rparr>)))"

text \<open>The turns for a sequence of answers; the loop is still running behind the last one unless it
  stopped or threw.\<close>

fun run_turns :: "ReactorConfig \<Rightarrow> (log_env \<times> wait_answer) list \<Rightarrow> loop_state \<Rightarrow> loop_outcome" where
  "run_turns cfg [] st = Loop_next st"
| "run_turns cfg ((le, w) # ws) st =
     (case run_turn cfg le w st of Loop_next st' \<Rightarrow> run_turns cfg ws st' | out \<Rightarrow> out)"

definition run_reactor ::
    "ReactorConfig \<Rightarrow> log_env \<Rightarrow> log_env \<Rightarrow> (log_env \<times> wait_answer) list \<Rightarrow> loop_state \<Rightarrow> loop_outcome" where
  "run_reactor cfg le le' ws st =
     (let name = ''WorkerReactor '' @ digits (rc_reactor_id cfg) in
      case run_turns cfg ws (st\<lparr>lp_out := log_info le (name @ '' started'') 0 (lp_out st)\<rparr>) of
        Loop_stopped st' \<Rightarrow> Loop_stopped (st'\<lparr>lp_out := log_info le' (name @ '' stopped'') 0 (lp_out st')\<rparr>)
      | out \<Rightarrow> out)"

section \<open>Requests that are always answered\<close>

text \<open>Every request except Fetch, which can throw, and DescribeTopicPartitions with more topics than
  the serializer has room for.\<close>

fun plain :: "Request \<Rightarrow> bool" where
  "plain (Fetch r) = False"
| "plain (DescribeTopicPartitions r) = (length (dtp_topic_names r) < 127)"
| "plain _ = True"

definition handler_ok :: "ReactorConfig \<Rightarrow> bool" where
  "handler_ok cfg \<longleftrightarrow> metadata_ok (rh_metadata (rc_handler cfg)) \<and> ids_sized (rh_metadata (rc_handler cfg))"

lemma plain_answered:
  assumes "plain req" and "handler_ok cfg"
  shows "\<exists>resp b buf. handle (rc_handler cfg) e req s = (Inr resp, b) \<and> serialize resp = Some buf"
proof -
  have "\<nexists>r. req = Fetch r" using assms(1) by auto
  then obtain resp b where h: "handle (rc_handler cfg) e req s = (Inr resp, b)" using handle_total by blast
  have "request_ids_ok req" using assms(1) by (cases req) (simp_all add: request_ids_ok_def)
  then have "uuids_ok resp" using h assms(2) handle_ids by (auto simp: handler_ok_def)
  moreover have "describe_fits resp"
  proof (cases req)
    case (DescribeTopicPartitions r)
    with h assms(1) show ?thesis by (auto simp: handle_describe_topic_partitions_def)
  qed (use h assms(1) in \<open>auto simp: with_coordinator_def with_store_def map_sum_def split: sum.splits\<close>)
  ultimately show ?thesis using h serialize_response_frame by blast
qed

section \<open>A round completes\<close>

text \<open>As many queues as the router counts, and at least one.\<close>

definition routable :: "ReactorConfig \<Rightarrow> CrossReactorQueues list \<Rightarrow> bool" where
  "routable cfg qs \<longleftrightarrow>
     sr_reactor_count (rc_router cfg) \<noteq> 0 \<and> unat (sr_reactor_count (rc_router cfg)) = length qs"

lemma process_request_total:
  assumes "handler_ok cfg" and "routable cfg (wr_queues r)"
    and "\<And>req. parse_request (drop 4 (cn_read_buf (conn_at r fd))) = Inr req \<Longrightarrow> plain req"
  shows "\<exists>r'. process_request e cfg fd r = Inr r'"
proof (cases "parse_request (drop 4 (cn_read_buf (conn_at r fd)))")
  case (Inr req)
  obtain resp b buf where "handle (rc_handler cfg) e req (wr_broker r) = (Inr resp, b)" "serialize resp = Some buf"
    using plain_answered [OF assms(3) [OF Inr] assms(1)] by blast
  then have "\<exists>r'. answer_locally e cfg fd req r = Inr r'" by (simp add: answer_locally_def Let_def)
  moreover have "unat (h mod sr_reactor_count (rc_router cfg)) < length (wr_queues r)" for h
    using assms(2) unat_gt_0 [of "sr_reactor_count (rc_router cfg)"] by (auto simp: routable_def unat_mod)
  ultimately show ?thesis
    using Inr assms(2)
    by (auto simp: process_request_def route_def routable_def forward_request_def Let_def split: option.split)
qed (simp add: process_request_def)

lemma dispatch_event_total:
  assumes "reactor_ok cfg r" and "handler_ok cfg" and "routable cfg (wr_queues r)"
    and "\<And>req. event_request cfg ev r = Some req \<Longrightarrow> plain req"
  shows "\<exists>r'. dispatch_event cfg ev r = Inr r'"
proof (cases "ev_fd ev = rc_server_fd cfg \<or> ev_fd ev = rc_wakeup_fd cfg \<or>
    ev_events ev AND (EPOLLERR OR EPOLLHUP) \<noteq> 0 \<or> ev_events ev AND EPOLLIN = 0")
  case False
  have "\<exists>r'. handle_read (ev_recv ev) (ev_env ev) cfg (ev_fd ev) r = Inr r'"
    using assms(1)
  proof (cases rule: read_frame_cases [of cfg r "ev_recv ev" "ev_fd ev"])
    case (request r1)
    have "routable cfg (wr_queues r1)" using assms(3) stagedD(4) [OF request(2)] by simp
    moreover have "plain req" if "parse_request (drop 4 (cn_read_buf (conn_at r1 (ev_fd ev)))) = Inr req" for req
      using that assms(4) request(1) False by (simp add: event_request_def)
    ultimately show ?thesis using process_request_total [OF assms(2)] request(1) by (simp add: handle_read_def)
  qed (simp_all add: handle_read_def)
  with False show ?thesis by (auto simp: dispatch_event_def)
qed (auto simp: dispatch_event_def)

text \<open>The requests the events of a round complete.\<close>

fun events_requests :: "ReactorConfig \<Rightarrow> reactor_event list \<Rightarrow> WorkerReactor \<Rightarrow> Request list" where
  "events_requests cfg [] r = []"
| "events_requests cfg (ev # evs) r =
     (case event_request cfg ev r of None \<Rightarrow> [] | Some req \<Rightarrow> [req]) @
     (case dispatch_event cfg ev r of Inl _ \<Rightarrow> [] | Inr r' \<Rightarrow> events_requests cfg evs r')"

text \<open>An event leaves the requests in the reactor's own queue alone: it forwards to others only.\<close>

lemma dispatch_event_own_requests:
  assumes "reactor_ok cfg r" and "dispatch_event cfg ev r = Inr r'" and "rc_reactor_id cfg < length (wr_queues r)"
  shows "cq_requests (wr_queues r' ! rc_reactor_id cfg) = cq_requests (wr_queues r ! rc_reactor_id cfg)
    \<and> length (wr_queues r') = length (wr_queues r)"
proof (cases "event_request cfg ev r")
  case None
  with dispatch_event_effect [OF assms(1,2)] assms(3) show ?thesis
    by (auto simp: same_messages_def dest: map_eq_imp_length_eq) (metis map_eq_imp_length_eq nth_map)
next
  case (Some req)
  with dispatch_event_effect [OF assms(1,2)] show ?thesis by (auto simp: request_effect_def)
qed

lemma dispatch_events_total:
  assumes "round_ok cfg r" and "handler_ok cfg" and "routable cfg (wr_queues r)"
    and "events_possible cfg evs r" and "list_all plain (events_requests cfg evs r)"
  shows "\<exists>r'. dispatch_events cfg evs r = Inr r' \<and>
    cq_requests (wr_queues r' ! rc_reactor_id cfg) = cq_requests (wr_queues r ! rc_reactor_id cfg) \<and>
    length (wr_queues r') = length (wr_queues r)"
  using assms
proof (induction evs arbitrary: r)
  case (Cons ev evs)
  have ok: "reactor_ok cfg r" "rc_reactor_id cfg < length (wr_queues r)"
    using Cons.prems(1) by (simp_all add: round_ok_def)
  have "plain req" if "event_request cfg ev r = Some req" for req using that Cons.prems(5) by simp
  then obtain r1 where r1: "dispatch_event cfg ev r = Inr r1"
    using dispatch_event_total [OF ok(1) Cons.prems(2,3)] by blast
  note own = dispatch_event_own_requests [OF ok(1) r1 ok(2)]
  have "round_ok cfg r1" using dispatch_event_round [OF Cons.prems(1) _ r1] Cons.prems(4) by simp
  moreover have "routable cfg (wr_queues r1)" using Cons.prems(3) own by (simp add: routable_def)
  ultimately show ?case using Cons.IH [of r1] Cons.prems(2,4,5) r1 own by simp
qed simp

text \<open>The requests in a queue can be answered.\<close>

definition servable :: "nat \<Rightarrow> ForwardedRequest list \<Rightarrow> bool" where
  "servable n fs \<longleftrightarrow> list_all (\<lambda>f. plain (fq_request f) \<and> unat (fq_source_reactor_id f) < n) fs"

lemma drain_request_total:
  assumes "handler_ok cfg" and "rc_reactor_id cfg < length (wr_queues r)"
    and "servable (length (wr_queues r)) (cq_requests (wr_queues r ! rc_reactor_id cfg))"
  shows "drain_request e cfg r = None \<or> (\<exists>r'. drain_request e cfg r = Some (Inr r'))"
proof (cases "try_pop_request (wr_queues r ! rc_reactor_id cfg)")
  case (Some p)
  then obtain f q where pop: "try_pop_request (wr_queues r ! rc_reactor_id cfg) = Some (f, q)" by (cases p) auto
  have f: "plain (fq_request f)" "unat (fq_source_reactor_id f) < length (wr_queues r)"
    using requests.pop_some [OF pop] assms(3) by (simp_all add: servable_def)
  obtain resp b buf where "handle (rc_handler cfg) e (fq_request f) (wr_broker r) = (Inr resp, b)" "serialize resp = Some buf"
    using plain_answered [OF f(1) assms(1)] by blast
  with pop f(2) show ?thesis by (simp add: drain_request_def Let_def split: prod.split)
qed (simp add: drain_request_def)

lemma drain_request_servable:
  assumes "drain_request e cfg r = Some (Inr r')" and "rc_reactor_id cfg < length (wr_queues r)"
    and "servable n (cq_requests (wr_queues r ! rc_reactor_id cfg))"
  shows "servable n (cq_requests (wr_queues r' ! rc_reactor_id cfg)) \<and> length (wr_queues r') = length (wr_queues r)"
  using assms(1,2)
proof (cases rule: drain_request_effect)
  case (1 fwd q resp buf out)
  then show ?thesis
    using assms(2,3) by (cases "unat (fq_source_reactor_id fwd) = rc_reactor_id cfg")
      (simp_all add: Let_def servable_def push_response_def)
qed

lemma drain_requests_total:
  assumes "handler_ok cfg" and "rc_reactor_id cfg < length (wr_queues r)"
    and "servable (length (wr_queues r)) (cq_requests (wr_queues r ! rc_reactor_id cfg))"
  shows "\<exists>r'. drain_requests e n cfg r = Inr r' \<and> length (wr_queues r') = length (wr_queues r)"
  using assms
proof (induction e n cfg r rule: drain_requests.induct)
  case (1 e n cfg r)
  consider "drain_request (e n) cfg r = None" | r1 where "drain_request (e n) cfg r = Some (Inr r1)"
    using drain_request_total [OF 1(2-4), of "e n"] by auto
  then show ?case
  proof cases
    case 1
    with \<open>rc_reactor_id cfg < length (wr_queues r)\<close> show ?thesis by (simp add: drain_requests.simps [of e n cfg r])
  next
    case (2 r1)
    with drain_request_servable [OF 2 1(3,4)] 1(1) [OF 1(3) 2 refl 1(2)] 1(3) show ?thesis
      by (simp add: drain_requests.simps [of e n cfg r])
  qed
qed

lemma drain_responses_total:
  assumes "rc_reactor_id cfg < length (wr_queues r)"
  shows "\<exists>r'. drain_responses cfg r = Inr r' \<and> length (wr_queues r') = length (wr_queues r)"
  using assms
proof (induction cfg r rule: drain_responses.induct)
  case (1 cfg r)
  show ?case
  proof (cases "drain_response cfg r")
    case (Some r1)
    then have "length (wr_queues r1) = length (wr_queues r)"
      by (auto simp: drain_response_def split: option.splits)
    with 1 Some show ?thesis by (simp add: drain_responses.simps [of cfg r])
  qed (use 1(2) in \<open>simp add: drain_responses.simps [of cfg r]\<close>)
qed

text \<open>So does the whole round, with both queues empty at its end.\<close>

lemma loop_round_total:
  assumes "round_ok cfg r" and "handler_ok cfg" and "routable cfg (wr_queues r)"
    and "events_possible cfg evs r" and "list_all plain (events_requests cfg evs r)"
    and "servable (length (wr_queues r)) (cq_requests (wr_queues r ! rc_reactor_id cfg))"
  shows "\<exists>r'. loop_round cfg evs e cqes r = Inr r' \<and> round_ok cfg r' \<and> length (wr_queues r') = length (wr_queues r) \<and>
    cq_requests (wr_queues r' ! rc_reactor_id cfg) = [] \<and> cq_responses (wr_queues r' ! rc_reactor_id cfg) = []"
proof -
  obtain r1 where r1: "dispatch_events cfg evs r = Inr r1" "length (wr_queues r1) = length (wr_queues r)"
      "cq_requests (wr_queues r1 ! rc_reactor_id cfg) = cq_requests (wr_queues r ! rc_reactor_id cfg)"
    using dispatch_events_total [OF assms(1-5)] by blast
  note ok1 = dispatch_events_round [OF assms(1,4) r1(1)]
  then have id1: "rc_reactor_id cfg < length (wr_queues r1)" by (simp add: round_ok_def)
  obtain r2 where r2: "drain_requests e 0 cfg r1 = Inr r2" "length (wr_queues r2) = length (wr_queues r1)"
    using drain_requests_total [OF assms(2) id1] assms(6) r1(2,3) by auto
  note ok2 = drain_requests_round [OF r2(1) ok1]
  obtain r3 where r3: "drain_responses cfg r2 = Inr r3" "length (wr_queues r3) = length (wr_queues r2)"
    using drain_responses_total [of cfg r2] id1 r2(2) by auto
  note ok3 = drain_responses_round [OF r3(1) conjunct1 [OF ok2]]
  have "round_ok cfg (harvest_io_completions cqes r3)"
    using ok3 by (simp add: round_ok_def harvest_ok)
  with r1(1,2) r2 r3 ok2 ok3 show ?thesis by (simp add: loop_round_def)
qed

section \<open>The loop goes on\<close>

text \<open>What the environment does in one turn, and in all of them: \<open>epoll_wait\<close> is at most interrupted,
  the events are possible, the other reactors send requests and answers as the reactors do, and
  the requests are of the kind that is always answered.\<close>

fun turn_servable :: "ReactorConfig \<Rightarrow> wait_answer \<Rightarrow> WorkerReactor \<Rightarrow> bool" where
  "turn_servable cfg (Wait_failed errno) r \<longleftrightarrow> errno = EINTR"
| "turn_servable cfg (Wait_ready mw evs e cqes now) r \<longleftrightarrow>
     servable (length (wr_queues r)) (mw_requests mw) \<and> list_all (\<lambda>x. fs_data x \<noteq> []) (mw_responses mw) \<and>
     events_possible cfg evs (apply_others cfg mw r) \<and> list_all plain (events_requests cfg evs (apply_others cfg mw r))"

fun turn_reactor :: "ReactorConfig \<Rightarrow> wait_answer \<Rightarrow> WorkerReactor \<Rightarrow> WorkerReactor expected" where
  "turn_reactor cfg (Wait_failed errno) r = Inr r"
| "turn_reactor cfg (Wait_ready mw evs e cqes now) r = loop_round cfg evs e cqes (apply_others cfg mw r)"

fun turns_servable :: "ReactorConfig \<Rightarrow> (log_env \<times> wait_answer) list \<Rightarrow> WorkerReactor \<Rightarrow> bool" where
  "turns_servable cfg [] r \<longleftrightarrow> True"
| "turns_servable cfg ((le, w) # ws) r \<longleftrightarrow>
     turn_servable cfg w r \<and> (case turn_reactor cfg w r of Inl _ \<Rightarrow> True | Inr r' \<Rightarrow> turns_servable cfg ws r')"

text \<open>Between two rounds nothing is left in the queues.\<close>

definition at_rest :: "ReactorConfig \<Rightarrow> WorkerReactor \<Rightarrow> bool" where
  "at_rest cfg r \<longleftrightarrow>
     round_ok cfg r \<and> routable cfg (wr_queues r) \<and>
     cq_requests (wr_queues r ! rc_reactor_id cfg) = [] \<and> cq_responses (wr_queues r ! rc_reactor_id cfg) = []"

lemma fold_push_requests:
  "cq_requests (fold push_request fs q) = cq_requests q @ fs" "cq_responses (fold push_request fs q) = cq_responses q"
  by (induction fs arbitrary: q) (simp_all add: push_request_def)

lemma fold_push_responses:
  "cq_responses (fold push_response xs q) = cq_responses q @ xs" "cq_requests (fold push_response xs q) = cq_requests q"
  by (induction xs arbitrary: q) (simp_all add: push_response_def)

lemma apply_others_none:
  assumes "mw_requests mw = []" and "mw_responses mw = []" and "mw_coordinator mw = bk_coordinator (wr_broker r)"
    and "mw_os mw = ls_os (bk_store (wr_broker r))"
  shows "apply_others cfg mw r = r"
  using assms by (simp add: apply_others_def)

lemma apply_others_rest:
  assumes "at_rest cfg r" and "list_all (\<lambda>x. fs_data x \<noteq> []) (mw_responses mw)"
  shows "round_ok cfg (apply_others cfg mw r)" "length (wr_queues (apply_others cfg mw r)) = length (wr_queues r)"
    "cq_requests (wr_queues (apply_others cfg mw r) ! rc_reactor_id cfg) = mw_requests mw"
  using assms
  by (auto simp: at_rest_def round_ok_def reactor_ok_def apply_others_def Let_def fold_push_requests fold_push_responses list_all_iff)

lemma turn_continues:
  assumes "at_rest cfg (lp_reactor st)" and "handler_ok cfg" and "turn_servable cfg w (lp_reactor st)"
  shows "\<exists>st'. run_turn cfg le w st = Loop_next st' \<and> at_rest cfg (lp_reactor st') \<and>
    turn_reactor cfg w (lp_reactor st) = Inr (lp_reactor st')"
proof (cases w)
  case (Wait_ready mw evs e cqes now)
  let ?r = "apply_others cfg mw (lp_reactor st)"
  note w = assms(3) [unfolded Wait_ready turn_servable.simps]
  note r = apply_others_rest [OF assms(1) conjunct1 [OF conjunct2 [OF w]]]
  have "routable cfg (wr_queues ?r)" using assms(1) r(2) by (simp add: at_rest_def routable_def)
  then obtain r' where "loop_round cfg evs e cqes ?r = Inr r'" "round_ok cfg r'" "routable cfg (wr_queues r')"
      "cq_requests (wr_queues r' ! rc_reactor_id cfg) = []" "cq_responses (wr_queues r' ! rc_reactor_id cfg) = []"
    using loop_round_total [OF r(1) assms(2), of evs e cqes] w r(2,3) by (auto simp: routable_def)
  then show ?thesis by (simp add: Wait_ready at_rest_def report_metrics_def)
qed (use assms in simp)

lemma turns_continue:
  assumes "at_rest cfg (lp_reactor st)" and "handler_ok cfg" and "turns_servable cfg ws (lp_reactor st)"
  shows "\<exists>st'. run_turns cfg ws st = Loop_next st' \<and> at_rest cfg (lp_reactor st')"
  using assms
proof (induction ws arbitrary: st)
  case (Cons p ws)
  obtain le w where p: "p = (le, w)" by (cases p) auto
  obtain st1 where st1: "run_turn cfg le w st = Loop_next st1" "at_rest cfg (lp_reactor st1)"
      "turn_reactor cfg w (lp_reactor st) = Inr (lp_reactor st1)"
    using turn_continues [OF Cons.prems(1,2)] Cons.prems(3) p by fastforce
  with Cons.IH [OF st1(2) Cons.prems(2)] Cons.prems(3) p show ?case by simp
qed simp

text \<open>A constructed reactor is at rest.\<close>

lemma started_at_rest:
  assumes "start_server sas hash c os file = (cfgs, s)" and "0 < cf_reactor_count c" and "cf_reactor_count c < 2 ^ 64"
    and "i < cf_reactor_count c"
  shows "at_rest (cfgs ! i) (reactor_view i s)" and "handler_ok (cfgs ! i)"
proof -
  have start: "cfgs = fst (start_server sas hash c os file)" "s = snd (start_server sas hash c os file)"
    using assms(1) by simp_all
  have len: "length cfgs = cf_reactor_count c" by (simp add: start(1))
  have cfg: "configs_ok cfgs" unfolding start(1) by (rule start_configs_ok [OF assms(2,3)])
  then have id: "rc_reactor_id (cfgs ! i) = i"
      "sr_reactor_count (rc_router (cfgs ! i)) = word_of_nat (cf_reactor_count c)"
    using configs_okD [of cfgs i] assms(4) by (simp_all add: len)
  have ok: "server_ok cfgs s" unfolding start by (rule start_server_ok)
  have n: "unat (word_of_nat (cf_reactor_count c) :: uint64_t) = cf_reactor_count c"
    by (rule unat_reactor_index) (rule assms(3))
  then have "(word_of_nat (cf_reactor_count c) :: uint64_t) \<noteq> 0" using assms(2) by auto
  with n id(2) ok have "routable (cfgs ! i) (sv_queues s)" by (simp add: routable_def server_ok_def queues_ok_def len)
  moreover have "cq_requests (sv_queues s ! i) = []" "cq_responses (sv_queues s ! i) = []"
    using assms(4) unfolding start(2) by (simp_all add: start_server_def Let_def new_reactor_queue)
  ultimately show "at_rest (cfgs ! i) (reactor_view i s)"
    using ok assms(4) id(1) by (simp add: at_rest_def round_ok_def server_ok_def queues_ok_def len)
  have "rh_metadata (rc_handler (cfgs ! i)) = parse_cluster_metadata_file file"
    using assms(4) unfolding start(1) by (simp add: start_server_def Let_def new_reactor_config reactor_handler_def)
  then show "handler_ok (cfgs ! i)" by (simp add: handler_ok_def metadata_ok_file ids_sized_file)
qed

text \<open>Reports are thirty seconds apart, and none is later than the first round that ends thirty
  seconds after the last one.\<close>

lemma run_turn_reports:
  assumes "run_turn cfg le (Wait_ready mw evs e cqes now) st = Loop_next st'"
  shows "if now - lp_last_metrics_log st < kMetricsInterval
    then lp_out st' = lp_out st \<and> lp_last_metrics_log st' = lp_last_metrics_log st
    else lp_last_metrics_log st' = now \<and> length (lp_out st') = length (lp_out st) + 1"
  using assms
  by (auto simp: report_metrics_def log_metrics_def log_info_def write_log_def Let_def split: sum.splits)

end
