(* ===== verification/Spec2Isabelle.thy ===== *)
theory Spec2Isabelle
  imports Byte_Streams Event_Loop
begin

text \<open>
  A verification of TinyKafka, a message broker in C++ that speaks a part of the Kafka protocol
  (sources under \<open>src/src/\<close>).

  \<^bold>\<open>The program.\<close> \<open>main.cpp\<close> loads the configuration, parses the cluster metadata log and starts one
  reactor per thread. A reactor (\<open>net/reactor.cpp\<close>) accepts connections, collects frames, parses a
  request (\<open>protocol/parser.cpp\<close>) and either answers it with its broker (\<open>broker/broker.cpp\<close>) or, when
  the first partition of the request is routed to another reactor (\<open>shard/shard_router.hpp\<close>), hands
  it over through a queue (\<open>shard/cross_reactor_queue.hpp\<close>) and later takes the answer from one. The
  broker dispatches to the metadata handler, to the record handler, which keeps one partition
  context per partition over segment files (\<open>broker/partition_context.hpp\<close>, \<open>storage/\<close>), and to the
  group coordinator, which all reactors share. Answers are serialized (\<open>protocol/serializer.cpp\<close>)
  and queued on their connection.

  \<^bold>\<open>The theories.\<close> In the order of their dependencies:

  \<^item> Prelude: integer types, error codes, casts, shared lemmas. Endian, Varint, Byte_Reader and
    Byte_Writer: \<open>util/endian.hpp\<close>, \<open>util/varint.hpp\<close>, \<open>util/byte_reader.hpp\<close>, \<open>util/byte_writer.hpp\<close>;
    the locale \<open>codec\<close> (a writer and the reader that inverts it) and its instances.
  \<^item> Protocol: the structs of \<open>protocol/request.hpp\<close> and \<open>protocol/response.hpp\<close> as records, the two
    variants as datatypes, the table of \<open>protocol/api_registry.hpp\<close>. Parser: \<open>protocol/parser.cpp\<close>.
    Wire_Format: the format of the requests as an encoder, and that the parser inverts it.
    Serializer: \<open>protocol/serializer.cpp\<close> over a buffer of the size computed in advance.
    Response_Format: the format of the responses, and that the serializer implements it.
  \<^item> Interfaces: the locales \<open>keyed_store\<close>, \<open>fifo\<close> and \<open>append_log\<close>. Text_Format: the decimal
    formatting and parsing of the standard library. Logger: \<open>logging/logger.cpp\<close>.
  \<^item> Group_Coordinator: \<open>broker/group_coordinator.cpp\<close>; a handler is a function of the coordinator and
    the clock, and \<open>coord_run\<close> is any sequence of handled requests.
  \<^item> Shard: the router and the queues. Record_Batch: \<open>util/record_batch.hpp\<close>. Cluster_Metadata and
    Metadata_Log: \<open>cluster/metadata.cpp\<close> and the logs it is meant to read. Metadata_Handler:
    \<open>broker/metadata_handler.cpp\<close>.
  \<^item> Storage: \<open>storage/partition_log.hpp\<close> and \<open>storage/log_reader.cpp\<close>. Partition_Context:
    \<open>broker/partition_context.hpp\<close> over an explicit file system (directories, open descriptors, writes
    submitted to the ring and not yet done). Record_Handler: \<open>broker/record_handler.cpp\<close>. Broker:
    \<open>broker/broker.cpp\<close>. Pipeline: from request bytes to response bytes.
  \<^item> Socket: \<open>net/socket.cpp\<close>. Reactor: \<open>net/reactor.cpp\<close>, one definition per handler and per stage of a
    handler, over the connections and the kernel's sockets and registrations. Reactor_Invariant: what
    holds between events. Config: \<open>config/\<close>. Server: \<open>net/server.cpp\<close>, \<open>main.cpp\<close>, and the step
    relation \<open>server_step\<close> of all reactors with what they share. Ownership: which reactor keeps which
    partition. Byte_Streams: framing, and the streams of a connection. Event_Loop: \<open>run\<close>, its metrics
    report, and that it goes on.
  \<^item> This theory: the properties that span components, and their instances on concrete inputs.

  \<^bold>\<open>State and effects.\<close> A struct or class with state is a record with the source's members, an
  operation a function to the new state and the result. What the environment decides (system calls,
  clocks, the hash function of the library, the traversal order of a hash table) is an argument,
  one answer per call, so every theorem holds for all of it. Errors carried by \<open>std::expected\<close> and
  exceptions are values of a sum type, writes outside a buffer and other undefined behaviour are \<open>None\<close>
  or \<open>undefined_behavior\<close>. Integers are words of their width, signed where the code compares them so;
  sizes are natural numbers, and conversions that can wrap go through 64-bit words.

  \<^bold>\<open>What is shown.\<close>
  Wire: requests survive encoding and parsing, the serializer writes exactly the format, a parser
  stays within its buffer and its errors are the documented ones, varints survive up to 28 bits.
  Coordinator: the group state machine keeps its invariant, stale generations stay fenced, stable
  membership changes only with a new generation, a rebalance completes and distributes what the
  leader assigned, expiry is exact, committed offsets are kept, generated ids are fresh.
  Log: a partition is an append-only log across segments, an accepted batch is visible, partitions do
  not interfere, reading does not depend on the directory order, torn tails are ignored; a ranged
  fetch returns the records behind an offset under the conditions stated with it.
  Metadata: what a client is told about a topic is what the log says, whatever its bytes the tables
  are consistent. Configuration: it is what file and command line say, and always usable.
  Server: every reachable state of all reactors is well-formed, a partition has one owner, messages
  between reactors are neither lost nor reordered, frames are cut as specified, a request is
  answered on its connection with and without a detour, a connection carries complete answers
  and nothing else, and the event loop goes on.
  Defects of the code are theorems too where they have a precise statement: the exact limits of the
  varint reader, the unchecked read in Fetch, the buffer overflow with 127 topics, negative record
  counts, a length prefix that arrives alone, the segment a ranged fetch opens, and the offsets after
  a restart.

  \<^bold>\<open>Bounds and termination.\<close> All definitions are total. Loops are structural recursion or recursion
  with a measure: the unread bytes for the scans of batches, the messages in the own queue for the
  drain loops, the bytes still wanted for the transfers. No fuel is used. The event loop is a function
  of the answers of \<open>epoll_wait\<close>, for any number of turns. Hypotheses of the form \<open>< 2 ^ 31\<close> bound the
  number of requests below the wrap of a 32-bit counter; lengths below \<open>2 ^ 28 - 1\<close> are those a
  readable varint can express.

  \<^bold>\<open>Not modelled.\<close> The text of log lines outside \<open>run\<close>, since nothing reads them; \<open>util/overloaded.hpp\<close>,
  a template for visitors; \<open>UuidHash\<close>, which only places entries in a hash table; accessors that only
  return a member; the reuse of buffers (\<open>resp_pool\<close>); exhaustion of memory; joining the threads in
  \<open>main\<close>. The kernel and liburing are not part of the repository: their calls are arguments, with
  documented behaviour as hypotheses where a theorem needs it (a stream socket transfers at least one
  byte when it succeeds, submitted writes complete in order and in full for the log to be read
  back). Steps of different threads interleave at the granularity of the shared objects: a handler
  of the coordinator and an operation on a queue are atomic under their mutexes, and the file
  operations of one request are taken to be one step.
\<close>

section \<open>Requests and responses on the wire\<close>

definition sample_heartbeat :: Request where
  "sample_heartbeat = Heartbeat
     \<lparr>hb_header = \<lparr>api_key = 12, api_version = 4, correlation_id = 7\<rparr>, hb_group_id = ''g'',
      hb_generation_id = 1, hb_member_id = ''member-1'', hb_group_instance_id = []\<rparr>"

text \<open>C1: The parser inverts the wire format: what a client encodes as one of the thirteen request
  types is parsed back to the same request, whatever bytes follow it in the buffer, as long as its
  strings and arrays have lengths a compact length can express and its topic ids have sixteen
  bytes.\<close>

theorem request_round_trip:
  assumes "client_ok client" and "wire_ok req" and "api_key (request_header req) = request_key req"
  shows "parse_request (encode_request client req @ ext) = Inr req"
  using assms by (rule parse_encode_request)

theorem request_round_trip_witness:
  "parse_request (encode_request (Some [0x61]) sample_heartbeat @ [1, 2]) = Inr sample_heartbeat"
  by (rule request_round_trip) (simp_all add: client_ok_def sample_heartbeat_def short_def)

text \<open>C3: The serializer implements the wire format of the responses: the size it computes before it
  writes is exactly the number of bytes written, no write leaves the buffer, and the result is the
  length-prefixed encoding of the response, for every response whose topic ids have sixteen bytes
  and, for DescribeTopicPartitions, with fewer than 127 topics.\<close>

theorem serialize_refines_format:
  assumes "uuids_ok r" and "describe_fits r"
  shows "serialize r = Some (response_frame r)"
  using assms by (rule serialize_response_frame)

theorem serialize_refines_format_witness:
  "serialize (HeartbeatR \<lparr>hbr_correlation_id = 7, hbr_throttle_time_ms = 0, hbr_error_code = 82\<rparr>) =
     Some (response_frame
       (HeartbeatR \<lparr>hbr_correlation_id = 7, hbr_throttle_time_ms = 0, hbr_error_code = 82\<rparr>))"
  by (rule serialize_refines_format) simp_all

text \<open>C24: The parser never reads past its buffer, and what it returns does not depend on the bytes
  behind the request: a request that parses from a buffer parses to the same value from every
  longer one, and its header is the one in the first eight bytes.\<close>

theorem parse_request_stable:
  assumes "parse_request buf = Inr req"
  shows "parse_request (buf @ ext) = Inr req \<and> request_header req = buffer_header buf \<and>
    request_key req = api_key (buffer_header buf) \<and>
    (\<exists>r. request_parser (ByteReader buf) = Inr (req, r) \<and> rd_data r = buf \<and> rd_offset r \<le> length buf)"
proof -
  obtain r where "request_parser (ByteReader buf) = Inr (req, r)"
    using assms by (auto simp: parse_request_def split: sum.splits)
  with parse_request_append [OF assms] parse_request_tagged [OF assms] request_parser_bounds
  show ?thesis by (auto simp: request_tagged_def)
qed

theorem parse_request_stable_witness:
  "parse_request (encode_request None sample_heartbeat @ [9]) = Inr sample_heartbeat"
proof -
  have "parse_request (encode_request None sample_heartbeat @ []) = Inr sample_heartbeat"
    by (rule parse_encode_request) (simp_all add: client_ok_def sample_heartbeat_def short_def)
  from parse_request_stable [of _ _ "[9]", OF this] show ?thesis by simp
qed

text \<open>C23: A request the parser rejects is rejected for a stated reason: an interface outside the
  table of supported ones with \<open>function_not_supported\<close>, and a supported one only with
  \<open>message_size\<close>. The single exception is a Fetch request, where a failed read of
  \<open>part_max_bytes\<close> is not checked and its value is used all the same.\<close>

theorem parse_request_errors:
  assumes "8 \<le> length buf" and "parse_request buf = Inl e"
  shows "if api_key (buffer_header buf) \<notin> supported_keys then e = function_not_supported
    else if api_key (buffer_header buf) = 1 then e \<in> {message_size, undefined_behavior}
    else e = message_size"
proof -
  have "\<exists>r. parse_body (buffer_header buf) r = Inl e"
    using assms by (auto simp: parse_request_def request_parser_header split: sum.splits)
  then show ?thesis
    using parse_body_errors [of "buffer_header buf"] by (auto simp: fails_with_def split: if_splits)
qed

theorem parse_request_errors_witness:
  "parse_request [0, 99, 0, 0, 0, 0, 0, 1] = Inl function_not_supported"
proof -
  have "isl (parse_request [0, 99, 0, 0, 0, 0, 0, 1])" by code_simp
  then obtain e where e: "parse_request [0, 99, 0, 0, 0, 0, 0, 1] = Inl e" by (auto simp: isl_def)
  moreover have "api_key (buffer_header [0, 99, 0, 0, 0, 0, 0, 1]) = 99" by code_simp
  ultimately have "e = function_not_supported"
    using parse_request_errors [OF _ e] by (simp add: supported_keys_def kSupportedApis_def)
  with e show ?thesis by simp
qed

text \<open>The length prefix of every frame is the number of bytes behind it, and the first field
  behind the prefix is the correlation id, so a client can delimit the answers in the stream and
  match them to its requests.\<close>

lemma response_frame_delimits:
  assumes "length (response_frame r) < 2 ^ 31"
  shows "sint (decode_int32_be (take 4 (response_frame r))) = int (length (response_frame r)) - 4 \<and>
    decode_int32_be (take 4 (drop 4 (response_frame r))) = response_correlation_id r"
proof -
  let ?body = "write_int32_be (response_correlation_id r) @ enc_response r"
  have "length ?body < 2 ^ 31" using assms by (simp add: response_frame_def frame_def)
  from frame_length_prefix [OF this] show ?thesis by (simp add: response_frame_def frame_def)
qed

section \<open>From request to response\<close>

text \<open>C8: Every request that is handled gets its answer on the wire. For a buffer that parses, with
  the topics of whatever metadata file was read at start, in every state of the broker: if the
  handler returns, the serializer produces the length-prefixed frame of a response that belongs to
  the interface key of the request and carries the correlation id found in the buffer. (For
  DescribeTopicPartitions up to 126 topics.)\<close>

theorem request_to_frame:
  assumes "parse_request buf = Inr req" and "handle h e req s = (Inr resp, s')"
    and "rh_metadata h = parse_cluster_metadata_file log_bytes" and "describe_fits resp"
  shows "serialize resp = Some (response_frame resp) \<and>
    response_correlation_id resp = decode_int32_be (take 4 (drop 4 buf)) \<and>
    response_key resp = decode_int16_be (take 2 buf)"
  using request_answered [OF assms] by (simp add: buffer_header_def)


section \<open>The group coordinator\<close>

definition sample_join :: JoinGroupRequest where
  "sample_join = \<lparr>jg_header = \<lparr>api_key = 11, api_version = 9, correlation_id = 1\<rparr>,
     jg_group_id = ''g'', jg_session_timeout_ms = 10000, jg_member_id = [],
     jg_protocol_type = ''consumer'', jg_protocols = [\<lparr>jgp_name = ''range'', jgp_metadata = [5]\<rparr>]\<rparr>"

definition sample_sync :: "int32_t \<Rightarrow> SyncGroupRequest" where
  "sample_sync gen = \<lparr>sg_header = \<lparr>api_key = 14, api_version = 5, correlation_id = 2\<rparr>,
     sg_group_id = ''g'', sg_generation_id = gen, sg_member_id = ''member-1'',
     sg_assignments = [\<lparr>sga_member_id = ''member-1'', sga_assignment = [7, 7]\<rparr>]\<rparr>"

definition joined_once :: GroupCoordinator where
  "joined_once = fst (handle_join_group 0 sample_join new_coordinator)"

definition synced_once :: GroupCoordinator where
  "synced_once = fst (handle_sync_group (\<lambda>_. 0) (sample_sync 1) joined_once)"

definition joined_twice :: GroupCoordinator where
  "joined_twice = fst (handle_join_group 0 sample_join synced_once)"

lemma run_single: "coord_step c req resp c' \<Longrightarrow> coord_run c [req] c'"
  using run_step [OF run_refl] by simp

lemma step_joined_once: "\<exists>resp. coord_step new_coordinator (JoinGroup sample_join) resp joined_once"
  unfolding joined_once_def by (metis prod.collapse step_join)

lemma step_synced_once: "\<exists>resp. coord_step joined_once (SyncGroup (sample_sync 1)) resp synced_once"
  unfolding synced_once_def by (metis prod.collapse step_sync)

lemma step_joined_twice: "\<exists>resp. coord_step synced_once (JoinGroup sample_join) resp joined_twice"
  unfolding joined_twice_def by (metis prod.collapse step_join)

lemma joined_once_group: "\<exists>g. gc_groups joined_once ''g'' = Some g \<and> gm_generation g = 1"
  by (simp add: joined_once_def handle_join_group_def sample_join_def Let_def gc_groups_put
      new_coordinator_def group_at_def new_group_def join_generation_def)

lemma synced_once_group:
  "\<exists>g. gc_groups synced_once ''g'' = Some g \<and> gm_generation g = 1 \<and> gm_state g = Stable"
  using joined_once_group
  by (auto simp: synced_once_def handle_sync_group_def sample_sync_def Let_def gc_groups_put)

lemma joined_twice_group: "\<exists>g. gc_groups joined_twice ''g'' = Some g \<and> gm_generation g = 2"
  using synced_once_group
  by (auto simp: joined_twice_def handle_join_group_def sample_join_def Let_def gc_groups_put
      group_at_Some join_generation_def)

text \<open>C10: Whatever requests the coordinator handles, in whatever order and at whatever times, every
  group is \<open>Empty\<close> exactly when it has no members, no two members of a group share an id, and
  the state \<open>Dead\<close> is never entered.\<close>

theorem coordinator_invariant:
  assumes "coord_run new_coordinator reqs c"
  shows "coordinator_ok c"
  using assms coordinator_ok_new by (rule coord_run_ok)

theorem coordinator_invariant_witness: "coordinator_ok joined_once"
  using step_joined_once coordinator_invariant run_single by blast



lemma synced_once_ok: "coordinator_ok synced_once"
proof -
  have "coord_run new_coordinator ([JoinGroup sample_join] @ [SyncGroup (sample_sync 1)]) synced_once"
    using step_joined_once step_synced_once run_single run_step by blast
  then show ?thesis using coord_run_ok coordinator_ok_new by blast
qed



text \<open>C13: A rebalance completes. After a JoinGroup, a SyncGroup that carries the generation of the
  answer and at least one assignment is accepted and makes the group stable, and then a heartbeat
  in that generation is accepted too, at any time.\<close>

theorem rebalance_completes:
  assumes "handle_join_group now jr c = (c1, jresp)" and "sg_group_id sr = jg_group_id jr"
    and "sg_generation_id sr = jgr_generation_id jresp" and "sg_assignments sr \<noteq> []"
    and "handle_sync_group clock sr c1 = (c2, sresp)" and "hb_group_id hr = jg_group_id jr"
    and "hb_generation_id hr = jgr_generation_id jresp"
  shows "sgr_error_code sresp = 0 \<and>
    (\<exists>g. gc_groups c2 (jg_group_id jr) = Some g \<and> gm_state g = Stable) \<and>
    hbr_error_code (snd (handle_heartbeat now' hr c2)) = 0"
proof -
  obtain g1 where g1: "gc_groups c1 (jg_group_id jr) = Some g1" "gm_generation g1 = jgr_generation_id jresp"
    using assms(1) by (auto simp: handle_join_group_def Let_def gc_groups_put)
  with assms(2-5) have "sgr_error_code sresp = 0" and
    "\<exists>g. gc_groups c2 (jg_group_id jr) = Some g \<and> gm_state g = Stable \<and> gm_generation g = jgr_generation_id jresp"
    by (auto simp: handle_sync_group_def Let_def gc_groups_put sync_response_def)
  with assms(6,7) show ?thesis by (auto simp: handle_heartbeat_def Let_def)
qed

theorem rebalance_completes_witness:
  "sgr_error_code (snd (handle_sync_group (\<lambda>_. 0) (sample_sync 1) joined_once)) = 0"
proof -
  have gen: "jgr_generation_id (snd (handle_join_group 0 sample_join new_coordinator)) = 1"
    by (simp add: handle_join_group_def sample_join_def Let_def
        new_coordinator_def group_at_def new_group_def join_generation_def)
  let ?hr = "\<lparr>hb_header = \<lparr>api_key = 12, api_version = 4, correlation_id = 3\<rparr>,
      hb_group_id = ''g'', hb_generation_id = 1, hb_member_id = ''member-1'', hb_group_instance_id = []\<rparr>"
  have 1: "handle_join_group 0 sample_join new_coordinator =
      (joined_once, snd (handle_join_group 0 sample_join new_coordinator))"
    and 2: "handle_sync_group (\<lambda>_. 0) (sample_sync 1) joined_once =
      (synced_once, snd (handle_sync_group (\<lambda>_. 0) (sample_sync 1) joined_once))"
    by (simp_all only: joined_once_def synced_once_def prod.collapse)
  have 3: "sg_group_id (sample_sync 1) = jg_group_id sample_join" "hb_group_id ?hr = jg_group_id sample_join"
    "sg_generation_id (sample_sync 1) = 1" "hb_generation_id ?hr = 1" "sg_assignments (sample_sync 1) \<noteq> []"
    by (simp_all add: sample_sync_def sample_join_def)
  show ?thesis
    using rebalance_completes [OF 1 3(1) _ 3(5) 2 3(2)] unfolding gen 3 by blast
qed

text \<open>C18: SyncGroup distributes the assignments. When the request of the leader is accepted, the
  group is stable and every member that syncs afterwards in the same generation receives exactly
  the assignment the leader gave it.\<close>

theorem sync_distributes:
  assumes "gc_groups c (sg_group_id r) = Some g" and "gm_generation g = sg_generation_id r"
    and "sg_assignments r \<noteq> []" and "distinct (map sga_member_id (sg_assignments r))"
    and "a \<in> set (sg_assignments r)" and "sg_group_id r' = sg_group_id r"
    and "sg_generation_id r' = sg_generation_id r" and "sg_member_id r' = sga_member_id a"
    and "sg_assignments r' = []"
  shows "handle_sync_group clock' r' (fst (handle_sync_group clock r c)) =
    (fst (handle_sync_group clock r c), sync_response r' 0 (sga_assignment a))"
  using assms assignment_after_sync [OF assms(4,5), of clock 0 "gm_members g"]
  by (simp add: handle_sync_group_def Let_def gc_groups_put)

theorem sync_distributes_witness:
  "snd (handle_sync_group (\<lambda>_. 1) ((sample_sync 1)\<lparr>sg_assignments := []\<rparr>) synced_once) =
     sync_response ((sample_sync 1)\<lparr>sg_assignments := []\<rparr>) 0 [7, 7]"
proof -
  obtain g where "gc_groups joined_once ''g'' = Some g" "gm_generation g = 1"
    using joined_once_group by blast
  then show ?thesis
    using sync_distributes [of joined_once "sample_sync 1" g
        "\<lparr>sga_member_id = ''member-1'', sga_assignment = [7, 7]\<rparr>" "(sample_sync 1)\<lparr>sg_assignments := []\<rparr>"
        "\<lambda>_. 1" "\<lambda>_. 0"]
    by (simp add: synced_once_def [symmetric]) (simp add: sample_sync_def)
qed

text \<open>C17: Committed offsets are kept. What a group commits for a partition is what an OffsetFetch of
  that group returns for it later, after any sequence of coordinator requests in which this group
  commits nothing else: rebalances, expired members and an empty group do not lose it.\<close>

theorem committed_offset_kept:
  assumes "distinct (commit_keys r)" and "tr \<in> set (oc_topics r)" and "p \<in> set (oct_partitions tr)"
    and "coord_run (fst (handle_offset_commit r c)) reqs c'"
    and "\<And>req. req \<in> set reqs \<Longrightarrow> \<not> commits_to (oc_group_id r) req"
    and "of_group_id fr = oc_group_id r"
    and "of_topics fr = [\<lparr>oft_topic_name = oct_topic_name tr, oft_partition_indexes = [ocp_partition_index p]\<rparr>]"
  shows "ofr_topics (snd (handle_offset_fetch fr c')) =
    [\<lparr>oftr_topic_name = oct_topic_name tr,
      oftr_partitions = [\<lparr>ofpr_partition_index = ocp_partition_index p,
        ofpr_committed_offset = ocp_committed_offset p, ofpr_committed_leader_epoch = - 1,
        ofpr_committed_metadata = [], ofpr_error_code = 0\<rparr>]\<rparr>]"
  using committed_after_commit [OF assms(1-3), of c] coord_run_offsets [OF assms(4,5)] assms(6,7)
  by (simp add: offset_fetch_response)

definition sample_commit :: OffsetCommitRequest where
  "sample_commit = \<lparr>oc_header = \<lparr>api_key = 8, api_version = 8, correlation_id = 4\<rparr>,
     oc_group_id = ''g'', oc_member_id = ''member-1'', oc_generation_id = 1,
     oc_topics = [\<lparr>oct_topic_name = ''t'',
       oct_partitions = [\<lparr>ocp_partition_index = 0, ocp_committed_offset = 42\<rparr>]\<rparr>]\<rparr>"

theorem committed_offset_kept_witness:
  "ofr_topics (snd (handle_offset_fetch
      \<lparr>of_header = \<lparr>api_key = 9, api_version = 8, correlation_id = 5\<rparr>, of_group_id = ''g'',
       of_topics = [\<lparr>oft_topic_name = ''t'', oft_partition_indexes = [0]\<rparr>]\<rparr>
      (fst (handle_join_group 9 sample_join (fst (handle_offset_commit sample_commit new_coordinator)))))) =
    [\<lparr>oftr_topic_name = ''t'', oftr_partitions = [\<lparr>ofpr_partition_index = 0, ofpr_committed_offset = 42,
       ofpr_committed_leader_epoch = - 1, ofpr_committed_metadata = [], ofpr_error_code = 0\<rparr>]\<rparr>]"
proof -
  let ?p = "\<lparr>ocp_partition_index = 0, ocp_committed_offset = 42\<rparr>"
  let ?c = "fst (handle_offset_commit sample_commit new_coordinator)"
  have "coord_run ?c [JoinGroup sample_join] (fst (handle_join_group 9 sample_join ?c))"
    by (rule run_single, rule step_join, rule prod.collapse [symmetric])
  then show ?thesis
    using committed_offset_kept [of sample_commit "\<lparr>oct_topic_name = ''t'', oct_partitions = [?p]\<rparr>" ?p
        new_coordinator "[JoinGroup sample_join]"]
    by (simp add: sample_commit_def commit_keys_def commits_to_def)
qed

text \<open>C27: Generated member ids are fresh: two clients that join without an id, anywhere in a run of
  fewer than two to the 31 requests, to the same group or to different ones, get different ids.\<close>

theorem generated_member_ids_distinct:
  assumes "jg_member_id r = []" and "jg_member_id r' = []"
    and "coord_run (fst (handle_join_group now r c)) reqs c'"
    and "0 \<le> sint (gc_next_member_id c)" and "sint (gc_next_member_id c) + int (length reqs) + 2 < 2 ^ 31"
  shows "jgr_member_id (snd (handle_join_group now r c)) \<noteq> jgr_member_id (snd (handle_join_group now' r' c'))"
proof -
  have n: "sint (gc_next_member_id c + 1) = sint (gc_next_member_id c) + 1"
    using assms(4,5) by (intro sint_plus_1) simp_all
  then have "sint (gc_next_member_id c + 1) \<le> sint (gc_next_member_id c')"
      "sint (gc_next_member_id c') \<le> sint (gc_next_member_id c + 1) + int (length reqs)"
    using coord_run_next_id [OF assms(3)] assms(4,5) by (simp_all add: join_generated_id [OF assms(1)])
  moreover from this have "sint (gc_next_member_id c' + 1) = sint (gc_next_member_id c') + 1"
    using n assms(4,5) by (intro sint_plus_1) simp_all
  ultimately have "gc_next_member_id c + 1 \<noteq> gc_next_member_id c' + 1"
    "0 \<le> sint (gc_next_member_id c + 1)" "0 \<le> sint (gc_next_member_id c' + 1)"
    using n assms(4) by auto
  then show ?thesis
    using to_string_inj_nonneg [of "gc_next_member_id c + 1" "gc_next_member_id c' + 1"]
    by (auto simp: join_generated_id [OF assms(1)] join_generated_id [OF assms(2)])
qed

theorem generated_member_ids_distinct_witness:
  "jgr_member_id (snd (handle_join_group 0 sample_join new_coordinator)) \<noteq>
   jgr_member_id (snd (handle_join_group 0 sample_join synced_once))"
proof (rule generated_member_ids_distinct)
  show "coord_run (fst (handle_join_group 0 sample_join new_coordinator)) [SyncGroup (sample_sync 1)] synced_once"
    using step_synced_once run_single unfolding joined_once_def by blast
qed (simp_all add: sample_join_def new_coordinator_def)

text \<open>C19: Session expiry. A heartbeat that is accepted keeps exactly the members whose last
  heartbeat is within the session timeout, the sender's being now; the sender itself is never
  expired by it, and the generation moves on exactly when somebody else was and someone is
  left.\<close>

theorem heartbeat_expires_members:
  assumes "coordinator_ok c" and "gc_groups c (hb_group_id r) = Some g" and "gm_state g = Stable"
    and "gm_generation g = hb_generation_id r" and "0 \<le> sint (gm_session_timeout_ms g)"
  shows "\<exists>g'. gc_groups (fst (handle_heartbeat now r c)) (hb_group_id r) = Some g' \<and>
    hbr_error_code (snd (handle_heartbeat now r c)) = 0 \<and>
    map mi_member_id (gm_members g') =
      map mi_member_id (filter (\<lambda>m. mi_member_id m = hb_member_id r \<or>
        now - mi_last_heartbeat m \<le> sint (gm_session_timeout_ms g) * 1000000) (gm_members g)) \<and>
    (gm_generation g' = gm_generation g + 1 \<longleftrightarrow>
      gm_members g' \<noteq> [] \<and> length (gm_members g') < length (gm_members g))"
proof -
  let ?g' = "heartbeat_group now (hb_member_id r) g"
  have "group_ok g" using assms(1,2) by (rule coordinator_okD)
  then have "map mi_member_id (gm_members ?g') = map mi_member_id (filter (\<lambda>m. mi_member_id m = hb_member_id r \<or>
        now - mi_last_heartbeat m \<le> sint (gm_session_timeout_ms g) * 1000000) (gm_members g))"
    using assms(5) by (simp add: heartbeat_members ids_alive group_ok_def)
  moreover have "gm_generation ?g' = gm_generation g + 1 \<longleftrightarrow>
      gm_members ?g' \<noteq> [] \<and> length (gm_members ?g') < length (gm_members g)"
    by (auto simp: heartbeat_group_def Let_def)
  ultimately show ?thesis using assms(2-4) by (auto simp: handle_heartbeat_def Let_def gc_groups_put)
qed

theorem heartbeat_expires_members_witness:
  "hbr_error_code (snd (handle_heartbeat 5 \<lparr>hb_header = \<lparr>api_key = 12, api_version = 4, correlation_id = 3\<rparr>,
      hb_group_id = ''g'', hb_generation_id = 1, hb_member_id = ''member-1'', hb_group_instance_id = []\<rparr>
      synced_once)) = 0"
proof -
  obtain g where "gc_groups synced_once ''g'' = Some g" "gm_generation g = 1" "gm_state g = Stable"
    using synced_once_group by blast
  moreover from this have "gm_session_timeout_ms g = 10000"
    by (auto simp: synced_once_def handle_sync_group_def sample_sync_def Let_def gc_groups_put joined_once_def
        handle_join_group_def sample_join_def new_coordinator_def group_at_def new_group_def
        join_generation_def)
  ultimately show ?thesis
    using heartbeat_expires_members [OF synced_once_ok, of
      "\<lparr>hb_header = \<lparr>api_key = 12, api_version = 4, correlation_id = 3\<rparr>,
      hb_group_id = ''g'', hb_generation_id = 1, hb_member_id = ''member-1'', hb_group_instance_id = []\<rparr>" g 5]
    by auto
qed

section \<open>The partition log\<close>

lemma sample_batch_records: "batch_records (enc_batch sample_batch) = 2"
  by code_simp

lemma sample_log_good: "log_good (sample_context, sample_os)"
proof -
  have "holds sample_context sample_os []"
    unfolding sample_context_def by (rule holds_new) (simp_all add: sample_os_def)
  then show ?thesis
    by (auto simp: log_good_def log_position_def sample_context_def new_partition_context_def)
qed

lemma sample_log_can: "log_can sample_answers (enc_batch sample_batch) (sample_context, sample_os)"
  by (simp add: log_can_def sample_batch_records os_cooperates_def sample_batch_length)
    (simp add: log_position_def sample_context_def new_partition_context_def sample_answers_def
      sample_os_def word_sle_eq)



section \<open>Producing, listing and fetching\<close>


definition sample_topic :: TopicInfo where
  "sample_topic = \<lparr>ti_name = ''t'', ti_uuid = replicate 16 1, ti_partitions = [0]\<rparr>"

definition sample_handler :: RecordHandler where
  "sample_handler = \<lparr>rh_log_root = ''/logs'', rh_segment_bytes = 1000, rh_ring = False,
     rh_metadata = parse_cluster_metadata_file None\<rparr>"

definition sample_store :: log_store where
  "sample_store = \<lparr>ls_contexts = (\<lambda>_. None), ls_os = sample_os\<rparr>"

lemma sample_store_context:
  "context_at sample_handler sample_store (''t'', 0) = sample_context" "ls_os sample_store = sample_os"
  by (simp_all add: context_at_def get_or_create_context_def sample_store_def sample_handler_def
      sample_context_def Let_def)

definition sample_produce :: "ProducePartitionResponse expected \<times> log_store" where
  "sample_produce = produce_partition sample_handler (\<lambda>_. sample_answers) ''t'' (Some sample_topic) 0
     \<lparr>pp_partition_index = 0, pp_records = enc_batch sample_batch\<rparr> sample_store"

lemma sample_no_splice:
  "\<not> 0 \<le>s si_fd (splice_info 0 1048576 (context_at sample_handler (snd sample_produce) (''t'', 0)))"
proof -
  let ?c = "context_at sample_handler (snd sample_produce) (''t'', 0)"
  have "pc_current_bytes ?c = 75" "map ie_file_position (pc_index ?c) = [0]" by code_simp+
  then show ?thesis
    by (auto simp: splice_info_def Let_def size_minus_def word_sle_eq split: option.splits if_splits)
qed


definition sample_env :: broker_env where
  "sample_env = \<lparr>env_now = 0, env_clock = (\<lambda>_. 0), env_os = (\<lambda>_ _. sample_answers)\<rparr>"

definition sample_broker :: broker_state where
  "sample_broker = \<lparr>bk_store = sample_store, bk_coordinator = new_coordinator\<rparr>"

theorem request_to_frame_witness:
  "\<exists>resp. fst (handle sample_handler sample_env sample_heartbeat sample_broker) = Inr resp \<and>
    serialize resp = Some (response_frame resp)"
proof -
  have p: "parse_request (encode_request None sample_heartbeat @ []) = Inr sample_heartbeat"
    by (rule parse_encode_request) (simp_all add: client_ok_def sample_heartbeat_def short_def)
  obtain resp s' where h: "handle sample_handler sample_env sample_heartbeat sample_broker =
      (Inr (HeartbeatR resp), s')"
    by (simp add: sample_heartbeat_def with_coordinator_def)
  show ?thesis using request_to_frame [OF p h, of None] h by (simp add: sample_handler_def)
qed

text \<open>C25: Partitions do not interfere. A Produce changes the contexts of no partition other than
  those it names, and a ListOffsets changes none at all.\<close>

theorem partitions_isolated:
  assumes "key \<notin> produced_keys r"
  shows "context_at h (snd (handle_produce h an r s)) key = context_at h s key \<and>
    context_at h (snd (handle_list_offsets h lr s)) key' = context_at h s key'"
  using produce_isolated [OF assms] list_offsets_contexts by blast

theorem partitions_isolated_witness:
  "context_at sample_handler (snd (handle_produce sample_handler (\<lambda>_ _. sample_answers)
     \<lparr>produce_header = \<lparr>api_key = 0, api_version = 11, correlation_id = 6\<rparr>,
      produce_topics = [\<lparr>pt_topic_name = ''t'',
        pt_partitions = [\<lparr>pp_partition_index = 1, pp_records = [1, 2, 3]\<rparr>]\<rparr>]\<rparr> sample_store)) (''t'', 0) =
   context_at sample_handler sample_store (''t'', 0)"
proof -
  have "(''t'', 0) \<notin> produced_keys
     \<lparr>produce_header = \<lparr>api_key = 0, api_version = 11, correlation_id = 6\<rparr>,
      produce_topics = [\<lparr>pt_topic_name = ''t'',
        pt_partitions = [\<lparr>pp_partition_index = 1, pp_records = [1, 2, 3]\<rparr>]\<rparr>]\<rparr>"
    by (simp add: produced_keys_def)
  from partitions_isolated [OF this] show ?thesis by blast
qed

section \<open>Topics\<close>

text \<open>C21: What a client is told about a topic is what the metadata log says. For a log of well-formed
  batches, with at most an incomplete header behind them and with distinct topic ids and names,
  the parser succeeds, and asking for a topic of the log by name gives error 0, its id, and exactly
  the partitions whose records carry that id, in the order of the log; any other name gives error
  3.\<close>

theorem log_topic_described:
  assumes "meta_log_ok bs" and "length ext < 57"
    and "distinct (map rt_uuid (raw_topics (log_records bs)))"
    and "distinct (map rt_name (raw_topics (log_records bs)))"
  shows "\<exists>meta. parse_cluster_metadata (enc_meta_log bs @ ext) = Inr meta \<and>
    (\<forall>tr\<in>set (raw_topics (log_records bs)). build_topic_metadata meta (rt_name tr) =
      \<lparr>tm_error_code = 0, tm_topic_name = rt_name tr, tm_topic_id = rt_uuid tr, tm_is_internal = False,
       tm_authorized_operations = 0,
       tm_partitions = map (\<lambda>pr. partition_metadata (rp_partition_id pr))
         (filter (\<lambda>pr. rp_uuid pr = rt_uuid tr) (raw_partitions (log_records bs)))\<rparr>) \<and>
    (\<forall>name. name \<notin> rt_name ` set (raw_topics (log_records bs)) \<longrightarrow>
      tm_error_code (build_topic_metadata meta name) = 3)"
proof -
  let ?raw = "log_records bs" and ?meta = "build_metadata (log_records bs)"
  have topics: "cm_topics ?meta = map (topic_info (raw_partitions ?raw)) (raw_topics ?raw)"
    using assms(3) by (rule topics_build)
  then have names: "map ti_name (cm_topics ?meta) = map rt_name (raw_topics ?raw)"
    by (simp add: topic_info_def)
  then have d: "distinct (map ti_name (cm_topics ?meta))" using assms(4) by simp
  have "build_topic_metadata ?meta (rt_name tr) =
      \<lparr>tm_error_code = 0, tm_topic_name = rt_name tr, tm_topic_id = rt_uuid tr, tm_is_internal = False,
       tm_authorized_operations = 0,
       tm_partitions = map (\<lambda>pr. partition_metadata (rp_partition_id pr))
         (filter (\<lambda>pr. rp_uuid pr = rt_uuid tr) (raw_partitions ?raw))\<rparr>"
    if "tr \<in> set (raw_topics ?raw)" for tr
    using build_topic_metadata_known [OF metadata_ok_build _ d, of "topic_info (raw_partitions ?raw) tr"]
      that topics by (simp add: topic_info_def comp_def)
  moreover have "ti_name ` set (cm_topics ?meta) = rt_name ` set (raw_topics ?raw)"
    using names by (metis set_map)
  ultimately show ?thesis
    using parse_cluster_metadata_log [OF assms(1,2)] build_topic_metadata_unknown [OF metadata_ok_build, of ?raw]
    by auto
qed

definition sample_log :: "(record_batch \<times> meta_entry list) list" where
  "sample_log = [(sample_batch,
     [TopicEntry \<lparr>rt_name = ''t'', rt_uuid = replicate 16 1\<rparr> [0],
      OtherEntry 9 [1, 2],
      PartitionEntry \<lparr>rp_partition_id = 0, rp_uuid = replicate 16 1\<rparr> [3]])]"

lemma sample_log_ok: "meta_log_ok sample_log"
proof -
  have "length (enc_batch_body (meta_batch sample_batch (snd (hd sample_log)))) < 200"
    "list_all (\<lambda>r. length (br_value r) < 100) (rb_records (meta_batch sample_batch (snd (hd sample_log))))"
    "list_all (\<lambda>r. br_key r = None) (rb_records (meta_batch sample_batch (snd (hd sample_log))))"
    by code_simp+
  then show ?thesis
    by (auto simp: sample_log_def meta_log_ok_def batch_ok_def list_all_iff meta_batch_def entry_record_def)
qed

theorem log_topic_described_witness:
  "\<exists>meta. parse_cluster_metadata (enc_meta_log sample_log @ [0, 0]) = Inr meta \<and>
    tm_partitions (build_topic_metadata meta ''t'') = [partition_metadata 0]"
proof -
  have raw: "raw_topics (log_records sample_log) = [\<lparr>rt_name = ''t'', rt_uuid = replicate 16 1\<rparr>]"
    "raw_partitions (log_records sample_log) = [\<lparr>rp_partition_id = 0, rp_uuid = replicate 16 1\<rparr>]"
    by (simp_all add: log_records_def sample_log_def)
  show ?thesis
    using log_topic_described [OF sample_log_ok, of "[0, 0]"] unfolding raw by auto
qed

text \<open>C35: Whatever the bytes of the metadata file, the tables built from it are consistent: both
  indexes point to positions of the topic table where the name or the id is the one looked up,
  every name and id of the table is indexed, and every topic id has sixteen bytes.\<close>

theorem metadata_tables_consistent:
  "metadata_ok (parse_cluster_metadata_file log_bytes) \<and> ids_sized (parse_cluster_metadata_file log_bytes)"
  by (simp add: metadata_ok_file ids_sized_file)

section \<open>The running server\<close>



text \<open>C6: Every partition has one writer. As long as the clients send requests whose partitions all
  belong to one reactor (in particular requests for one partition), a reactor has a context, and so
  an open segment and a next offset, only for partitions that are routed to it; two reactors never
  have one for the same partition.\<close>

theorem partition_single_owner:
  assumes "start_server sas hash c os file = (cfgs, s0)" and "server_run cfgs s0 reqs s"
    and "0 < cf_reactor_count c" and "cf_reactor_count c < 2 ^ 64"
    and "\<forall>req\<in>set reqs. co_located (cfgs ! 0) req"
    and "i < cf_reactor_count c" and "ls_contexts (bk_store (wr_broker (sv_reactors s ! i))) (context_key t p) \<noteq> None"
    and "j < cf_reactor_count c" and "ls_contexts (bk_store (wr_broker (sv_reactors s ! j))) (context_key t p) \<noteq> None"
  shows "i = j \<and> partition_owner (cfgs ! 0) t p = Some i"
proof -
  have start: "cfgs = fst (start_server sas hash c os file)" "s0 = snd (start_server sas hash c os file)"
    by (simp_all add: assms(1))
  have len: "length cfgs = cf_reactor_count c" using length_start_server start by simp
  have "stores_owned cfgs s"
    using server_run_owned [OF assms(2)] start_configs_ok [OF assms(3,4)] start_server_ok start_server_owned assms(5)
    unfolding start by blast
  then have own: "partition_owner (cfgs ! 0) t p = Some k"
    if "k < cf_reactor_count c" "ls_contexts (bk_store (wr_broker (sv_reactors s ! k))) (context_key t p) \<noteq> None" for k
    using that len by (auto simp: stores_owned_def within_def owned_keys_def dest!: context_key_inj)
  from own [OF assms(6,7)] own [OF assms(8,9)] show ?thesis by simp
qed

text \<open>C11: A request is answered on its connection. When the frame of a request that this reactor handles
  has arrived on a resting connection, one read event and one write event suffice: the handler runs
  once, the client is sent exactly the serialized response, the bytes behind the request stay in
  the socket, and the connection is resting again.\<close>

theorem request_reply:
  assumes "reactor_ok cfg r" and "request_arrived cfg r fd sk body ext" and "parse_request body = Inr req"
    and "handled_here cfg req" and "sr_reactor_count (rc_router cfg) \<noteq> 0"
    and "handle (rc_handler cfg) e req (wr_broker r) = (Inr resp, b)" and "serialize resp = Some buf"
    and "last_splice resp = None" and "length buf \<le> rc_max_write_buffer_bytes cfg" and "length buf \<le> sk_room sk"
    and "\<forall>i. transfers (an i)" and "transfers an'"
  shows "\<exists>r1 sk2. handle_read an e cfg fd r = Inr r1 \<and> kn_interest (wr_kernel r1) fd = Some EpollInOut \<and>
    resting (handle_write an' sqe fd r1) fd \<and> wr_broker (handle_write an' sqe fd r1) = b \<and>
    kn_socks (wr_kernel (handle_write an' sqe fd r1)) fd = Some sk2 \<and> sk_in sk2 = ext \<and> sk_out sk2 = sk_out sk @ buf"
  using request_reply_local [OF assms, of sqe] by (auto simp: answering_def)

text \<open>C12: A request for a partition of another reactor is answered on the connection it came in on. When
  the frame has arrived and neither queue between the two reactors holds anything else, reading the
  connection hands the request to its owner, draining the owner's queue handles it on the owner's
  store, draining the first reactor's queue queues exactly the serialized response, and the next
  write hands it to the client; the bytes behind the request stay in the socket, and the connection
  is ready for the next request.\<close>

theorem forwarded_reply:
  assumes "configs_ok cfgs" and "server_ok cfgs s" and "i < length cfgs" and "j < length cfgs" and "i \<noteq> j"
    and "request_arrived (cfgs ! i) (reactor_view i s) fd sk body ext" and "parse_request body = Inr req"
    and "request_owner (cfgs ! i) req = Some j"
    and "cq_requests (sv_queues s ! j) = []" and "cq_responses (sv_queues s ! i) = []"
    and "handle (rc_handler (cfgs ! j)) e req (wr_broker (reactor_view j s)) = (Inr resp, b)"
    and "serialize resp = Some buf" and "last_splice resp = None" and "length buf \<le> sk_room sk"
    and "\<forall>n. transfers (an n)" and "transfers an'"
  shows "\<exists>r1 r2 r3 sk'.
    handle_read an e0 (cfgs ! i) fd (reactor_view i s) = Inr r1 \<and>
    drain_request e (cfgs ! j) (reactor_view j (put_reactor i r1 s)) = Some (Inr r2) \<and> wr_broker r2 = b \<and>
    drain_response (cfgs ! i) (reactor_view i (put_reactor j r2 (put_reactor i r1 s))) = Some r3 \<and>
    resting (handle_write an' sqe fd r3) fd \<and>
    kn_socks (wr_kernel (handle_write an' sqe fd r3)) fd = Some sk' \<and> sk_in sk' = ext \<and> sk_out sk' = sk_out sk @ buf"
proof -
  have len: "length (sv_reactors s) = length cfgs" "length (sv_queues s) = length cfgs"
    and ok: "reactor_ok (cfgs ! i) (reactor_view i s)"
    using assms(2,3) by (simp_all add: server_ok_def queues_ok_def)
  note ids = configs_okD(1,2) [OF assms(1,3)] configs_okD(1) [OF assms(1,4)]
  have jn: "j \<noteq> rc_reactor_id (cfgs ! i)" "j < length (wr_queues (reactor_view i s))"
    using assms(4,5) ids len by simp_all
  let ?fwd = "forwarded (cfgs ! i) fd req"
  obtain r1 sk1 where r1: "handle_read an e0 (cfgs ! i) fd (reactor_view i s) = Inr r1" "resting r1 fd"
      "wr_broker r1 = wr_broker (reactor_view i s)"
      "wr_queues r1 = (sv_queues s)[j := push_request ?fwd (sv_queues s ! j)]"
      "kn_socks (wr_kernel r1) fd = Some sk1" "sk_in sk1 = ext" "sk_out sk1 = sk_out sk" "sk_room sk1 = sk_room sk"
    using forward_arrived [OF ok assms(6-8) jn(1,2) assms(15), where e = e0, unfolded reactor_view_queues] by blast
  let ?s1 = "put_reactor i r1 s"
  let ?v = "reactor_view j ?s1"
  have qj: "cq_requests (wr_queues ?v ! j) = [?fwd]"
    using assms(4,9) len by (simp add: r1(4) requests.push_held)
  have qi: "wr_queues ?v ! i = sv_queues s ! i" using assms(5) by (simp add: r1(4))
  have h: "handle (rc_handler (cfgs ! j)) e (fq_request ?fwd) (wr_broker ?v) = (Inr resp, b)"
    using assms(11) view_put_other [OF assms(5) r1(3)] by (simp add: forwarded_def)
  let ?out = "\<lparr>fs_client_fd = fd, fs_data = buf, fs_splice_fd = - 1, fs_splice_len = 0\<rparr>"
  define r2 where "r2 = ?v\<lparr>wr_broker := b, wr_queues := (wr_queues ?v)
      [j := (wr_queues ?v ! j)\<lparr>cq_requests := []\<rparr>, i := push_response ?out (wr_queues ?v ! i)]\<rparr>"
  have "unat (fq_source_reactor_id ?fwd) = i" by (simp add: forwarded_def ids)
  from drain_request_answers [OF ids(3) _ _ assms(5) qj this h assms(12,13)]
  have dr: "drain_request e (cfgs ! j) ?v = Some (Inr r2)"
    using assms(3,4) len by (simp add: r2_def r1(4) forwarded_def)
  let ?w = "reactor_view i (put_reactor j r2 ?s1)"
  have same: "wr_connections ?w = wr_connections r1" "wr_kernel ?w = wr_kernel r1"
    using view_put_same [of i s j r2 r1] assms(3,5) len by simp_all
  have "cq_responses (wr_queues ?w ! i) = [?out]"
    using assms(3,5,10) len qi by (simp add: r2_def responses.push_held r1(4))
  moreover have "resting ?w fd" using r1(2) same by (simp add: resting_def)
  ultimately obtain r3 where r3: "drain_response (cfgs ! i) ?w = Some r3" "answering r3 fd buf"
      "kn_socks (wr_kernel r3) fd = Some sk1"
    using drain_response_delivers [OF ids(1)] r1(5) same by metis
  have "length buf \<le> sk_room sk1" using assms(14) r1(8) by simp
  from answering_sent [OF r3(2,3) this assms(16), of sqe] r1 dr r3(1) show ?thesis
    by (auto simp: r2_def)
qed

text \<open>C34: Answers can overtake each other. A client that sends a request for a partition of another
  reactor and, without waiting, one that this reactor handles, is sent the answer to the second one
  while the first is still in the queue of its owner: forwarding leaves the connection ready for
  the next request.\<close>

theorem pipelined_answer_overtakes:
  assumes "reactor_ok cfg r" and "request_arrived cfg r fd sk body (frame body' @ ext)"
    and "parse_request body = Inr req" and "request_owner cfg req = Some j" and "j \<noteq> rc_reactor_id cfg"
    and "j < length (wr_queues r)" and "parse_request body' = Inr req'" and "length body' < 2 ^ 31"
    and "length body' \<le> unat (rc_max_message_bytes cfg)" and "handled_here cfg req'"
    and "sr_reactor_count (rc_router cfg) \<noteq> 0"
    and "handle (rc_handler cfg) e' req' (wr_broker r) = (Inr resp, b)" and "serialize resp = Some buf"
    and "last_splice resp = None" and "length buf \<le> rc_max_write_buffer_bytes cfg" and "length buf \<le> sk_room sk"
    and "\<forall>i. transfers (an i)" and "transfers an'"
  shows "\<exists>r1 r2 sk'. handle_read an e cfg fd r = Inr r1 \<and> handle_read an e' cfg fd r1 = Inr r2 \<and>
    kn_socks (wr_kernel (handle_write an' sqe fd r2)) fd = Some sk' \<and> sk_out sk' = sk_out sk @ buf \<and>
    cq_requests (wr_queues (handle_write an' sqe fd r2) ! j) = cq_requests (wr_queues r ! j) @ [forwarded cfg fd req]"
proof -
  obtain r1 sk1 where r1: "handle_read an e cfg fd r = Inr r1" "resting r1 fd" "wr_broker r1 = wr_broker r"
      "wr_queues r1 = (wr_queues r)[j := push_request (forwarded cfg fd req) (wr_queues r ! j)]"
      "kn_socks (wr_kernel r1) fd = Some sk1" "sk_in sk1 = frame body' @ ext" "sk_out sk1 = sk_out sk"
      "sk_room sk1 = sk_room sk"
    using forward_arrived [OF assms(1-6,17), of e] by blast
  have arrived: "request_arrived cfg r1 fd sk1 body' ext" using r1 assms(8,9) by (simp add: request_arrived_def)
  obtain r2 sk2 where "handle_read an e' cfg fd r1 = Inr r2" "wr_queues r2 = wr_queues r1"
      "kn_socks (wr_kernel (handle_write an' sqe fd r2)) fd = Some sk2" "sk_out sk2 = sk_out sk1 @ buf"
    using request_reply_local [OF conjunct1 [OF handle_read_ok [OF assms(1) r1(1)]] arrived assms(7,10,11), of e' resp b buf an an' sqe]
      assms(12-18) r1(3,8) by auto
  with r1 assms(6) show ?thesis by (simp add: requests.push_held)
qed

text \<open>C15: The reactor cuts the incoming stream into frames as specified. When the kernel reports no
  errors, and however it splits the transfers, reading a connection depends only on the bytes
  buffered and the bytes that have arrived: too few bytes are kept, a length beyond the limit closes
  the connection, and a complete request is cut off exactly, with the bytes behind it left in the
  socket.\<close>

theorem read_frame_refines:
  assumes "reactor_ok cfg r" and "wr_connections r fd = Some c" and "kn_socks (wr_kernel r) fd = Some sk"
    and "\<forall>i. transfers (an i)"
  shows "flow_outcome fd (read_frame an cfg fd r) =
    frame_step (unat (rc_max_message_bytes cfg)) (cn_read_buf c) (sk_in sk)"
  using assms by (rule read_frame_outcome)

text \<open>C14: Frames survive fragmentation. A request that arrives in any number of pieces, with the
  connection read after each of them, is collected completely, provided no piece ends exactly
  behind the four bytes of the length prefix.\<close>

theorem frame_reassembled:
  assumes "reactor_ok cfg r" and "resting r fd" and "kn_socks (wr_kernel r) fd = Some sk" and "sk_in sk = []"
    and "\<forall>i. transfers (an i)" and "concat ds = frame body" and "length body < 2 ^ 31"
    and "length body \<le> unat (rc_max_message_bytes cfg)" and "[] \<notin> set ds"
    and "\<forall>n. length (concat (take n ds)) \<noteq> 4"
  shows "\<exists>r'. read_chunks an cfg fd ds r = Continue r' \<and> cn_read_buf (conn_at r' fd) = frame body"
proof -
  obtain c where c: "wr_connections r fd = Some c" "cn_read_buf c = []" using assms(2) by (rule restingE)
  have "length (concat ds) = 4 + length body" by (simp add: assms(6) frame_def)
  then have "ds \<noteq> []" by auto
  with c assms show ?thesis by (intro read_chunks_frame [OF assms(1) c(1) assms(3-5)]) simp_all
qed

lemma read_frame_socket:
  assumes "reactor_ok cfg r" and "kn_socks (wr_kernel r) fd = Some sk" and "read_frame an cfg fd r = Continue r1"
  shows "kn_socks (wr_kernel r1) fd \<noteq> None"
  using assms(1)
proof (cases rule: read_frame_cases [of cfg r an fd])
  case (request r2)
  have "outs (wr_kernel r2) fd = outs (wr_kernel r) fd" using stagedD(11) [OF request(2)] by simp
  with request(1) assms(2,3) show ?thesis by (auto simp: outs_def)
qed (use assms(3) in simp_all)

text \<open>C37: The exception is real: when exactly the length prefix of a frame has arrived and the rest is
  still on its way, the reactor closes the connection, because \<open>recv_all\<close> reports a socket with
  nothing to read like one the peer has closed.\<close>

theorem header_alone_closes:
  assumes "reactor_ok cfg r" and "resting r fd" and "kn_socks (wr_kernel r) fd = Some sk"
    and "sk_in sk = take 4 (frame body)" and "\<forall>i. transfers (an i)" and "length body < 2 ^ 31" and "body \<noteq> []"
    and "length body \<le> unat (rc_max_message_bytes cfg)"
  shows "\<exists>r'. handle_read an e cfg fd r = Inr r' \<and> client_stream r' fd = None"
proof -
  obtain c where c: "wr_connections r fd = Some c" "cn_read_buf c = []" using assms(2) by (rule restingE)
  have len: "length (take 4 (frame body)) = 4" by (simp add: frame_def)
  then have "take 4 (frame body) \<noteq> []" by auto
  have "frame_length (take 4 (frame body)) = length body"
    using frame_length_frame [OF assms(6), of "[]"] by (simp add: frame_length_def)
  with len \<open>take 4 (frame body) \<noteq> []\<close> assms(7,8) have "frame_step (unat (rc_max_message_bytes cfg)) [] (take 4 (frame body)) = Closed"
    by (simp add: frame_step_def Let_def)
  with read_frame_outcome [OF assms(1) c(1) assms(3,5)] c(2) assms(4)
  have "flow_outcome fd (read_frame an cfg fd r) = Closed" by simp
  then obtain r' where r': "read_frame an cfg fd r = Return r'"
      "wr_connections r' fd = None \<or> kn_socks (wr_kernel r') fd = None"
    by (cases "read_frame an cfg fd r")
      (auto split: option.splits dest: read_frame_socket [OF assms(1,3)])
  then show ?thesis by (auto simp: handle_read_def client_stream_def split: option.splits)
qed


subsection \<open>A server with two reactors\<close>

definition sample_start_answers :: start_answers where
  "sample_start_answers = \<lparr>st_epoll = 3,
     st_create = \<lparr>ca_socket = 5, ca_reuseaddr = 0, ca_reuseport = 0, ca_bind = 0, ca_listen = 0, ca_errno = (\<lambda>_. 0)\<rparr>,
     st_eventfd = 6, st_uninitialized = 99\<rparr>"

definition sample_config :: Config where
  "sample_config = \<lparr>cf_port = 9092, cf_log_root = ''/logs'', cf_max_message_bytes = 100,
     cf_max_write_buffer_bytes = 200, cf_segment_bytes = 50, cf_reactor_count = 2\<rparr>"

definition sample_hash :: "string \<Rightarrow> uint64_t" where
  "sample_hash t = word_of_nat (length t)"

definition sample_start :: "ReactorConfig list \<times> server" where
  "sample_start = start_server (\<lambda>_. sample_start_answers) sample_hash sample_config sample_os (Some (enc_meta_log sample_log))"

definition sample_list_offsets :: Request where
  "sample_list_offsets = ListOffsets \<lparr>lo_header = \<lparr>api_key = 2, api_version = 1, correlation_id = 9\<rparr>,
     lo_replica_id = - 1, lo_isolation_level = 0,
     lo_topics = [\<lparr>lot_topic_name = ''t'', lot_partitions = [\<lparr>lop_partition_index = 0, lop_timestamp = - 1\<rparr>]\<rparr>]\<rparr>"

text \<open>A client connects as descriptor 10, with bytes already on their way, and then is ready.\<close>

definition sample_sock :: "bytes \<Rightarrow> sock" where
  "sample_sock bs = \<lparr>sk_in = bs, sk_eof = False, sk_out = [], sk_room = 1000\<rparr>"

definition sample_accept :: "bytes \<Rightarrow> reactor_event" where
  "sample_accept bs = \<lparr>ev_fd = 5, ev_events = EPOLLIN,
     ev_accept = \<lparr>ac_fd = 10, ac_sock = sample_sock bs, ac_flags_ok = True, ac_epoll_ok = True\<rparr>,
     ev_recv = (\<lambda>_ _. Transfer 3), ev_send = (\<lambda>_. Transfer 5), ev_sqe = True, ev_env = sample_env\<rparr>"

definition sample_event :: "uint32_t \<Rightarrow> reactor_event" where
  "sample_event flags = (sample_accept [])\<lparr>ev_fd := 10, ev_events := flags\<rparr>"

definition connected :: "nat \<Rightarrow> bytes \<Rightarrow> server" where
  "connected i bs = put_reactor i (handle_accept (ev_accept (sample_accept bs)) (reactor_view i (snd sample_start)))
     (snd sample_start)"

lemma sample_reactor_config:
  assumes "i < 2"
  shows "rc_server_fd (fst sample_start ! i) = 5" "rc_wakeup_fd (fst sample_start ! i) = 6"
    "rc_reactor_id (fst sample_start ! i) = i" "rc_hash (fst sample_start ! i) = sample_hash"
    "rc_router (fst sample_start ! i) = \<lparr>sr_reactor_count = 2\<rparr>"
    "rc_max_message_bytes (fst sample_start ! i) = 100"
    "rc_max_write_buffer_bytes (fst sample_start ! i) = 200"
    "rc_handler (fst sample_start ! i) =
       reactor_handler sample_config (parse_cluster_metadata_file (Some (enc_meta_log sample_log)))"
  using assms
  by (simp_all add: sample_start_def start_server_def sample_config_def Let_def new_reactor_def
      sample_start_answers_def Server_create_def take_fd_def word_sless_alt word_sle_eq)

lemma sample_start_ok:
  "configs_ok (fst sample_start)" "server_ok (fst sample_start) (snd sample_start)" "length (fst sample_start) = 2"
  unfolding sample_start_def by (simp_all add: start_configs_ok start_server_ok sample_config_def)

lemma sample_connected:
  assumes "i < 2"
  shows "server_run (fst sample_start) (snd sample_start) [] (connected i bs)"
proof -
  let ?cfg = "fst sample_start ! i" and ?ev = "sample_accept bs" and ?v = "reactor_view i (snd sample_start)"
  have fd: "ev_fd ?ev = rc_server_fd ?cfg" using assms by (simp add: sample_accept_def sample_reactor_config)
  have "event_possible ?cfg ?ev ?v" by (simp add: event_possible_def fd)
  moreover have "dispatch_event ?cfg ?ev ?v = Inr (handle_accept (ev_accept ?ev) ?v)"
    by (simp add: dispatch_event_def fd)
  moreover have "event_request ?cfg ?ev ?v = None" by (simp add: event_request_def fd)
  ultimately have "server_step (fst sample_start) (snd sample_start) [] (connected i bs)"
    using step_event [of i "fst sample_start" ?ev "snd sample_start"] assms sample_start_ok(3)
    by (simp add: connected_def)
  from run_next [OF run_start this] show ?thesis by simp
qed

lemma sample_connected_ok:
  assumes "i < 2"
  shows "server_ok (fst sample_start) (connected i bs)"
    "reactor_ok (fst sample_start ! i) (reactor_view i (connected i bs))"
proof -
  show ok: "server_ok (fst sample_start) (connected i bs)"
    using server_run_ok [OF sample_connected [OF assms]] sample_start_ok by blast
  then show "reactor_ok (fst sample_start ! i) (reactor_view i (connected i bs))"
    using assms sample_start_ok(3) by (simp add: server_ok_def)
qed

lemma sample_connected_view:
  assumes "i < 2"
  shows "reactor_view i (connected i bs) = handle_accept (ev_accept (sample_accept bs)) (reactor_view i (snd sample_start))"
proof -
  have "i < length (sv_reactors (snd sample_start))"
    using assms sample_start_ok(2,3) by (simp add: server_ok_def)
  then show ?thesis
    by (simp add: connected_def reactor_view_def put_reactor_def handle_accept_def Let_def sample_accept_def)
qed

lemma sample_connected_state:
  assumes "i < 2"
  shows "wr_connections (reactor_view i (connected i bs)) 10 = Some new_connection"
    "kn_socks (wr_kernel (reactor_view i (connected i bs))) 10 = Some (sample_sock bs)"
    "resting (reactor_view i (connected i bs)) 10"
    "sv_queues (connected i bs) = sv_queues (snd sample_start)"
proof -
  note v = sample_connected_view [OF assms]
  show "wr_connections (reactor_view i (connected i bs)) 10 = Some new_connection"
    "kn_socks (wr_kernel (reactor_view i (connected i bs))) 10 = Some (sample_sock bs)"
    "resting (reactor_view i (connected i bs)) 10"
    unfolding v by (simp_all add: handle_accept_def sample_accept_def resting_def new_connection_def
        word_sless_alt)
  show "sv_queues (connected i bs) = sv_queues (snd sample_start)"
    by (simp add: connected_def)
qed

lemma sample_metadata:
  "parse_cluster_metadata_file (Some (enc_meta_log sample_log)) = build_metadata (log_records sample_log)"
proof -
  have "enc_meta_log sample_log \<noteq> []" by code_simp
  then show ?thesis
    using parse_cluster_metadata_log [OF sample_log_ok, of "[]"] by (simp add: parse_cluster_metadata_file_def)
qed

lemma sample_topic_known:
  "has_partition (find_topic_by_name (build_metadata (log_records sample_log)) ''t'') 0"
  by code_simp

lemma sample_owner:
  assumes "i < 2"
  shows "request_owner (fst sample_start ! i) sample_list_offsets = Some 0"
proof -
  have "route sample_hash \<lparr>sr_reactor_count = 2\<rparr> ''t'' 0 = Some 0" by code_simp
  with assms show ?thesis by (simp add: request_owner_def sample_list_offsets_def sample_reactor_config)
qed

definition sample_body :: bytes where
  "sample_body = encode_request None sample_list_offsets"

lemma sample_body_parsed: "parse_request sample_body = Inr sample_list_offsets"
  using parse_encode_request [of None sample_list_offsets "[]"]
  by (simp add: sample_body_def client_ok_def sample_list_offsets_def short_def)

lemma sample_body_length: "length sample_body = 35"
  by code_simp

lemma sample_handled:
  fixes i :: nat
  assumes "i < 2"
  shows "\<exists>resp b buf. handle (rc_handler (fst sample_start ! i)) e sample_list_offsets s = (Inr resp, b) \<and>
    ls_contexts (bk_store b) (context_key ''t'' 0) \<noteq> None \<and> serialize resp = Some buf \<and> length buf \<le> 100 \<and>
    last_splice resp = None"
proof -
  let ?h = "rc_handler (fst sample_start ! i)"
  obtain c st where g: "get_or_create_context ?h ''t'' 0 (bk_store s) = (c, st)" by fastforce
  let ?resp = "ListOffsetsR \<lparr>lor_correlation_id = 9, lor_throttle_time_ms = 0, lor_topics = [\<lparr>lotr_topic_name = ''t'',
    lotr_partitions = [\<lparr>lopr_partition_index = 0, lopr_error_code = 0, lopr_offset = pc_next_offset c, lopr_timestamp = - 1\<rparr>]\<rparr>]\<rparr>"
  have "rh_metadata ?h = build_metadata (log_records sample_log)"
    using assms by (simp add: sample_reactor_config reactor_handler_def sample_metadata)
  then have "handle ?h e sample_list_offsets s = (Inr ?resp, s\<lparr>bk_store := st\<rparr>)"
    using sample_topic_known
    by (simp add: sample_list_offsets_def with_store_def handle_list_offsets_def list_offsets_topic_def
        list_offsets_partition_def g)
  moreover have "ls_contexts st (context_key ''t'' 0) \<noteq> None"
    using g by (auto simp: get_or_create_context_def Let_def split: option.splits)
  moreover have "serialize ?resp = Some (response_frame ?resp)" by (rule serialize_response_frame) simp_all
  moreover have "varint_encoded_size (u32_of_size (length ''t'') + 1) = 1" by code_simp
  then have "length (response_frame ?resp) \<le> 100"
    by (simp add: response_frame_def frame_def size_eqs size_list_offsets_topic_eq size_list_offsets_topic_def)
  ultimately show ?thesis by (auto simp: last_splice_def)
qed

lemma sample_arrived:
  assumes "i < 2"
  shows "request_arrived (fst sample_start ! i) (reactor_view i (connected i (frame sample_body @ ext))) 10
    (sample_sock (frame sample_body @ ext)) sample_body ext"
  using assms
  by (simp add: request_arrived_def sample_connected_state sample_body_length sample_reactor_config)
    (simp add: sample_sock_def)

lemma sample_start_server:
  "start_server (\<lambda>_. sample_start_answers) sample_hash sample_config sample_os (Some (enc_meta_log sample_log)) =
     (fst sample_start, snd sample_start)"
  by (simp add: sample_start_def)

lemma sample_reactor_count: "0 < cf_reactor_count sample_config" "cf_reactor_count sample_config = 2"
  by (simp_all add: sample_config_def)

lemma sample_transfers: "transfers (\<lambda>_. Transfer k)"
  by (simp add: transfers_def)


theorem request_reply_witness:
  "\<exists>r1 sk2. handle_read (\<lambda>_ _. Transfer 3) sample_env (fst sample_start ! 0) 10
      (reactor_view 0 (connected 0 (frame sample_body @ [1, 2]))) = Inr r1 \<and>
    kn_socks (wr_kernel (handle_write (\<lambda>_. Transfer 5) True 10 r1)) 10 = Some sk2 \<and>
    sk_in sk2 = [1, 2] \<and> sk_out sk2 \<noteq> [] \<and> resting (handle_write (\<lambda>_. Transfer 5) True 10 r1) 10"
proof -
  let ?cfg = "fst sample_start ! 0" and ?r = "reactor_view 0 (connected 0 (frame sample_body @ [1, 2]))"
  let ?sk = "sample_sock (frame sample_body @ [1, 2])"
  obtain resp b buf where h: "handle (rc_handler ?cfg) sample_env sample_list_offsets (wr_broker ?r) = (Inr resp, b)"
      "serialize resp = Some buf" "length buf \<le> 100" "last_splice resp = None"
    using sample_handled [of 0 sample_env "wr_broker ?r"] by auto
  have "handled_here ?cfg sample_list_offsets" "sr_reactor_count (rc_router ?cfg) \<noteq> 0"
    "length buf \<le> rc_max_write_buffer_bytes ?cfg" "length buf \<le> sk_room ?sk"
    using h(3) by (simp_all add: handled_here_def sample_owner sample_reactor_config sample_sock_def)
  from request_reply [OF sample_connected_ok(2) sample_arrived sample_body_parsed this(1,2) h(1,2,4) this(3,4),
      of "\<lambda>_ _. Transfer 3" "\<lambda>_. Transfer 5" True]
  show ?thesis using serialize_not_Nil [OF h(2)] by (auto simp: sample_transfers)
qed

theorem forwarded_reply_witness:
  "\<exists>r1 r2. handle_read (\<lambda>_ _. Transfer 3) sample_env (fst sample_start ! 1) 10
      (reactor_view 1 (connected 1 (frame sample_body))) = Inr r1 \<and>
    drain_request sample_env (fst sample_start ! 0) (reactor_view 0 (put_reactor 1 r1 (connected 1 (frame sample_body)))) =
      Some (Inr r2)"
proof -
  let ?s = "connected 1 (frame sample_body)"
  obtain resp b buf where h: "handle (rc_handler (fst sample_start ! 0)) sample_env sample_list_offsets
        (wr_broker (reactor_view 0 ?s)) = (Inr resp, b)"
      "serialize resp = Some buf" "length buf \<le> 100" "last_splice resp = None"
    using sample_handled [of 0 sample_env "wr_broker (reactor_view 0 ?s)"] by auto
  have q: "cq_requests (sv_queues ?s ! i) = []" "cq_responses (sv_queues ?s ! i) = []" if "i < 2" for i
    using that by (simp_all add: sample_connected_state sample_start_def start_server_def sample_reactor_count
        Let_def new_reactor_queue)
  have "request_arrived (fst sample_start ! 1) (reactor_view 1 ?s) 10 (sample_sock (frame sample_body)) sample_body []"
    using sample_arrived [of 1 "[]"] by simp
  moreover have "length buf \<le> sk_room (sample_sock (frame sample_body))" using h(3) by (simp add: sample_sock_def)
  ultimately show ?thesis
    using forwarded_reply [OF sample_start_ok(1) sample_connected_ok(1) [of 1 "frame sample_body"], of 1 0 10
        "sample_sock (frame sample_body)" sample_body "[]" sample_list_offsets sample_env resp b buf
        "\<lambda>_ _. Transfer 3" "\<lambda>_. Transfer 5" sample_env True]
      sample_start_ok(3) sample_body_parsed sample_owner [of 1] h q [of 0] q [of 1]
    by (auto simp: sample_transfers)
qed

text \<open>A client of the second reactor that sends the request of the first and a heartbeat.\<close>

definition heartbeat_body :: bytes where
  "heartbeat_body = encode_request None sample_heartbeat"

lemma heartbeat_body_parsed: "parse_request heartbeat_body = Inr sample_heartbeat"
  using parse_encode_request [of None sample_heartbeat "[]"]
  by (simp add: heartbeat_body_def client_ok_def sample_heartbeat_def short_def)

lemma heartbeat_body_length: "length heartbeat_body \<le> 50"
  by code_simp

lemma heartbeat_handled:
  "\<exists>resp b buf. handle h e sample_heartbeat s = (Inr resp, b) \<and> serialize resp = Some buf \<and> length buf \<le> 100 \<and>
    last_splice resp = None"
proof -
  obtain hr b where h: "handle h e sample_heartbeat s = (Inr (HeartbeatR hr), b)"
    by (simp add: sample_heartbeat_def with_coordinator_def)
  moreover have "serialize (HeartbeatR hr) = Some (response_frame (HeartbeatR hr))"
    by (rule serialize_response_frame) simp_all
  moreover have "length (response_frame (HeartbeatR hr)) \<le> 100" by (simp add: response_frame_def frame_def)
  ultimately show ?thesis by (auto simp: last_splice_def)
qed

theorem pipelined_answer_overtakes_witness:
  "\<exists>r1 r2 sk'. handle_read (\<lambda>_ _. Transfer 3) sample_env (fst sample_start ! 1) 10
      (reactor_view 1 (connected 1 (frame sample_body @ frame heartbeat_body))) = Inr r1 \<and>
    handle_read (\<lambda>_ _. Transfer 3) sample_env (fst sample_start ! 1) 10 r1 = Inr r2 \<and>
    kn_socks (wr_kernel (handle_write (\<lambda>_. Transfer 5) True 10 r2)) 10 = Some sk' \<and> sk_out sk' \<noteq> [] \<and>
    cq_requests (wr_queues (handle_write (\<lambda>_. Transfer 5) True 10 r2) ! 0) =
      [forwarded (fst sample_start ! 1) 10 sample_list_offsets]"
proof -
  let ?bs = "frame sample_body @ frame heartbeat_body" and ?cfg = "fst sample_start ! 1"
  let ?r = "reactor_view 1 (connected 1 ?bs)"
  obtain resp b buf where h: "handle (rc_handler ?cfg) sample_env sample_heartbeat (wr_broker ?r) = (Inr resp, b)"
      "serialize resp = Some buf" "length buf \<le> 100" "last_splice resp = None"
    using heartbeat_handled by blast
  have here: "handled_here ?cfg sample_heartbeat"
    by (simp add: handled_here_def request_owner_def sample_heartbeat_def)
  have ok: "reactor_ok ?cfg ?r" "0 < length (wr_queues ?r)"
    using sample_connected_ok [of 1 ?bs] sample_start_ok(3) by (simp_all add: server_ok_def queues_ok_def)
  have sizes: "length heartbeat_body < 2 ^ 31" "length heartbeat_body \<le> unat (rc_max_message_bytes ?cfg)"
    "length buf \<le> rc_max_write_buffer_bytes ?cfg" "length buf \<le> sk_room (sample_sock ?bs)"
    using heartbeat_body_length h(3) by (simp_all add: sample_reactor_config sample_sock_def)
  have q: "cq_requests (wr_queues ?r ! 0) = []"
    by (simp add: sample_connected_state sample_start_def start_server_def sample_reactor_count Let_def new_reactor_queue)
  have "request_arrived ?cfg ?r 10 (sample_sock ?bs) sample_body (frame heartbeat_body @ [])"
    using sample_arrived [of 1 "frame heartbeat_body"] by simp
  from pipelined_answer_overtakes [OF ok(1) this sample_body_parsed sample_owner [of 1] _ ok(2) heartbeat_body_parsed
      sizes(1,2) here _ h(1,2,4) sizes(3,4), of "\<lambda>_ _. Transfer 3" "\<lambda>_. Transfer 5" sample_env True]
  show ?thesis
    using q serialize_not_Nil [OF h(2)] by (auto simp: sample_reactor_config sample_transfers)
qed

theorem read_frame_refines_witness:
  "flow_outcome 10 (read_frame (\<lambda>_ _. Transfer 3) (fst sample_start ! 0) 10 (reactor_view 0 (connected 0 [0, 0, 0]))) =
     Waiting [0, 0, 0] []"
  using read_frame_refines [OF sample_connected_ok(2) [of 0 "[0, 0, 0]"] sample_connected_state(1,2) [of 0 "[0, 0, 0]"],
      of "\<lambda>_ _. Transfer 3"]
  by (simp add: sample_transfers sample_reactor_config frame_step_def new_connection_def sample_sock_def Let_def)

theorem frame_reassembled_witness:
  "\<exists>r'. read_chunks (\<lambda>_ _. Transfer 1) (fst sample_start ! 0) 10 [[0, 0], [0, 3, 1], [2, 3]]
      (reactor_view 0 (connected 0 [])) = Continue r' \<and> cn_read_buf (conn_at r' 10) = frame [1, 2, 3]"
proof -
  have f: "concat [[0, 0], [0, 3, 1], [2, 3]] = frame [1, 2, 3]" by code_simp
  have n: "\<forall>n. length (concat (take n [[0, 0], [0, 3, 1], [2, 3 :: uint8_t]])) \<noteq> 4"
    by (auto simp: take_Cons split: nat.split)
  show ?thesis
    using frame_reassembled [OF sample_connected_ok(2) [of 0 "[]"] sample_connected_state(3,2) [of 0 "[]"] _ _ f,
        of "\<lambda>_ _. Transfer 1"]
      n by (simp add: sample_transfers sample_sock_def sample_reactor_config)
qed

theorem header_alone_closes_witness:
  "\<exists>r'. handle_read (\<lambda>_ _. Transfer 3) sample_env (fst sample_start ! 0) 10
      (reactor_view 0 (connected 0 (take 4 (frame [1, 2, 3])))) = Inr r' \<and> client_stream r' 10 = None"
  using header_alone_closes [OF sample_connected_ok(2) [of 0 "take 4 (frame [1, 2, 3])"]
      sample_connected_state(3,2) [of 0 "take 4 (frame [1, 2, 3])"], of "[1, 2, 3]" "\<lambda>_ _. Transfer 3" sample_env]
  by (simp add: sample_transfers sample_sock_def sample_reactor_config)

lemma sample_read_event:
  defines "v \<equiv> reactor_view 0 (connected 0 (frame sample_body))"
  shows "\<exists>r. dispatch_event (fst sample_start ! 0) (sample_event EPOLLIN) v = Inr r \<and>
    ls_contexts (bk_store (wr_broker r)) (context_key ''t'' 0) \<noteq> None"
    and "event_request (fst sample_start ! 0) (sample_event EPOLLIN) v = Some sample_list_offsets"
    and "event_possible (fst sample_start ! 0) (sample_event EPOLLIN) v"
proof -
  let ?cfg = "fst sample_start ! 0" and ?ev = "sample_event EPOLLIN" and ?sk = "sample_sock (frame sample_body)"
  have ok: "reactor_ok ?cfg v" using sample_connected_ok(2) [of 0] by (simp add: v_def)
  have arr: "request_arrived ?cfg v 10 ?sk sample_body []" using sample_arrived [of 0 "[]"] by (simp add: v_def)
  have flags: "ev_fd ?ev = 10" "ev_events ?ev AND (EPOLLERR OR EPOLLHUP) = 0" "ev_events ?ev AND EPOLLIN \<noteq> 0"
    "ev_events ?ev AND EPOLLOUT = 0" "rc_server_fd ?cfg = 5" "rc_wakeup_fd ?cfg = 6"
    by (simp_all add: sample_event_def EPOLLIN_def EPOLLERR_def EPOLLHUP_def EPOLLOUT_def sample_reactor_config)
  have an: "ev_recv ?ev = (\<lambda>_ _. Transfer 3)" by (simp add: sample_event_def sample_accept_def)
  obtain resp b buf where h: "handle (rc_handler ?cfg) (ev_env ?ev) sample_list_offsets (wr_broker v) = (Inr resp, b)"
      "ls_contexts (bk_store b) (context_key ''t'' 0) \<noteq> None" "serialize resp = Some buf" "length buf \<le> 100"
      "last_splice resp = None"
    using sample_handled [of 0 "ev_env ?ev" "wr_broker v"] by auto
  have "handled_here ?cfg sample_list_offsets" "sr_reactor_count (rc_router ?cfg) \<noteq> 0"
    "length buf \<le> rc_max_write_buffer_bytes ?cfg" "length buf \<le> sk_room ?sk"
    using h(4) by (simp_all add: handled_here_def sample_owner sample_reactor_config sample_sock_def)
  from request_reply_local [OF ok arr sample_body_parsed this(1,2) h(1,3,5) this(3,4), of "ev_recv ?ev" "\<lambda>_. Transfer 5"]
  obtain r1 where r1: "handle_read (ev_recv ?ev) (ev_env ?ev) ?cfg 10 v = Inr r1" "wr_broker r1 = b"
    by (auto simp: an sample_transfers)
  then show "\<exists>r. dispatch_event ?cfg ?ev v = Inr r \<and> ls_contexts (bk_store (wr_broker r)) (context_key ''t'' 0) \<noteq> None"
    using h(2) flags by (simp add: dispatch_event_def)
  have "\<exists>r2. read_frame (ev_recv ?ev) ?cfg 10 v = Continue r2 \<and> drop 4 (cn_read_buf (conn_at r2 10)) = sample_body"
    using read_frame_complete [OF ok, of 10 ?sk sample_body "[]" "ev_recv ?ev"] arr
    by (auto simp: request_arrived_def an sample_transfers)
  then show "event_request ?cfg ?ev v = Some sample_list_offsets"
    using flags sample_body_parsed by (auto simp: event_request_def)
  show "event_possible ?cfg ?ev v"
    using arr flags by (simp add: event_possible_def request_arrived_def resting_def)
qed

theorem partition_single_owner_witness:
  "\<exists>s. server_run (fst sample_start) (snd sample_start) [sample_list_offsets] s \<and>
    ls_contexts (bk_store (wr_broker (sv_reactors s ! 0))) (context_key ''t'' 0) \<noteq> None \<and>
    partition_owner (fst sample_start ! 0) ''t'' 0 = Some 0"
proof -
  let ?s = "connected 0 (frame sample_body)"
  obtain r where r: "dispatch_event (fst sample_start ! 0) (sample_event EPOLLIN) (reactor_view 0 ?s) = Inr r"
    "ls_contexts (bk_store (wr_broker r)) (context_key ''t'' 0) \<noteq> None"
    using sample_read_event(1) by blast
  have "server_step (fst sample_start) ?s [sample_list_offsets] (put_reactor 0 r ?s)"
    using step_event [of 0 "fst sample_start" "sample_event EPOLLIN" ?s r] sample_read_event(2,3) r(1) sample_start_ok(3)
    by simp
  from run_next [OF sample_connected this]
  have run: "server_run (fst sample_start) (snd sample_start) [sample_list_offsets] (put_reactor 0 r ?s)" by simp
  have "0 < length (sv_reactors ?s)" using sample_connected_ok(1) [of 0] sample_start_ok(3) by (simp add: server_ok_def)
  then have ctx: "ls_contexts (bk_store (wr_broker (sv_reactors (put_reactor 0 r ?s) ! 0))) (context_key ''t'' 0) \<noteq> None"
    using r(2) by (simp add: put_reactor_def)
  have "co_located (fst sample_start ! 0) sample_list_offsets"
    unfolding sample_list_offsets_def
    by (rule single_partition_co_located(2) [where ?p1.0 = "\<lparr>lop_partition_index = 0, lop_timestamp = - 1\<rparr>"]) simp+
  with partition_single_owner [OF sample_start_server run sample_reactor_count(1) _ _ _ ctx _ ctx] run ctx
  show ?thesis by (auto simp: sample_reactor_count)
qed


text \<open>A reactor that is interrupted once, and then accepts a client and reads its request in one round.\<close>

definition sample_turns :: "(log_env \<times> wait_answer) list" where
  "sample_turns =
     (let le = \<lparr>le_now = 0, le_tid = 1\<rparr> in
      [(le, Wait_failed 4),
       (le, Wait_ready \<lparr>mw_requests = [], mw_responses = [], mw_coordinator = new_coordinator, mw_os = sample_os\<rparr>
              [sample_accept (frame sample_body), sample_event EPOLLIN] (\<lambda>_. sample_env) [] 7)])"

lemma sample_turns_servable: "turns_servable (fst sample_start ! 0) sample_turns (reactor_view 0 (snd sample_start))"
proof -
  let ?cfg = "fst sample_start ! 0" and ?v = "reactor_view 0 (snd sample_start)"
  have co: "bk_coordinator (wr_broker ?v) = new_coordinator" "ls_os (bk_store (wr_broker ?v)) = sample_os"
    by (simp_all add: reactor_view_def sample_start_def start_server_def Let_def)
  have fd: "ev_fd (sample_accept bs) = rc_server_fd ?cfg" for bs by (simp add: sample_accept_def sample_reactor_config)
  have acc: "dispatch_event ?cfg (sample_accept bs) ?v = Inr (reactor_view 0 (connected 0 bs))" for bs
    using sample_connected_view [of 0 bs] by (simp add: dispatch_event_def fd)
  obtain r where r: "dispatch_event ?cfg (sample_event EPOLLIN) (reactor_view 0 (connected 0 (frame sample_body))) = Inr r"
    using sample_read_event(1) by blast
  have "event_possible ?cfg (sample_accept bs) ?v" "event_request ?cfg (sample_accept bs) ?v = None" for bs
    by (simp_all add: event_possible_def event_request_def fd)
  then show ?thesis
    using sample_read_event(2,3)
    by (simp add: sample_turns_def Let_def EINTR_def apply_others_none co acc r servable_def sample_list_offsets_def
        split: sum.split)
qed


end
